(* ===== verification/Prelude.thy ===== *)
theory Prelude
  imports Main "HOL-Library.Word" "HOL-Library.Multiset" "HOL-Library.Sublist"
    "HOL-Library.Monad_Syntax"
begin

text \<open>
  What every theory of the development shares: the Go types the sources use and the part of the
  Go standard library they call (byte strings, \<^verbatim>\<open>strings.Contains\<close>, \<^verbatim>\<open>strings.Count\<close>,
  \<^verbatim>\<open>strings.Split\<close>, slices, \<^verbatim>\<open>int32\<close> arithmetic), the sentinel errors of \<^verbatim>\<open>p2p/errors.go\<close>,
  and the generic lemmas on lists, maps and words.

  Conventions. A Go \<^verbatim>\<open>string\<close> is a \<^typ>\<open>string\<close> (one character per byte), a \<^verbatim>\<open>[]byte\<close> is a list of
  8-bit words, \<^verbatim>\<open>core.PeerID\<close> and \<^verbatim>\<open>peer.ID\<close> are strings, as in the sources. A function that can
  panic returns an \<^verbatim>\<open>option\<close>, \<^const>\<open>None\<close> being the panic; a function that returns \<^verbatim>\<open>(T, error)\<close>
  returns a sum, \<^const>\<open>Inl\<close> being the error.
\<close>

unbundle bit_operations_syntax

named_theorems go_inv \<open>preservation of the invariant of a component by its operations\<close>
named_theorems go_ops \<open>definitions of the operations of a component\<close>

section \<open>Types\<close>

type_synonym byte = "8 word"
type_synonym bytes = "byte list"
type_synonym peer_id = string
type_synonym uint32 = "32 word"
type_synonym uint64 = "64 word"
type_synonym int64 = "64 word"

section \<open>The sentinel errors of the p2p packages\<close>

text \<open>
  One constructor per variable of \<^verbatim>\<open>p2p/errors.go\<close>, with the texts that \<^verbatim>\<open>fmt.Errorf\<close> wraps around
  them left out (\<^verbatim>\<open>errors.Is\<close> looks at the sentinel only). \<open>ErrOther\<close> stands for an error
  value that was made by code outside the repository; it carries its message.
\<close>

datatype (plugins del: code quickcheck_random quickcheck_exhaustive quickcheck_bounded_forall
    quickcheck_full_exhaustive quickcheck_narrowing transfer lifting) p2p_error =
    ErrNilContext | ErrNilMockNet | ErrNilTopic | ErrChannelDoesNotExist
  | ErrChannelCanNotBeDeleted | ErrChannelCanNotBeReAdded | ErrNilMessage
  | ErrAlreadySeenMessage | ErrMessageTooNew | ErrMessageTooOld
  | ErrNilDirectSendMessageHandler | ErrPeerNotDirectlyConnected | ErrNilHost
  | ErrNilValidator | ErrPeerDiscoveryProcessAlreadyStarted | ErrMessageTooLarge
  | ErrEmptyBufferToSend | ErrNilFetchPeersOnTopicHandler | ErrInvalidDurationProvided
  | ErrTooManyGoroutines | ErrInvalidValue | ErrInvalidPortValue
  | ErrInvalidPortsRangeString | ErrInvalidStartingPortValue | ErrInvalidEndingPortValue
  | ErrEndPortIsSmallerThanStartPort | ErrNoFreePortInRange | ErrNilSharder
  | ErrNilPeerShardResolver | ErrNilMarshaller | ErrWrongTypeAssertion | ErrNilReconnecter
  | ErrUnwantedPeer | ErrNilPeerDenialEvaluator | ErrMessageUnmarshalError
  | ErrUnsupportedFields | ErrUnsupportedMessageVersion | ErrNilSyncTimer
  | ErrNilPreferredPeersHolder | ErrInvalidSeedersReconnectionInterval
  | ErrMessageProcessorAlreadyDefined | ErrMessageProcessorDoesNotExists
  | ErrWrongTypeAssertions | ErrNilConnectionsWatcher | ErrNilPeersRatingHandler
  | ErrNilP2pPrivateKey | ErrNilP2pSingleSigner | ErrNilP2pKeyGenerator | ErrNilCacher
  | ErrNilP2PSigner | ErrNilPubSub | ErrNilDirectSender | ErrNilThrottler
  | ErrNilChannelLoadBalancer | ErrNilDebugger | ErrInvalidConfig | ErrNilPeersOnChannel
  | ErrNilConnectionMonitor | ErrNilNetwork | ErrNilPeerDiscoverer | ErrNilConnectionsMetric
  | ErrNilConnectionsHandler | ErrNilLogger | ErrInvalidTCPAddress | ErrInvalidQUICAddress
  | ErrInvalidWSAddress | ErrInvalidWebTransportAddress | ErrNoTransportsDefined
  | ErrUnknownResourceLimiterType
  | ErrOther string

section \<open>Strings and byte slices\<close>

definition string_of_bytes :: "bytes \<Rightarrow> string" where
  "string_of_bytes bs = map (\<lambda>b. char_of (unat b)) bs"

definition bytes_of_string :: "string \<Rightarrow> bytes" where
  "bytes_of_string s = map (\<lambda>c. of_nat (of_char c)) s"

lemma unat_byte_less [simp]: "unat (b :: byte) < 256"
  using unsigned_less [of b] by simp

lemma bytes_of_string_of_bytes [simp]: "bytes_of_string (string_of_bytes bs) = bs"
  by (induction bs) (simp_all add: string_of_bytes_def bytes_of_string_def)

lemma string_of_bytes_of_string [simp]: "string_of_bytes (bytes_of_string s) = s"
proof (induction s)
  case (Cons c s)
  have "of_char c < (256 :: nat)" by simp
  then have "unat (of_nat (of_char c) :: byte) = of_char c"
    by (simp add: unat_of_nat)
  with Cons show ?case by (simp add: string_of_bytes_def bytes_of_string_def)
qed (simp add: string_of_bytes_def bytes_of_string_def)

lemma string_of_bytes_inject [simp]: "string_of_bytes a = string_of_bytes b \<longleftrightarrow> a = b"
  by (metis bytes_of_string_of_bytes)

lemma length_string_of_bytes [simp]: "length (string_of_bytes bs) = length bs"
  by (simp add: string_of_bytes_def)

lemma length_bytes_of_string [simp]: "length (bytes_of_string s) = length s"
  by (simp add: bytes_of_string_def)

lemma bytes_of_string_append: "bytes_of_string (s @ t) = bytes_of_string s @ bytes_of_string t"
  by (simp add: bytes_of_string_def)

text \<open>\<^verbatim>\<open>strings.Contains(s, sub)\<close>.\<close>

fun str_contains :: "string \<Rightarrow> string \<Rightarrow> bool" where
  "str_contains [] sub = (sub = [])"
| "str_contains (c # s) sub = (prefix sub (c # s) \<or> str_contains s sub)"

lemma str_contains_iff: "str_contains s sub \<longleftrightarrow> sublist sub s"
  by (induction s) (auto simp: sublist_Cons_right)

lemma str_contains_refl [simp]: "str_contains s s"
  by (simp add: str_contains_iff)

text \<open>\<^verbatim>\<open>strings.Count(s, sub)\<close> for a non-empty \<open>sub\<close>: non-overlapping occurrences from the left.\<close>

function str_count :: "string \<Rightarrow> string \<Rightarrow> nat" where
  "str_count sub s =
     (if s = [] \<or> sub = [] then 0
      else if prefix sub s then Suc (str_count sub (drop (length sub) s))
      else str_count sub (tl s))"
  by pat_completeness auto
termination
  by (relation "measure (\<lambda>(sub, s). length s)") auto

declare str_count.simps [simp del]

text \<open>\<^verbatim>\<open>strings.Split(s, sep)\<close> for a separator of one byte.\<close>

fun str_split :: "char \<Rightarrow> string \<Rightarrow> string list" where
  "str_split sep [] = [[]]"
| "str_split sep (c # s) =
     (if c = sep then [] # str_split sep s
      else (case str_split sep s of [] \<Rightarrow> [[c]] | w # ws \<Rightarrow> (c # w) # ws))"

lemma str_split_not_Nil [simp]: "str_split sep s \<noteq> []"
  by (induction s) (auto split: list.splits)

lemma str_split_no_sep: "sep \<notin> set s \<Longrightarrow> str_split sep s = [s]"
  by (induction s) auto

text \<open>The decimal text that \<^verbatim>\<open>fmt.Sprintf("%d", n)\<close> gives.\<close>

fun show_nat :: "nat \<Rightarrow> string" where
  "show_nat n =
     (if n < 10 then [char_of (48 + n)] else show_nat (n div 10) @ [char_of (48 + n mod 10)])"

declare show_nat.simps [simp del]

definition show_int :: "int \<Rightarrow> string" where
  "show_int i = (if i < 0 then CHR ''-'' # show_nat (nat (- i)) else show_nat (nat i))"

section \<open>Slices\<close>

text \<open>
  \<open>slice_delete xs i\<close> is \<^verbatim>\<open>append(xs[:i], xs[i+1:]...)\<close>. The slice expression \<^verbatim>\<open>xs[i+1:]\<close> panics when
  \<open>i + 1\<close> is beyond the length; \<^verbatim>\<open>xs[:i]\<close> does not fail where that one succeeds.
\<close>

definition slice_delete :: "'a list \<Rightarrow> nat \<Rightarrow> 'a list option" where
  "slice_delete xs i = (if i < length xs then Some (take i xs @ drop (Suc i) xs) else None)"

lemma slice_delete_Some_iff:
  "slice_delete xs i = Some ys \<longleftrightarrow> i < length xs \<and> ys = take i xs @ drop (Suc i) xs"
  by (auto simp: slice_delete_def)

lemma mset_slice_delete:
  assumes "slice_delete xs i = Some ys"
  shows "mset xs = add_mset (xs ! i) (mset ys)"
proof -
  have i: "i < length xs" and ys: "ys = take i xs @ drop (Suc i) xs"
    using assms by (auto simp: slice_delete_Some_iff)
  have "mset (take i xs @ xs ! i # drop (Suc i) xs) = add_mset (xs ! i) (mset ys)"
    by (simp add: ys)
  then show ?thesis using id_take_nth_drop [OF i] by simp
qed

lemma distinct_slice_delete:
  assumes "slice_delete xs i = Some ys" and "distinct xs"
  shows "distinct ys" and "set ys = set xs - {xs ! i}"
proof -
  have "i < length xs" using assms(1) by (simp add: slice_delete_Some_iff)
  then have xs: "xs = take i xs @ xs ! i # drop (Suc i) xs" by (rule id_take_nth_drop)
  have ys: "ys = take i xs @ drop (Suc i) xs" using assms(1) by (simp add: slice_delete_Some_iff)
  have d: "distinct (take i xs @ xs ! i # drop (Suc i) xs)" using assms(2) xs by simp
  show "distinct ys" using d ys by simp
  have "set xs = insert (xs ! i) (set ys)"
    using arg_cong [OF xs, of set] ys by simp
  moreover have "xs ! i \<notin> set ys" using d ys by auto
  ultimately show "set ys = set xs - {xs ! i}" by blast
qed

section \<open>Fixed-width integers\<close>

text \<open>\<^verbatim>\<open>int32\<close> values are integers in the two's complement range, with the wrap-around of \<open>+\<close> written out.\<close>

definition wrap32 :: "int \<Rightarrow> int" where
  "wrap32 x = (x + 2 ^ 31) mod 2 ^ 32 - 2 ^ 31"

lemma wrap32_id: "- (2 ^ 31) \<le> x \<Longrightarrow> x < 2 ^ 31 \<Longrightarrow> wrap32 x = x"
  by (simp add: wrap32_def)

lemma wrap32_range: "- (2 ^ 31) \<le> wrap32 x" "wrap32 x < 2 ^ 31"
  by (simp_all add: wrap32_def)

text \<open>The number of bits of a value, what \<^verbatim>\<open>math/bits.Len\<close> computes.\<close>

fun bit_len :: "nat \<Rightarrow> nat" where
  "bit_len n = (if n = 0 then 0 else Suc (bit_len (n div 2)))"

declare bit_len.simps [simp del]

lemma bit_len_0 [simp]: "bit_len 0 = 0"
  by (simp add: bit_len.simps)

lemma bit_len_le_iff: "bit_len n \<le> k \<longleftrightarrow> n < 2 ^ k"
proof (induction n arbitrary: k rule: bit_len.induct)
  case (1 n)
  show ?case
  proof (cases "n = 0")
    case False
    then show ?thesis
      using "1.IH" [OF False, of "k - 1"] by (cases k) (auto simp: bit_len.simps [of n])
  qed simp
qed

section \<open>Lists and maps\<close>

lemma drop_eq_ConsD: "drop i d = x # r \<Longrightarrow> i < length d \<and> d ! i = x \<and> drop (Suc i) d = r"
  by (metis Cons_nth_drop_Suc drop_all list.inject list.simps(3) not_less)

lemma drop_appendD: "drop i d = a @ r \<Longrightarrow> drop (i + length a) d = r"
  by (metis add.commute append_eq_conv_conj drop_drop)

lemma take_of_drop_append: "drop i d = a @ r \<Longrightarrow> take (length a) (drop i d) = a"
  by simp

end
