(* ===== verification/Proto_Wire.thy ===== *)
theory Proto_Wire
  imports Prelude
begin

text \<open>
  The wire format primitives that the generated protobuf code of the repository shares: the code of
  \<^verbatim>\<open>encodeVarintX\<close>, \<^verbatim>\<open>sovX\<close> and \<^verbatim>\<open>skipX\<close> is the same text for \<open>X\<close> = \<^verbatim>\<open>TopicMessage\<close>
  (\<^verbatim>\<open>p2p/data/topicMessage.pb.go\<close>), \<^verbatim>\<open>WsMessage\<close> (\<^verbatim>\<open>websocket/data/wsMessage.pb.go\<close>) and
  \<^verbatim>\<open>PeerShardMessage\<close> (\<^verbatim>\<open>p2p/message/peerShardMessage.pb.go\<close>), up to the names of the error
  variables. The messages themselves are in the theories that import this one.

  A marshalling buffer is a list of bytes written by index, from its end to its start as the code
  does it; a write out of range is a panic (\<^const>\<open>None\<close>). The reference encoder \<open>enc_nat\<close> builds the
  bytes from left to right; the lemmas show that the in-place code computes it.
\<close>

section \<open>Errors\<close>

text \<open>
  \<^verbatim>\<open>ErrInvalidLength\<close>, \<^verbatim>\<open>ErrIntOverflow\<close> and \<^verbatim>\<open>ErrUnexpectedEndOfGroup\<close> are the variables of the
  generated files, \<^verbatim>\<open>io.ErrUnexpectedEOF\<close> is the standard library's, the others are the
  \<^verbatim>\<open>fmt.Errorf\<close> values of \<^verbatim>\<open>Unmarshal\<close> and \<^verbatim>\<open>skip\<close>.
\<close>

datatype proto_error =
    ErrInvalidLength | ErrIntOverflow | ErrUnexpectedEndOfGroup | ErrUnexpectedEOF
  | ErrEndGroupForNonGroup | ErrIllegalTag int uint64 | ErrWrongWireType nat string
  | ErrIllegalWireType nat

section \<open>Sizes\<close>

text \<open>\<^verbatim>\<open>math/bits.Len64\<close>.\<close>

definition bits_Len64 :: "uint64 \<Rightarrow> nat" where
  "bits_Len64 x = bit_len (unat x)"

definition sov :: "uint64 \<Rightarrow> nat" where
  "sov x = (bits_Len64 (x OR 1) + 6) div 7"

section \<open>Writing into the buffer\<close>

text \<open>One assignment \<^verbatim>\<open>dAtA[i] = b\<close>.\<close>

definition buf_write :: "bytes \<Rightarrow> nat \<Rightarrow> byte \<Rightarrow> bytes option" where
  "buf_write d i b = (if i < length d then Some (d[i := b]) else None)"

text \<open>The loop of \<^verbatim>\<open>encodeVarint\<close> and its last write.\<close>

function varint_loop :: "bytes \<Rightarrow> nat \<Rightarrow> uint64 \<Rightarrow> bytes option" where
  "varint_loop d offset v =
     (if 128 \<le> v then do {
        d' \<leftarrow> buf_write d offset (ucast (v AND 127 OR 128));
        varint_loop d' (Suc offset) (drop_bit 7 v)
      }
      else buf_write d offset (ucast v))"
  by pat_completeness auto
termination
proof (relation "measure (\<lambda>(d, offset, v). unat v)", goal_cases)
  case (2 d offset v d')
  then have "128 \<le> unat v" by (simp add: word_le_nat_alt)
  moreover have "unat (drop_bit 7 v) = unat v div 128"
    by (simp add: drop_bit_eq_div unat_div)
  ultimately show ?case by simp
qed simp

declare varint_loop.simps [simp del]

text \<open>
  \<open>encodeVarint d offset v\<close> writes the varint of \<open>v\<close> so that it ends right before \<open>offset\<close> and
  returns the buffer and the index of its first byte. A negative index is a panic at the first write.
\<close>

definition encodeVarint :: "bytes \<Rightarrow> nat \<Rightarrow> uint64 \<Rightarrow> (bytes \<times> nat) option" where
  "encodeVarint d offset v =
     (if offset < sov v then None
      else do {
        d' \<leftarrow> varint_loop d (offset - sov v) v;
        Some (d', offset - sov v)
      })"

text \<open>\<^verbatim>\<open>i--; dAtA[i] = tag\<close>.\<close>

definition put_byte :: "bytes \<times> nat \<Rightarrow> byte \<Rightarrow> (bytes \<times> nat) option" where
  "put_byte s b = (case s of (d, i) \<Rightarrow>
     if i = 0 then None else do { d' \<leftarrow> buf_write d (i - 1) b; Some (d', i - 1) })"

text \<open>\<^verbatim>\<open>i -= len(bs); copy(dAtA[i:], bs)\<close>.\<close>

definition put_copy :: "bytes \<times> nat \<Rightarrow> bytes \<Rightarrow> (bytes \<times> nat) option" where
  "put_copy s bs = (case s of (d, i) \<Rightarrow>
     if i < length bs \<or> length d < i - length bs then None
     else let j = i - length bs; n = min (length bs) (length d - j)
          in Some (take j d @ take n bs @ drop (j + n) d, j))"

definition put_varint :: "bytes \<times> nat \<Rightarrow> uint64 \<Rightarrow> (bytes \<times> nat) option" where
  "put_varint s v = (case s of (d, i) \<Rightarrow> encodeVarint d i v)"

section \<open>Reading\<close>

text \<open>
  The varint loop that \<^verbatim>\<open>Unmarshal\<close> inlines for every field: the accumulator has the width of the
  variable it is read into (\<^verbatim>\<open>uint64\<close>, \<^verbatim>\<open>int\<close>, \<^verbatim>\<open>int64\<close>: 64 bits; \<^verbatim>\<open>uint32\<close>, \<^verbatim>\<open>int32\<close>: 32 bits), so higher bits are
  lost by the shift as in Go.
\<close>

function decodeVarint :: "bytes \<Rightarrow> nat \<Rightarrow> nat \<Rightarrow> 'w::len word \<Rightarrow> proto_error + ('w word \<times> nat)" where
  "decodeVarint d i shift acc =
     (if 64 \<le> shift then Inl ErrIntOverflow
      else if length d \<le> i then Inl ErrUnexpectedEOF
      else let b = d ! i; acc' = acc OR push_bit shift (ucast (b AND 127))
           in if b < 128 then Inr (acc', Suc i) else decodeVarint d (Suc i) (shift + 7) acc')"
  by pat_completeness auto
termination
  by (relation "measure (\<lambda>(d, i, shift, acc). length d - i)") auto

declare decodeVarint.simps [simp del]

text \<open>
  The bytes of a length-delimited field: the length is read as an \<^verbatim>\<open>int\<close>; a negative length, or an end
  index that overflows the \<^verbatim>\<open>int\<close> range, is \<^const>\<open>ErrInvalidLength\<close>.
\<close>

definition decodeBytes :: "bytes \<Rightarrow> nat \<Rightarrow> proto_error + (bytes \<times> nat)" where
  "decodeBytes d i =
     (case decodeVarint d i 0 (0 :: int64) of Inl e \<Rightarrow> Inl e
      | Inr (byteLen, i1) \<Rightarrow>
          if sint byteLen < 0 then Inl ErrInvalidLength
          else let postIndex = i1 + unat byteLen
               in if 2 ^ 63 \<le> postIndex then Inl ErrInvalidLength
                  else if length d < postIndex then Inl ErrUnexpectedEOF
                  else Inr (take (unat byteLen) (drop i1 d), postIndex))"

text \<open>Skipping: the loop that only advances (case 0 of \<^verbatim>\<open>skip\<close>).\<close>

function skipVarint :: "bytes \<Rightarrow> nat \<Rightarrow> nat \<Rightarrow> proto_error + nat" where
  "skipVarint d i shift =
     (if 64 \<le> shift then Inl ErrIntOverflow
      else if length d \<le> i then Inl ErrUnexpectedEOF
      else if d ! i < 128 then Inr (Suc i) else skipVarint d (Suc i) (shift + 7))"
  by pat_completeness auto
termination
  by (relation "measure (\<lambda>(d, i, shift). length d - i)") auto

declare skipVarint.simps [simp del]

lemma decodeVarint_progress:
  "decodeVarint d i shift acc = Inr (v, j) \<Longrightarrow> i < j \<and> j \<le> length d"
proof (induction d i shift acc rule: decodeVarint.induct)
  case (1 d i shift acc)
  show ?case
    using "1.prems" "1.IH"
    by (subst (asm) decodeVarint.simps) (fastforce simp: Let_def split: if_splits)
qed

lemma skipVarint_progress: "skipVarint d i shift = Inr j \<Longrightarrow> i < j \<and> j \<le> length d"
proof (induction d i shift rule: skipVarint.induct)
  case (1 d i shift)
  show ?case
    using "1.prems" "1.IH"
    by (subst (asm) skipVarint.simps) (fastforce split: if_splits)
qed

text \<open>
  One turn of the loop of \<^verbatim>\<open>skip\<close>: the index and the group depth after one tag and its value.
\<close>

definition skip_step :: "bytes \<Rightarrow> nat \<Rightarrow> nat \<Rightarrow> proto_error + (nat \<times> nat)" where
  "skip_step d i depth =
     (case decodeVarint d i 0 (0 :: uint64) of Inl e \<Rightarrow> Inl e
      | Inr (wire, i1) \<Rightarrow>
          (let wireType = unat (wire AND 7)
           in if wireType = 0 then
                (case skipVarint d i1 0 of Inl e \<Rightarrow> Inl e | Inr i2 \<Rightarrow> Inr (i2, depth))
              else if wireType = 1 then Inr (i1 + 8, depth)
              else if wireType = 2 then
                (case decodeVarint d i1 0 (0 :: int64) of Inl e \<Rightarrow> Inl e
                 | Inr (len, i2) \<Rightarrow>
                     if sint len < 0 then Inl ErrInvalidLength else Inr (i2 + unat len, depth))
              else if wireType = 3 then Inr (i1, Suc depth)
              else if wireType = 4 then
                (if depth = 0 then Inl ErrUnexpectedEndOfGroup else Inr (i1, depth - 1))
              else if wireType = 5 then Inr (i1 + 4, depth)
              else Inl (ErrIllegalWireType wireType)))"

lemma skip_step_progress: "skip_step d i depth = Inr (j, depth') \<Longrightarrow> i < j"
  by (auto simp: skip_step_def Let_def split: sum.splits if_splits
      dest!: decodeVarint_progress skipVarint_progress)

text \<open>\<^verbatim>\<open>skip\<close>: an index that overflowed the \<^verbatim>\<open>int\<close> range is negative in the code.\<close>

function skip_loop :: "bytes \<Rightarrow> nat \<Rightarrow> nat \<Rightarrow> proto_error + nat" where
  "skip_loop d i depth =
     (if i < length d then
        (case skip_step d i depth of Inl e \<Rightarrow> Inl e
         | Inr (j, depth') \<Rightarrow>
             if 2 ^ 63 \<le> j then Inl ErrInvalidLength
             else if depth' = 0 then Inr j
             else skip_loop d j depth')
      else Inl ErrUnexpectedEOF)"
  by pat_completeness auto
termination
  by (relation "measure (\<lambda>(d, i, depth). length d - i)") (auto dest!: skip_step_progress)

declare skip_loop.simps [simp del]

definition skip :: "bytes \<Rightarrow> proto_error + nat" where
  "skip d = skip_loop d 0 0"

lemma skip_loop_progress: "skip_loop d i depth = Inr j \<Longrightarrow> i < j"
proof (induction d i depth rule: skip_loop.induct)
  case (1 d i depth)
  show ?case
    using "1.prems" "1.IH"
    by (subst (asm) skip_loop.simps)
       (fastforce split: if_splits sum.splits dest: skip_step_progress)
qed

text \<open>
  The tag and the default branch of \<^verbatim>\<open>Unmarshal\<close>, the same in the three messages: a field whose number
  is not known is skipped, from the start of its tag.
\<close>

definition decodeTag :: "bytes \<Rightarrow> nat \<Rightarrow> proto_error + (int \<times> nat \<times> nat)" where
  "decodeTag d i =
     (case decodeVarint d i 0 (0 :: uint64) of Inl e \<Rightarrow> Inl e
      | Inr (wire, i1) \<Rightarrow>
          let fieldNum = sint (ucast (drop_bit 3 wire) :: 32 word); wireType = unat (wire AND 7)
          in if wireType = 4 then Inl ErrEndGroupForNonGroup
             else if fieldNum \<le> 0 then Inl (ErrIllegalTag fieldNum wire)
             else Inr (fieldNum, wireType, i1))"

definition skipUnknown :: "bytes \<Rightarrow> nat \<Rightarrow> proto_error + nat" where
  "skipUnknown d preIndex =
     (case skip (drop preIndex d) of Inl e \<Rightarrow> Inl e
      | Inr skippy \<Rightarrow>
          if 2 ^ 63 \<le> preIndex + skippy then Inl ErrInvalidLength
          else if length d < preIndex + skippy then Inl ErrUnexpectedEOF
          else Inr (preIndex + skippy))"

lemma decodeTag_progress: "decodeTag d i = Inr (f, w, j) \<Longrightarrow> i < j \<and> j \<le> length d"
  by (auto simp: decodeTag_def Let_def split: sum.splits if_splits dest!: decodeVarint_progress)

lemma decodeBytes_progress: "decodeBytes d i = Inr (v, j) \<Longrightarrow> i < j \<and> j \<le> length d"
  by (auto simp: decodeBytes_def Let_def split: sum.splits if_splits dest!: decodeVarint_progress)

lemma skipUnknown_progress: "skipUnknown d i = Inr j \<Longrightarrow> i < j \<and> j \<le> length d"
  by (auto simp: skipUnknown_def skip_def split: sum.splits if_splits dest!: skip_loop_progress)

lemmas wire_progress =
  decodeTag_progress decodeVarint_progress decodeBytes_progress skipUnknown_progress

section \<open>The reference encoding of varints\<close>

function enc_nat :: "nat \<Rightarrow> bytes" where
  "enc_nat n = (if n < 128 then [of_nat n] else of_nat (n mod 128 + 128) # enc_nat (n div 128))"
  by pat_completeness auto
termination
  by (relation "measure id") auto

declare enc_nat.simps [simp del]

lemma enc_nat_not_Nil [simp]: "enc_nat n \<noteq> []"
  by (subst enc_nat.simps) simp

lemma bit_len_rec: "0 < n \<Longrightarrow> bit_len n = Suc (bit_len (n div 2))"
  by (simp add: bit_len.simps [of n])

lemma bit_len_128:
  assumes "128 \<le> n"
  shows "bit_len n = 7 + bit_len (n div 128)"
proof -
  have "bit_len n = 7 + bit_len (n div 2 div 2 div 2 div 2 div 2 div 2 div 2)"
    using assms by (simp add: bit_len_rec)
  then show ?thesis by (simp flip: div_mult2_eq)
qed

lemma bit_len_small: "0 < n \<Longrightarrow> n < 128 \<Longrightarrow> 1 \<le> bit_len n \<and> bit_len n \<le> 7"
proof -
  have *: "bit_len m \<le> k" if "m < 2 ^ k" for m k
    using that
  proof (induction k arbitrary: m)
    case 0
    then show ?case by (simp add: bit_len.simps)
  next
    case (Suc k)
    then show ?case by (subst bit_len.simps) (auto simp: less_mult_imp_div_less)
  qed
  assume "0 < n" "n < 128"
  then show ?thesis using * [of n 7] by (simp add: bit_len_rec)
qed

lemma length_enc_nat: "0 < n \<Longrightarrow> length (enc_nat n) = (bit_len n + 6) div 7"
proof (induction n rule: enc_nat.induct)
  case (1 n)
  show ?case
  proof (cases "n < 128")
    case True
    with "1.prems" bit_len_small [of n] show ?thesis
      by (subst enc_nat.simps) (auto intro!: div_nat_eqI [symmetric])
  next
    case False
    then have "0 < n div 128" by simp
    with False "1.IH" show ?thesis
      by (subst enc_nat.simps) (simp add: bit_len_128)
  qed
qed

lemma unat_or_1: "unat (x OR 1 :: uint64) = (if even (unat x) then unat x + 1 else unat x)"
proof -
  have "unat (x OR 1) = unat x OR 1" by (simp only: unsigned_or_eq unsigned_1)
  also have "\<dots> = unat x + of_bool (even (unat x))" by (rule or_one_eq)
  finally show ?thesis by simp
qed

lemma length_enc_sov: "length (enc_nat (unat v)) = sov v"
proof (cases "unat v = 0")
  case True
  then have "v = 0" by (simp add: unat_eq_zero)
  then show ?thesis by (simp add: sov_def bits_Len64_def bit_len.simps enc_nat.simps)
next
  case False
  have "bit_len (unat (v OR 1)) = bit_len (unat v)"
    using False by (auto simp: unat_or_1 bit_len_rec elim!: evenE)
  with False show ?thesis
    by (simp add: sov_def bits_Len64_def length_enc_nat)
qed

section \<open>Writing computes the reference encoding\<close>

lemma bit_128_iff: "bit (128 :: nat) k \<longleftrightarrow> k = 7"
  using bit_exp_iff [of 7 k, where 'a = nat] by (auto simp: possible_bit_def)

lemma nat_and_127: "(n :: nat) AND 127 = n mod 128"
  using take_bit_eq_mask [of 7 n] by (simp add: take_bit_eq_mod mask_eq_exp_minus_1)

lemma nat_and_7: "(n :: nat) AND 7 = n mod 8"
  using take_bit_eq_mask [of 3 n] by (simp add: take_bit_eq_mod mask_eq_exp_minus_1)

lemma nat_or_128: "(m :: nat) < 128 \<Longrightarrow> m OR 128 = m + 128"
proof -
  assume "m < 128"
  then have "\<not> bit m 7" by (simp add: bit_iff_odd)
  then have "m AND 128 = 0" by (intro bit_eqI) (auto simp: bit_and_iff bit_128_iff)
  then show ?thesis by (simp add: disjunctive_add_eq_or)
qed

lemma varint_byte: "(ucast (v AND 127 OR 128 :: uint64) :: byte) = of_nat (unat v mod 128 + 128)"
proof -
  have "unat (v AND 127 OR 128) = unat v mod 128 + 128"
    by (simp add: unsigned_or_eq unsigned_and_eq nat_and_127 nat_or_128)
  then show ?thesis by (metis of_nat_unat)
qed

lemma unat_drop_7: "unat (drop_bit 7 v :: uint64) = unat v div 128"
  by (simp add: unat_drop_bit_eq drop_bit_eq_div unat_div)

lemma varint_loop_enc:
  "offset + length (enc_nat (unat v)) \<le> length d \<Longrightarrow>
     varint_loop d offset v =
       Some (take offset d @ enc_nat (unat v) @ drop (offset + length (enc_nat (unat v))) d)"
proof (induction d offset v rule: varint_loop.induct)
  case (1 d offset v)
  show ?case
  proof (cases "128 \<le> v")
    case True
    then have v: "\<not> unat v < 128" by (simp add: word_le_nat_alt)
    let ?b = "of_nat (unat v mod 128 + 128) :: byte"
    have enc: "enc_nat (unat v) = ?b # enc_nat (unat (drop_bit 7 v))"
      using v by (subst enc_nat.simps) (simp add: unat_drop_7)
    have off: "offset < length d" using "1.prems" enc by simp
    have "varint_loop (d[offset := ?b]) (Suc offset) (drop_bit 7 v) =
        Some (take (Suc offset) (d[offset := ?b]) @ enc_nat (unat (drop_bit 7 v)) @
          drop (Suc offset + length (enc_nat (unat (drop_bit 7 v)))) (d[offset := ?b]))"
      using "1.IH" [OF True, of "d[offset := ?b]"] "1.prems" off enc
      by (simp add: buf_write_def varint_byte)
    then show ?thesis using True off enc
      by (subst varint_loop.simps)
         (simp add: buf_write_def varint_byte take_Suc_conv_app_nth drop_update_cancel)
  next
    case False
    then have v: "unat v < 128" by (simp add: word_le_nat_alt)
    then have enc: "enc_nat (unat v) = [ucast v]"
      by (subst enc_nat.simps) simp
    have off: "offset < length d" using "1.prems" enc by simp
    with False enc show ?thesis
      by (subst varint_loop.simps) (simp add: buf_write_def upd_conv_take_nth_drop)
  qed
qed

text \<open>
  The state of a marshalling run: \<open>r\<close> bytes of the zeroed buffer are left in front of what has been
  written.
\<close>

definition buf_state :: "nat \<Rightarrow> bytes \<Rightarrow> bytes \<times> nat" where
  "buf_state r out = (replicate r 0 @ out, r)"

lemma put_byte_buf: "1 \<le> r \<Longrightarrow> put_byte (buf_state r out) b = Some (buf_state (r - 1) (b # out))"
  by (cases r) (auto simp: put_byte_def buf_state_def buf_write_def replicate_app_Cons_same
      upd_conv_take_nth_drop simp flip: replicate_Suc simp del: replicate_Suc)

lemma put_copy_buf:
  "length bs \<le> r \<Longrightarrow> put_copy (buf_state r out) bs = Some (buf_state (r - length bs) (bs @ out))"
  by (simp add: put_copy_def buf_state_def Let_def)

lemma put_varint_buf:
  "sov v \<le> r \<Longrightarrow>
     put_varint (buf_state r out) v = Some (buf_state (r - sov v) (enc_nat (unat v) @ out))"
  by (simp add: put_varint_def buf_state_def encodeVarint_def varint_loop_enc length_enc_sov)

section \<open>Reading inverts the reference encoding\<close>

lemma ucast_and_127: "(ucast (b AND 127 :: byte) :: 'w::len word) = of_nat (unat b mod 128)"
proof -
  have "unat (b AND 127) = unat b mod 128"
    by (simp add: unsigned_and_eq nat_and_127)
  then show ?thesis by (metis of_nat_unat)
qed

lemma word_of_nat_split_7:
  "(of_nat n :: 'w::len word) = of_nat (n mod 128) OR push_bit 7 (of_nat (n div 128))"
proof (rule bit_word_eqI)
  fix k
  assume "k < LENGTH('w)"
  moreover have "n mod 128 = take_bit 7 n" "n div 128 = drop_bit 7 n"
    by (simp_all add: take_bit_eq_mod drop_bit_eq_div)
  ultimately show "bit (of_nat n :: 'w word) k \<longleftrightarrow>
      bit (of_nat (n mod 128) OR push_bit 7 (of_nat (n div 128)) :: 'w word) k"
    by (cases "k < 7") (auto simp: bit_simps)
qed

lemma decodeVarint_enc:
  assumes "drop i d = enc_nat n @ rest" and "shift < 64" and "n < 2 ^ (64 - shift)"
  shows "decodeVarint d i shift (acc :: 'w::len word) =
    Inr (acc OR push_bit shift (of_nat n), i + length (enc_nat n))"
  using assms
proof (induction n arbitrary: i shift acc rule: enc_nat.induct)
  case (1 n)
  show ?case
  proof (cases "n < 128")
    case True
    then have enc: "enc_nat n = [of_nat n]" by (simp add: enc_nat.simps)
    with "1.prems"(1) have "i < length d" "d ! i = of_nat n"
      by (auto dest: drop_eq_ConsD)
    moreover have "unat (of_nat n :: byte) = n" using True by (simp add: unat_of_nat)
    ultimately show ?thesis using True "1.prems"(2) enc
      by (simp add: decodeVarint.simps [of d i] Let_def ucast_and_127 word_less_nat_alt)
  next
    case False
    let ?b = "of_nat (n mod 128 + 128) :: byte"
    have enc: "enc_nat n = ?b # enc_nat (n div 128)"
      using False by (subst enc_nat.simps) simp
    with "1.prems"(1) have i: "i < length d" "d ! i = ?b"
      and rest: "drop (Suc i) d = enc_nat (n div 128) @ rest"
      by (auto dest: drop_eq_ConsD)
    have "2 ^ 7 < (2 :: nat) ^ (64 - shift)" using False "1.prems"(3) by simp
    then have shift: "shift + 7 < 64" using power_strict_increasing_iff [of "2 :: nat" 7 "64 - shift"] by simp
    have "(2 :: nat) ^ (64 - shift) = 2 ^ (64 - (shift + 7)) * 128"
      using shift power_add [of "2 :: nat" "64 - (shift + 7)" 7] by simp
    then have lt: "n div 128 < 2 ^ (64 - (shift + 7))"
      using "1.prems"(3) by (simp add: less_mult_imp_div_less)
    have b: "unat ?b = n mod 128 + 128" by (subst unat_of_nat) simp
    then have "\<not> ?b < 128" by (simp add: word_less_nat_alt)
    moreover have "(acc OR push_bit shift (of_nat (n mod 128))) OR push_bit (shift + 7) (of_nat (n div 128)) =
        (acc OR push_bit shift (of_nat n) :: 'w word)"
      by (subst word_of_nat_split_7 [of n])
         (simp add: push_bit_or or.assoc push_bit_push_bit add.commute)
    ultimately show ?thesis
      using "1.IH" [OF False rest shift lt, of "acc OR push_bit shift (of_nat (n mod 128))"] i b enc shift
      by (simp add: decodeVarint.simps [of d i] Let_def ucast_and_127)
  qed
qed

lemma decodeVarint_enc_0:
  assumes "drop i d = enc_nat n @ rest" and "n < 2 ^ 64"
  shows "decodeVarint d i 0 (0 :: 'w::len word) = Inr (of_nat n, i + length (enc_nat n))"
  using decodeVarint_enc [of i d n rest 0 "0 :: 'w word"] assms by simp

lemma sint_of_nat_nonneg: "n < 2 ^ 63 \<Longrightarrow> 0 \<le> sint (of_nat n :: int64)"
  by (simp add: sint_uint signed_take_bit_eq_if_positive bit_iff_odd uint_nat unat_of_nat)

lemma decodeBytes_enc:
  assumes "drop i d = enc_nat (length bs) @ bs @ rest" and "length d < 2 ^ 63"
  shows "decodeBytes d i = Inr (bs, i + length (enc_nat (length bs)) + length bs)"
proof -
  let ?j = "i + length (enc_nat (length bs))"
  have dj: "drop ?j d = bs @ rest" using drop_appendD [OF assms(1)] .
  then have "length bs \<le> length d - ?j"
    by (metis le_add1 length_append length_drop)
  moreover have "?j < length d \<or> bs = []"
    using dj by (metis append_is_Nil_conv drop_all not_le)
  ultimately have le: "?j + length bs \<le> length d \<or> bs = []" by auto
  have i: "i < length d"
    using assms(1) enc_nat_not_Nil [of "length bs"] by (metis append_is_Nil_conv drop_all not_le)
  have "length (enc_nat (length bs)) \<le> length d - i"
    using assms(1) by (metis le_add1 length_append length_drop)
  then have "?j + length bs \<le> length d" using i le by auto
  then show ?thesis
    using decodeVarint_enc_0 [OF assms(1), where 'w = 64] assms(2) dj
    by (simp add: decodeBytes_def Let_def unat_of_nat not_less sint_of_nat_nonneg)
qed

lemma decodeTag_byte:
  assumes "drop i d = b # rest" and "unat b < 128" and "unat b mod 8 \<noteq> 4" and "8 \<le> unat b"
  shows "decodeTag d i = Inr (int (unat b div 8), unat b mod 8, Suc i)"
proof -
  have "enc_nat (unat b) = [b]" using assms(2) by (subst enc_nat.simps) simp
  then have dec: "decodeVarint d i 0 (0 :: uint64) = Inr (of_nat (unat b), Suc i)"
    using decodeVarint_enc_0 [of i d "unat b" rest, where 'w = 64] assms(1,2) by simp
  let ?w = "of_nat (unat b) :: uint64"
  have w: "unat ?w = unat b" using assms(2) by (subst unat_of_nat) simp
  have wt: "unat (?w AND 7) = unat b mod 8"
    using w by (simp add: unsigned_and_eq nat_and_7)
  have "unat (drop_bit 3 ?w) = unat b div 8" using w by (simp add: drop_bit_eq_div unat_div)
  then have "(ucast (drop_bit 3 ?w) :: 32 word) = of_nat (unat b div 8)" by (metis of_nat_unat)
  moreover have "sint (of_nat (unat b div 8) :: 32 word) = int (unat b div 8)"
    using assms(2) by (simp add: sint_uint signed_take_bit_eq_if_positive bit_iff_odd uint_nat unat_of_nat
        take_bit_int_eq_self_iff)
  ultimately have f: "sint (ucast (drop_bit 3 ?w) :: 32 word) = int (unat b div 8)" by simp
  show ?thesis using assms(3,4) unfolding decodeTag_def dec
    by (simp add: Let_def wt f del: of_nat_unat)
qed

section \<open>Fields\<close>

text \<open>The reference encoding of an optional field: nothing for the zero value.\<close>

definition enc_varint_field :: "byte \<Rightarrow> uint64 \<Rightarrow> bytes" where
  "enc_varint_field tag v = (if v = 0 then [] else tag # enc_nat (unat v))"

definition enc_bytes_field :: "byte \<Rightarrow> bytes \<Rightarrow> bytes" where
  "enc_bytes_field tag bs = (if bs = [] then [] else tag # enc_nat (length bs) @ bs)"

text \<open>A length that a Go \<^verbatim>\<open>int\<close> can hold; the length of every slice in memory is one.\<close>

definition fits_int :: "nat \<Rightarrow> bool" where
  "fits_int n \<longleftrightarrow> n < 2 ^ 63"

lemma fits_int_mono: "fits_int n \<Longrightarrow> m \<le> n \<Longrightarrow> fits_int m"
  by (simp add: fits_int_def)

lemma fits_int_add: "fits_int (m + n) \<Longrightarrow> fits_int m \<and> fits_int n"
  by (simp add: fits_int_def)

text \<open>The two shapes of a field in \<^verbatim>\<open>MarshalToSizedBuffer\<close>, written from its end to its tag.\<close>

definition put_varint_field :: "byte \<Rightarrow> uint64 \<Rightarrow> bytes \<times> nat \<Rightarrow> (bytes \<times> nat) option" where
  "put_varint_field tag v s =
     (if v \<noteq> 0 then do { s1 \<leftarrow> put_varint s v; put_byte s1 tag } else Some s)"

definition put_bytes_field :: "byte \<Rightarrow> bytes \<Rightarrow> bytes \<times> nat \<Rightarrow> (bytes \<times> nat) option" where
  "put_bytes_field tag bs s =
     (if 0 < length bs then do {
        s1 \<leftarrow> put_copy s bs;
        s2 \<leftarrow> put_varint s1 (of_nat (length bs));
        put_byte s2 tag
      } else Some s)"

text \<open>Their share of \<^verbatim>\<open>Size\<close>.\<close>

definition varint_field_size :: "uint64 \<Rightarrow> nat" where
  "varint_field_size v = (if v \<noteq> 0 then 1 + sov v else 0)"

definition bytes_field_size :: "nat \<Rightarrow> nat" where
  "bytes_field_size l = (if 0 < l then 1 + l + sov (of_nat l) else 0)"

text \<open>The two shapes of a case of \<^verbatim>\<open>Unmarshal\<close>: check the wire type, read, store.\<close>

definition get_varint_field ::
    "nat \<Rightarrow> string \<Rightarrow> bytes \<Rightarrow> nat \<Rightarrow> ('w::len word \<Rightarrow> 'm) \<Rightarrow> proto_error + ('m \<times> nat)" where
  "get_varint_field wireType name d i store =
     (if wireType \<noteq> 0 then Inl (ErrWrongWireType wireType name)
      else case decodeVarint d i 0 0 of Inl e \<Rightarrow> Inl e | Inr (v, j) \<Rightarrow> Inr (store v, j))"

definition get_bytes_field ::
    "nat \<Rightarrow> string \<Rightarrow> bytes \<Rightarrow> nat \<Rightarrow> (bytes \<Rightarrow> 'm) \<Rightarrow> proto_error + ('m \<times> nat)" where
  "get_bytes_field wireType name d i store =
     (if wireType \<noteq> 2 then Inl (ErrWrongWireType wireType name)
      else case decodeBytes d i of Inl e \<Rightarrow> Inl e | Inr (v, j) \<Rightarrow> Inr (store v, j))"

definition get_unknown_field :: "bytes \<Rightarrow> nat \<Rightarrow> 'm \<Rightarrow> proto_error + ('m \<times> nat)" where
  "get_unknown_field d preIndex m =
     (case skipUnknown d preIndex of Inl e \<Rightarrow> Inl e | Inr j \<Rightarrow> Inr (m, j))"

lemma get_field_progress:
  "get_varint_field w nm d i st = Inr (m, j) \<Longrightarrow> i < j \<and> j \<le> length d"
  "get_bytes_field w nm d i sb = Inr (m, j) \<Longrightarrow> i < j \<and> j \<le> length d"
  "get_unknown_field d i m0 = Inr (m, j) \<Longrightarrow> i < j \<and> j \<le> length d"
  by (auto simp: get_varint_field_def get_bytes_field_def get_unknown_field_def
      split: if_splits sum.splits dest!: wire_progress)

lemma ucast_ucast_uint32: "(ucast (ucast x :: uint64) :: uint32) = x"
  by (rule bit_word_eqI) (simp add: bit_simps)

lemma ucast_scast_int32: "(ucast (scast x :: uint64) :: 32 word) = x"
proof (rule bit_word_eqI)
  fix n
  assume n: "n < LENGTH(32)"
  show "bit (ucast (scast x :: uint64) :: 32 word) n \<longleftrightarrow> bit x n"
    using n by (cases "n = 31") (auto simp: bit_simps min_def)
qed

lemma unat_of_length: "fits_int l \<Longrightarrow> unat (of_nat l :: uint64) = l"
  by (simp add: fits_int_def unat_of_nat)

lemma length_enc_varint_field [simp]: "length (enc_varint_field tag v) = varint_field_size v"
  by (simp add: enc_varint_field_def varint_field_size_def length_enc_sov)

lemma length_enc_bytes_field:
  "fits_int (length bs) \<Longrightarrow> length (enc_bytes_field tag bs) = bytes_field_size (length bs)"
  by (simp add: enc_bytes_field_def bytes_field_size_def unat_of_length flip: length_enc_sov)

lemma put_varint_field_buf:
  "varint_field_size v \<le> r \<Longrightarrow> put_varint_field tag v (buf_state r out) =
     Some (buf_state (r - varint_field_size v) (enc_varint_field tag v @ out))"
  by (auto simp: put_varint_field_def varint_field_size_def enc_varint_field_def
      put_varint_buf put_byte_buf)

lemma put_bytes_field_buf:
  assumes "fits_int (length bs)" and "bytes_field_size (length bs) \<le> r"
  shows "put_bytes_field tag bs (buf_state r out) =
    Some (buf_state (r - bytes_field_size (length bs)) (enc_bytes_field tag bs @ out))"
  using assms
  by (auto simp: put_bytes_field_def bytes_field_size_def enc_bytes_field_def
      put_copy_buf put_varint_buf put_byte_buf unat_of_length)

lemma get_varint_field_enc:
  fixes store :: "'w::len word \<Rightarrow> 'm"
  assumes "drop i d = enc_nat (unat (v :: uint64)) @ rest"
  shows "get_varint_field 0 nm d i store = Inr (store (ucast v), i + length (enc_nat (unat v)))"
  using decodeVarint_enc_0 [OF assms, where 'w = 'w]
  by (simp add: get_varint_field_def unsigned_less [where 'b = 64, simplified])

lemma get_bytes_field_enc:
  assumes "drop i d = enc_nat (length bs) @ bs @ rest" and "fits_int (length d)"
  shows "get_bytes_field 2 nm d i store =
    Inr (store bs, i + length (enc_nat (length bs)) + length bs)"
  using decodeBytes_enc [OF assms(1)] assms(2) by (simp add: get_bytes_field_def fits_int_def)

lemma enc_bytes_field_fits: "fits_int (length (enc_bytes_field tag bs)) \<Longrightarrow> fits_int (length bs)"
  by (erule fits_int_mono) (simp add: enc_bytes_field_def)

section \<open>The decoding loop of a message\<close>

text \<open>
  What the three \<^verbatim>\<open>Unmarshal\<close> methods have in common: \<open>field\<close> is one turn of their loop, \<open>loop\<close> the loop
  from an index. The lemmas on how a loop runs over an encoded field are proved once here.
\<close>

locale proto_message =
  fixes field :: "bytes \<Rightarrow> nat \<Rightarrow> 'm \<Rightarrow> proto_error + ('m \<times> nat)"
    and loop :: "bytes \<Rightarrow> nat \<Rightarrow> 'm \<Rightarrow> proto_error + 'm"
  assumes field_progress: "field d i m = Inr (m', j) \<Longrightarrow> i < j \<and> j \<le> length d"
    and loop_end: "loop d (length d) m = Inr m"
    and loop_step: "i < length d \<Longrightarrow> field d i m = Inr (m', j) \<Longrightarrow> loop d i m = loop d j m'"
    and loop_error: "i < length d \<Longrightarrow> field d i m = Inl e \<Longrightarrow> loop d i m = Inl e"
begin

lemma loop_varint:
  fixes store :: "'w::len word \<Rightarrow> 'm"
  assumes d: "drop i d = enc_varint_field tag v @ rest"
    and f: "\<And>r. drop i d = tag # r \<Longrightarrow> field d i m = get_varint_field 0 nm d (Suc i) store"
    and z: "v = 0 \<Longrightarrow> store 0 = m"
  shows "loop d i m = loop d (i + length (enc_varint_field tag v)) (store (ucast v))"
proof (cases "v = 0")
  case False
  then have dt: "drop i d = tag # enc_nat (unat v) @ rest"
    using d by (simp add: enc_varint_field_def)
  then have i: "i < length d" "drop (Suc i) d = enc_nat (unat v) @ rest"
    by (auto dest: drop_eq_ConsD)
  have "field d i m = Inr (store (ucast v), i + length (enc_varint_field tag v))"
    using f [OF dt] get_varint_field_enc [OF i(2), of nm store] False
    by (simp add: varint_field_size_def length_enc_sov)
  with i(1) show ?thesis by (rule loop_step)
qed (use z in \<open>simp add: varint_field_size_def\<close>)

lemma loop_bytes:
  assumes d: "drop i d = enc_bytes_field tag bs @ rest" and fits: "fits_int (length d)"
    and f: "\<And>r. drop i d = tag # r \<Longrightarrow> field d i m = get_bytes_field 2 nm d (Suc i) store"
    and z: "bs = [] \<Longrightarrow> store [] = m"
  shows "loop d i m = loop d (i + length (enc_bytes_field tag bs)) (store bs)"
proof (cases "bs = []")
  case False
  then have dt: "drop i d = tag # enc_nat (length bs) @ bs @ rest"
    using d by (simp add: enc_bytes_field_def)
  then have i: "i < length d" "drop (Suc i) d = enc_nat (length bs) @ bs @ rest"
    by (auto dest: drop_eq_ConsD)
  have "field d i m = Inr (store bs, i + length (enc_bytes_field tag bs))"
    using f [OF dt] get_bytes_field_enc [OF i(2) fits, of nm store] False
    by (simp add: enc_bytes_field_def)
  with i(1) show ?thesis by (rule loop_step)
qed (use z in \<open>simp add: enc_bytes_field_def\<close>)

end

text \<open>A length-delimited field with an unknown number is skipped as a whole.\<close>

lemma skip_bytes_field:
  assumes "unat tag < 128" and "unat tag mod 8 = 2" and "bs \<noteq> []"
    and fits: "fits_int (length (enc_bytes_field tag bs @ rest))"
  shows "skip (enc_bytes_field tag bs @ rest) = Inr (length (enc_bytes_field tag bs))"
proof -
  let ?d = "enc_bytes_field tag bs @ rest"
  have d: "?d = tag # enc_nat (length bs) @ bs @ rest" using assms(3) by (simp add: enc_bytes_field_def)
  have enc: "enc_nat (unat tag) = [tag]" using assms(1) by (subst enc_nat.simps) simp
  have n: "length bs < 2 ^ 63"
    using fits by (simp add: enc_bytes_field_def assms(3) fits_int_def)
  have t: "decodeVarint ?d 0 0 (0 :: uint64) = Inr (of_nat (unat tag), 1)"
    using decodeVarint_enc_0 [of 0 ?d "unat tag" "enc_nat (length bs) @ bs @ rest", where 'w = 64]
      enc d assms(1) by simp
  have "drop 1 ?d = enc_nat (length bs) @ bs @ rest" by (simp add: d)
  from decodeVarint_enc_0 [OF this, where 'w = 64]
  have l: "decodeVarint ?d 1 0 (0 :: int64) = Inr (of_nat (length bs), 1 + length (enc_nat (length bs)))"
    using n by simp
  have wt: "unat ((of_nat (unat tag) :: uint64) AND 7) = 2"
    using assms(1,2) by (simp add: unsigned_and_eq nat_and_7 unsigned_ucast_eq take_bit_nat_eq_self)
  have len: "length (enc_bytes_field tag bs) = Suc (length (enc_nat (length bs)) + length bs)"
    using assms(3) by (simp add: enc_bytes_field_def)
  have "skip_step ?d 0 0 = Inr (length (enc_bytes_field tag bs), 0)"
    unfolding skip_step_def t using l wt n
    by (simp add: Let_def unat_of_nat not_less sint_of_nat_nonneg len del: of_nat_unat)
  then show ?thesis using fits len
    unfolding skip_def by (subst skip_loop.simps) (simp add: fits_int_def)
qed

end
