(* ===== verification/Topic_Message.thy ===== *)
theory Topic_Message
  imports Proto_Wire
begin

text \<open>
  \<^verbatim>\<open>p2p/data/topicMessage.pb.go\<close>: the envelope of every p2p message and its generated codec, and
  \<^verbatim>\<open>p2p/message/peerShardMessage.pb.go\<close>, the peer shard message. For both: the in-place backward
  marshalling writes the reference encoding and never out of range, and unmarshalling inverts it.
\<close>

section \<open>TopicMessage\<close>

record TopicMessage =
  tm_Version :: uint32
  tm_Payload :: bytes
  tm_Timestamp :: int64
  tm_Pk :: bytes
  tm_SignatureOnPid :: bytes

definition TopicMessage_zero :: TopicMessage where
  "TopicMessage_zero =
     \<lparr>tm_Version = 0, tm_Payload = [], tm_Timestamp = 0, tm_Pk = [], tm_SignatureOnPid = []\<rparr>"

definition TopicMessage_Size :: "TopicMessage \<Rightarrow> nat" where
  "TopicMessage_Size m =
     varint_field_size (ucast (tm_Version m)) + bytes_field_size (length (tm_Payload m)) +
     varint_field_size (tm_Timestamp m) + bytes_field_size (length (tm_Pk m)) +
     bytes_field_size (length (tm_SignatureOnPid m))"

definition TopicMessage_MarshalToSizedBuffer :: "TopicMessage \<Rightarrow> bytes \<Rightarrow> (bytes \<times> nat) option" where
  "TopicMessage_MarshalToSizedBuffer m dAtA = do {
     s5 \<leftarrow> put_bytes_field 0x2a (tm_SignatureOnPid m) (dAtA, length dAtA);
     s4 \<leftarrow> put_bytes_field 0x22 (tm_Pk m) s5;
     s3 \<leftarrow> put_varint_field 0x18 (tm_Timestamp m) s4;
     s2 \<leftarrow> put_bytes_field 0x12 (tm_Payload m) s3;
     s1 \<leftarrow> put_varint_field 0x8 (ucast (tm_Version m)) s2;
     Some (fst s1, length dAtA - snd s1)
   }"

definition TopicMessage_Marshal :: "TopicMessage \<Rightarrow> bytes option" where
  "TopicMessage_Marshal m = do {
     (dAtA, n) \<leftarrow> TopicMessage_MarshalToSizedBuffer m (replicate (TopicMessage_Size m) 0);
     Some (take n dAtA)
   }"

text \<open>One turn of the loop of \<^verbatim>\<open>Unmarshal\<close>.\<close>

definition TopicMessage_field ::
    "bytes \<Rightarrow> nat \<Rightarrow> TopicMessage \<Rightarrow> proto_error + (TopicMessage \<times> nat)" where
  "TopicMessage_field d i m =
     (case decodeTag d i of Inl e \<Rightarrow> Inl e
      | Inr (fieldNum, wireType, j) \<Rightarrow>
          if fieldNum = 1 then
            get_varint_field wireType ''Version'' d j (\<lambda>v. m\<lparr>tm_Version := v\<rparr>)
          else if fieldNum = 2 then
            get_bytes_field wireType ''Payload'' d j (\<lambda>v. m\<lparr>tm_Payload := v\<rparr>)
          else if fieldNum = 3 then
            get_varint_field wireType ''Timestamp'' d j (\<lambda>v. m\<lparr>tm_Timestamp := v\<rparr>)
          else if fieldNum = 4 then
            get_bytes_field wireType ''Pk'' d j (\<lambda>v. m\<lparr>tm_Pk := v\<rparr>)
          else if fieldNum = 5 then
            get_bytes_field wireType ''SignatureOnPid'' d j (\<lambda>v. m\<lparr>tm_SignatureOnPid := v\<rparr>)
          else get_unknown_field d i m)"

lemma TopicMessage_field_progress:
  "TopicMessage_field d i m = Inr (m', j) \<Longrightarrow> i < j \<and> j \<le> length d"
  by (auto simp: TopicMessage_field_def split: sum.splits if_splits
      dest!: get_field_progress decodeTag_progress)

function TopicMessage_loop ::
    "bytes \<Rightarrow> nat \<Rightarrow> TopicMessage \<Rightarrow> proto_error + TopicMessage" where
  "TopicMessage_loop d i m =
     (if i < length d then
        (case TopicMessage_field d i m of Inl e \<Rightarrow> Inl e | Inr (m', j) \<Rightarrow> TopicMessage_loop d j m')
      else if length d < i then Inl ErrUnexpectedEOF
      else Inr m)"
  by pat_completeness auto
termination
  by (relation "measure (\<lambda>(d, i, m). length d - i)") (auto dest!: TopicMessage_field_progress)

declare TopicMessage_loop.simps [simp del]

definition TopicMessage_Unmarshal :: "bytes \<Rightarrow> TopicMessage \<Rightarrow> proto_error + TopicMessage" where
  "TopicMessage_Unmarshal d m = TopicMessage_loop d 0 m"

subsection \<open>Marshalling\<close>

text \<open>The reference encoding: the fields in the order of their numbers.\<close>

definition TopicMessage_enc :: "TopicMessage \<Rightarrow> bytes" where
  "TopicMessage_enc m =
     enc_varint_field 0x8 (ucast (tm_Version m)) @ enc_bytes_field 0x12 (tm_Payload m) @
     enc_varint_field 0x18 (tm_Timestamp m) @ enc_bytes_field 0x22 (tm_Pk m) @
     enc_bytes_field 0x2a (tm_SignatureOnPid m)"

text \<open>A message whose encoding has a length that a Go \<^verbatim>\<open>int\<close> can hold; every value in memory has.\<close>

definition TopicMessage_sized :: "TopicMessage \<Rightarrow> bool" where
  "TopicMessage_sized m \<longleftrightarrow> fits_int (length (TopicMessage_enc m))"

lemma TopicMessage_sized_fields:
  assumes "TopicMessage_sized m"
  shows "fits_int (length (tm_Payload m))" "fits_int (length (tm_Pk m))"
    "fits_int (length (tm_SignatureOnPid m))"
  using assms unfolding TopicMessage_sized_def TopicMessage_enc_def
  by (auto dest!: fits_int_add enc_bytes_field_fits simp del: length_enc_varint_field)

lemma length_TopicMessage_enc:
  "TopicMessage_sized m \<Longrightarrow> length (TopicMessage_enc m) = TopicMessage_Size m"
  by (simp add: TopicMessage_sized_fields TopicMessage_enc_def TopicMessage_Size_def
      length_enc_bytes_field)

lemma TopicMessage_Marshal_enc:
  assumes "TopicMessage_sized m"
  shows "TopicMessage_Marshal m = Some (TopicMessage_enc m)"
proof -
  have start: "(replicate n 0, n) = buf_state n []" for n by (simp add: buf_state_def)
  show ?thesis
    using length_TopicMessage_enc [OF assms]
    by (simp add: TopicMessage_Marshal_def TopicMessage_MarshalToSizedBuffer_def start
        put_bytes_field_buf put_varint_field_buf TopicMessage_sized_fields [OF assms]
        TopicMessage_Size_def TopicMessage_enc_def)
       (simp add: buf_state_def)
qed

subsection \<open>Unmarshalling\<close>

interpretation topic_msg: proto_message TopicMessage_field TopicMessage_loop
  by unfold_locales
     (auto simp: TopicMessage_loop.simps dest: TopicMessage_field_progress)

lemma TopicMessage_field_cases:
  "drop i d = 0x8 # rest \<Longrightarrow> TopicMessage_field d i m =
     get_varint_field 0 ''Version'' d (Suc i) (\<lambda>v. m\<lparr>tm_Version := v\<rparr>)"
  "drop i d = 0x12 # rest \<Longrightarrow> TopicMessage_field d i m =
     get_bytes_field 2 ''Payload'' d (Suc i) (\<lambda>v. m\<lparr>tm_Payload := v\<rparr>)"
  "drop i d = 0x18 # rest \<Longrightarrow> TopicMessage_field d i m =
     get_varint_field 0 ''Timestamp'' d (Suc i) (\<lambda>v. m\<lparr>tm_Timestamp := v\<rparr>)"
  "drop i d = 0x22 # rest \<Longrightarrow> TopicMessage_field d i m =
     get_bytes_field 2 ''Pk'' d (Suc i) (\<lambda>v. m\<lparr>tm_Pk := v\<rparr>)"
  "drop i d = 0x2a # rest \<Longrightarrow> TopicMessage_field d i m =
     get_bytes_field 2 ''SignatureOnPid'' d (Suc i) (\<lambda>v. m\<lparr>tm_SignatureOnPid := v\<rparr>)"
  by (simp_all add: TopicMessage_field_def decodeTag_byte)

lemma TopicMessage_loop_enc:
  assumes "drop i d = TopicMessage_enc m @ rest" and fits: "fits_int (length d)"
  shows "TopicMessage_loop d i TopicMessage_zero =
    TopicMessage_loop d (i + length (TopicMessage_enc m)) m"
proof -
  let ?f1 = "enc_varint_field 0x8 (ucast (tm_Version m))"
  let ?f2 = "enc_bytes_field 0x12 (tm_Payload m)"
  let ?f3 = "enc_varint_field 0x18 (tm_Timestamp m)"
  let ?f4 = "enc_bytes_field 0x22 (tm_Pk m)"
  let ?f5 = "enc_bytes_field 0x2a (tm_SignatureOnPid m)"
  let ?m1 = "TopicMessage_zero\<lparr>tm_Version := ucast (ucast (tm_Version m) :: uint64)\<rparr>"
  let ?m2 = "?m1\<lparr>tm_Payload := tm_Payload m\<rparr>"
  let ?m3 = "?m2\<lparr>tm_Timestamp := ucast (tm_Timestamp m)\<rparr>"
  let ?m4 = "?m3\<lparr>tm_Pk := tm_Pk m\<rparr>"
  let ?m5 = "?m4\<lparr>tm_SignatureOnPid := tm_SignatureOnPid m\<rparr>"
  have d0: "drop i d = ?f1 @ ?f2 @ ?f3 @ ?f4 @ ?f5 @ rest"
    using assms(1) by (simp add: TopicMessage_enc_def)
  note d1 = drop_appendD [OF d0]
  note d2 = drop_appendD [OF d1]
  note d3 = drop_appendD [OF d2]
  note d4 = drop_appendD [OF d3]
  have "TopicMessage_loop d i TopicMessage_zero = TopicMessage_loop d (i + length ?f1) ?m1"
    by (rule topic_msg.loop_varint [OF d0, OF TopicMessage_field_cases(1)])
       (simp_all add: TopicMessage_zero_def)
  also have "\<dots> = TopicMessage_loop d (i + length ?f1 + length ?f2) ?m2"
    by (rule topic_msg.loop_bytes [OF d1 fits, OF TopicMessage_field_cases(2)])
       (simp_all add: TopicMessage_zero_def)
  also have "\<dots> = TopicMessage_loop d (i + length ?f1 + length ?f2 + length ?f3) ?m3"
    by (rule topic_msg.loop_varint [OF d2, OF TopicMessage_field_cases(3)])
       (simp_all add: TopicMessage_zero_def)
  also have "\<dots> = TopicMessage_loop d (i + length ?f1 + length ?f2 + length ?f3 + length ?f4) ?m4"
    by (rule topic_msg.loop_bytes [OF d3 fits, OF TopicMessage_field_cases(4)])
       (simp_all add: TopicMessage_zero_def)
  also have "\<dots> =
      TopicMessage_loop d (i + length ?f1 + length ?f2 + length ?f3 + length ?f4 + length ?f5) ?m5"
    by (rule topic_msg.loop_bytes [OF d4 fits, OF TopicMessage_field_cases(5)])
       (simp_all add: TopicMessage_zero_def)
  also have "?m5 = m" by (cases m) (simp add: TopicMessage_zero_def ucast_ucast_uint32)
  finally show ?thesis by (simp add: TopicMessage_enc_def add.assoc)
qed

text \<open>
  C16. For every topic message that fits in memory, \<^verbatim>\<open>Marshal\<close> (sizing, then writing the fields backwards
  in place) never indexes out of range and returns exactly the reference encoding of the message,
  whose length is what \<^verbatim>\<open>Size\<close> computes.
\<close>

theorem TopicMessage_Marshal_correct:
  assumes "TopicMessage_sized m"
  shows "TopicMessage_Marshal m = Some (TopicMessage_enc m) \<and>
    length (TopicMessage_enc m) = TopicMessage_Size m"
  using TopicMessage_Marshal_enc [OF assms] length_TopicMessage_enc [OF assms] by simp

definition topic_example :: TopicMessage where
  "topic_example = \<lparr>tm_Version = 1, tm_Payload = [104, 105], tm_Timestamp = 300, tm_Pk = [],
     tm_SignatureOnPid = [7]\<rparr>"

lemma topic_example_enc:
  "TopicMessage_enc topic_example = [8, 1, 18, 2, 104, 105, 24, 172, 2, 42, 1, 7]"
  by (simp add: topic_example_def TopicMessage_enc_def enc_varint_field_def enc_bytes_field_def
      enc_nat.simps)

lemma topic_example_sized: "TopicMessage_sized topic_example"
  by (simp add: TopicMessage_sized_def topic_example_enc fits_int_def)

theorem TopicMessage_Marshal_correct_witness:
  "TopicMessage_sized topic_example \<and>
   TopicMessage_Marshal topic_example = Some [8, 1, 18, 2, 104, 105, 24, 172, 2, 42, 1, 7]"
  using TopicMessage_Marshal_correct [OF topic_example_sized] topic_example_sized
  by (simp add: topic_example_enc)

text \<open>
  C15. Round trip of the envelope of every p2p message: unmarshalling what \<^verbatim>\<open>Marshal\<close> produced into a
  fresh message gives the message back, for all values of all five fields (the timestamp may be negative).
\<close>

theorem TopicMessage_roundtrip:
  assumes "TopicMessage_sized m"
  shows "\<exists>d. TopicMessage_Marshal m = Some d \<and> TopicMessage_Unmarshal d TopicMessage_zero = Inr m"
proof -
  have "fits_int (length (TopicMessage_enc m))"
    using assms by (simp add: TopicMessage_sized_def)
  then have "TopicMessage_loop (TopicMessage_enc m) 0 TopicMessage_zero =
      TopicMessage_loop (TopicMessage_enc m) (length (TopicMessage_enc m)) m"
    using TopicMessage_loop_enc [of 0 "TopicMessage_enc m" m "[]"] by simp
  then show ?thesis
    using assms by (simp add: TopicMessage_Unmarshal_def TopicMessage_Marshal_enc topic_msg.loop_end)
qed

theorem TopicMessage_roundtrip_witness:
  "TopicMessage_sized topic_example \<and>
   (\<exists>d. TopicMessage_Marshal topic_example = Some d \<and>
      TopicMessage_Unmarshal d TopicMessage_zero = Inr topic_example)"
  using TopicMessage_roundtrip [OF topic_example_sized] topic_example_sized by simp

text \<open>
  Forward compatibility: a length-delimited field with a number that the message does not have (6 to
  15 here, so that its tag is one byte), appended by a newer peer, is skipped and the known fields are read
  as before.
\<close>

theorem TopicMessage_unknown_field_ignored:
  assumes "unat tag < 128" and "unat tag mod 8 = 2" and "48 \<le> unat tag" and "bs \<noteq> []"
    and "fits_int (length (TopicMessage_enc m @ enc_bytes_field tag bs))"
  shows "TopicMessage_Unmarshal (TopicMessage_enc m @ enc_bytes_field tag bs) TopicMessage_zero = Inr m"
proof -
  let ?d = "TopicMessage_enc m @ enc_bytes_field tag bs" and ?i = "length (TopicMessage_enc m)"
  have u: "enc_bytes_field tag bs = tag # enc_nat (length bs) @ bs"
    using assms(4) by (simp add: enc_bytes_field_def)
  have "fits_int (length (enc_bytes_field tag bs))"
    using assms(5) by (auto dest: fits_int_add)
  then have "skip (drop ?i ?d) = Inr (length (enc_bytes_field tag bs))"
    using skip_bytes_field [of tag bs "[]"] assms(1,2,4) by simp
  then have "get_unknown_field ?d ?i m = Inr (m, length ?d)"
    using assms(5) by (simp add: get_unknown_field_def skipUnknown_def fits_int_def)
  moreover have "decodeTag ?d ?i = Inr (int (unat tag div 8), 2, Suc ?i)"
    using decodeTag_byte [of ?i ?d tag] assms(1-3) u by simp
  moreover have "6 \<le> unat tag div 8" using assms(3) by simp
  ultimately have "TopicMessage_field ?d ?i m = Inr (m, length ?d)"
    by (simp add: TopicMessage_field_def)
  moreover have "?i < length ?d" by (simp add: u)
  ultimately have "TopicMessage_loop ?d ?i m = TopicMessage_loop ?d (length ?d) m"
    by (intro topic_msg.loop_step)
  then have "TopicMessage_loop ?d ?i m = Inr m"
    using topic_msg.loop_end [of ?d m] by (rule trans)
  then show ?thesis
    using TopicMessage_loop_enc [of 0 ?d m "enc_bytes_field tag bs"] assms(5)
    by (simp add: TopicMessage_Unmarshal_def)
qed

theorem TopicMessage_unknown_field_ignored_witness:
  "TopicMessage_Unmarshal (TopicMessage_enc topic_example @ enc_bytes_field 58 [1, 2, 3]) TopicMessage_zero =
     Inr topic_example"
  by (rule TopicMessage_unknown_field_ignored)
     (simp_all add: topic_example_enc enc_bytes_field_def enc_nat.simps fits_int_def)

section \<open>PeerShard\<close>

record PeerShard =
  ps_ShardId :: string

definition PeerShard_Size :: "PeerShard \<Rightarrow> nat" where
  "PeerShard_Size m = bytes_field_size (length (ps_ShardId m))"

definition PeerShard_MarshalToSizedBuffer :: "PeerShard \<Rightarrow> bytes \<Rightarrow> (bytes \<times> nat) option" where
  "PeerShard_MarshalToSizedBuffer m dAtA = do {
     s1 \<leftarrow> put_bytes_field 0xa (bytes_of_string (ps_ShardId m)) (dAtA, length dAtA);
     Some (fst s1, length dAtA - snd s1)
   }"

definition PeerShard_Marshal :: "PeerShard \<Rightarrow> bytes option" where
  "PeerShard_Marshal m = do {
     (dAtA, n) \<leftarrow> PeerShard_MarshalToSizedBuffer m (replicate (PeerShard_Size m) 0);
     Some (take n dAtA)
   }"

definition PeerShard_field :: "bytes \<Rightarrow> nat \<Rightarrow> PeerShard \<Rightarrow> proto_error + (PeerShard \<times> nat)" where
  "PeerShard_field d i m =
     (case decodeTag d i of Inl e \<Rightarrow> Inl e
      | Inr (fieldNum, wireType, j) \<Rightarrow>
          if fieldNum = 1 then
            get_bytes_field wireType ''ShardId'' d j (\<lambda>v. m\<lparr>ps_ShardId := string_of_bytes v\<rparr>)
          else get_unknown_field d i m)"

lemma PeerShard_field_progress: "PeerShard_field d i m = Inr (m', j) \<Longrightarrow> i < j \<and> j \<le> length d"
  by (auto simp: PeerShard_field_def split: sum.splits if_splits
      dest!: get_field_progress decodeTag_progress)

function PeerShard_loop :: "bytes \<Rightarrow> nat \<Rightarrow> PeerShard \<Rightarrow> proto_error + PeerShard" where
  "PeerShard_loop d i m =
     (if i < length d then
        (case PeerShard_field d i m of Inl e \<Rightarrow> Inl e | Inr (m', j) \<Rightarrow> PeerShard_loop d j m')
      else if length d < i then Inl ErrUnexpectedEOF
      else Inr m)"
  by pat_completeness auto
termination
  by (relation "measure (\<lambda>(d, i, m). length d - i)") (auto dest!: PeerShard_field_progress)

declare PeerShard_loop.simps [simp del]

definition PeerShard_Unmarshal :: "bytes \<Rightarrow> PeerShard \<Rightarrow> proto_error + PeerShard" where
  "PeerShard_Unmarshal d m = PeerShard_loop d 0 m"

interpretation peer_shard: proto_message PeerShard_field PeerShard_loop
  by unfold_locales (auto simp: PeerShard_loop.simps dest: PeerShard_field_progress)

definition PeerShard_enc :: "PeerShard \<Rightarrow> bytes" where
  "PeerShard_enc m = enc_bytes_field 0xa (bytes_of_string (ps_ShardId m))"

lemma PeerShard_Marshal_enc:
  assumes "fits_int (length (PeerShard_enc m))"
  shows "PeerShard_Marshal m = Some (PeerShard_enc m)"
proof -
  have start: "(replicate n 0, n) = buf_state n []" for n by (simp add: buf_state_def)
  have "fits_int (length (bytes_of_string (ps_ShardId m)))"
    using assms by (auto simp: PeerShard_enc_def dest: enc_bytes_field_fits)
  then show ?thesis
    by (simp add: PeerShard_Marshal_def PeerShard_MarshalToSizedBuffer_def start put_bytes_field_buf
        PeerShard_Size_def PeerShard_enc_def)
       (simp add: buf_state_def length_enc_bytes_field)
qed

text \<open>Round trip of the peer shard message.\<close>

theorem PeerShard_roundtrip:
  assumes "fits_int (length (PeerShard_enc m))"
  shows "\<exists>d. PeerShard_Marshal m = Some d \<and> PeerShard_Unmarshal d \<lparr>ps_ShardId = []\<rparr> = Inr m"
proof -
  let ?d = "PeerShard_enc m"
  have d: "drop 0 ?d = enc_bytes_field 0xa (bytes_of_string (ps_ShardId m)) @ []"
    by (simp add: PeerShard_enc_def)
  have "PeerShard_loop ?d 0 \<lparr>ps_ShardId = []\<rparr> =
      PeerShard_loop ?d (0 + length (enc_bytes_field 0xa (bytes_of_string (ps_ShardId m))))
        (\<lparr>ps_ShardId = []\<rparr>\<lparr>ps_ShardId := string_of_bytes (bytes_of_string (ps_ShardId m))\<rparr>)"
    by (rule peer_shard.loop_bytes [OF d assms])
       (simp_all add: PeerShard_field_def decodeTag_byte string_of_bytes_def)
  moreover have "\<lparr>ps_ShardId = ps_ShardId m\<rparr> = m" by (cases m) simp
  ultimately show ?thesis
    using peer_shard.loop_end [of ?d m] PeerShard_Marshal_enc [OF assms]
    by (simp add: PeerShard_Unmarshal_def PeerShard_enc_def)
qed

theorem PeerShard_roundtrip_witness:
  "fits_int (length (PeerShard_enc \<lparr>ps_ShardId = ''1''\<rparr>)) \<and>
   (\<exists>d. PeerShard_Marshal \<lparr>ps_ShardId = ''1''\<rparr> = Some d \<and>
      PeerShard_Unmarshal d \<lparr>ps_ShardId = []\<rparr> = Inr \<lparr>ps_ShardId = ''1''\<rparr>)"
proof -
  have h: "fits_int (length (PeerShard_enc \<lparr>ps_ShardId = ''1''\<rparr>))"
    by (simp add: PeerShard_enc_def enc_bytes_field_def enc_nat.simps fits_int_def)
  show ?thesis using h PeerShard_roundtrip [OF h] by simp
qed

end
