(* ===== verification/Peers_Rating.thy ===== *)
theory Peers_Rating
  imports Prelude
begin

text \<open>
  \<^verbatim>\<open>p2p/rating/peersRatingHandler.go\<close> and \<^verbatim>\<open>p2p/rating/peersRatingMonitor.go\<close>: the ratings of the peers,
  kept in two caches, the top rated and the bad rated tier.

  The caches are values of the storage package's \<^verbatim>\<open>types.Cacher\<close> interface, which is not part of the
  repository: its methods are an argument of the definitions, the record \<open>cacher_ops\<close>, and the locale
  \<open>cacher\<close> states what the handler relies on. The laws allow a cache of bounded size that evicts
  other keys in \<^verbatim>\<open>Put\<close> and keeps track of the recency in \<^verbatim>\<open>Get\<close>. The interpretation is the map of
  \<^verbatim>\<open>p2p/mock/cacherMock.go\<close>.
\<close>

section \<open>The cache interface\<close>

text \<open>A cached \<^verbatim>\<open>interface{}\<close>: an \<^verbatim>\<open>int32\<close>, or a value of another type with its \<^verbatim>\<open>%d\<close> text.\<close>

datatype cache_val = VInt32 int | VOther string

record 'c cacher_ops =
  c_Peek :: "'c \<Rightarrow> peer_id \<Rightarrow> cache_val option"
  c_Get :: "'c \<Rightarrow> peer_id \<Rightarrow> cache_val option \<times> 'c"
  c_Has :: "'c \<Rightarrow> peer_id \<Rightarrow> bool"
  c_Put :: "'c \<Rightarrow> peer_id \<Rightarrow> cache_val \<Rightarrow> 'c"
  c_Remove :: "'c \<Rightarrow> peer_id \<Rightarrow> 'c"

locale cacher =
  fixes C :: "'c cacher_ops"
  assumes Get_val: "fst (c_Get C c k) = c_Peek C c k"
    and Get_keeps: "c_Peek C (snd (c_Get C c k)) = c_Peek C c"
    and Has_iff: "c_Has C c k \<longleftrightarrow> c_Peek C c k \<noteq> None"
    and Put_same: "c_Peek C (c_Put C c k v) k = Some v"
    and Put_other: "j \<noteq> k \<Longrightarrow> c_Peek C (c_Put C c k v) j = None \<or>
      c_Peek C (c_Put C c k v) j = c_Peek C c j"
    and Remove_eq: "c_Peek C (c_Remove C c k) = (c_Peek C c)(k := None)"

section \<open>The handler\<close>

record 'c peersRatingHandler =
  topRatedCache :: 'c
  badRatedCache :: 'c

definition defaultRating :: int where "defaultRating = 0"
definition minRating :: int where "minRating = -100"
definition maxRating :: int where "maxRating = 100"
definition increaseFactor :: int where "increaseFactor = 2"
definition decreaseFactor :: int where "decreaseFactor = -1"

datatype rating_tier = topRatedTier | badRatedTier

text \<open>\<^verbatim>\<open>ArgPeersRatingHandler\<close>: a \<^verbatim>\<open>nil\<close> interface is \<^const>\<open>None\<close>; the flag is whether a logger is given.\<close>

definition NewPeersRatingHandler ::
    "'c option \<Rightarrow> 'c option \<Rightarrow> bool \<Rightarrow> p2p_error + 'c peersRatingHandler" where
  "NewPeersRatingHandler topC badC hasLogger =
     (case topC of None \<Rightarrow> Inl ErrNilCacher
      | Some t \<Rightarrow> (case badC of None \<Rightarrow> Inl ErrNilCacher
        | Some b \<Rightarrow> if \<not> hasLogger then Inl ErrNilLogger
                    else Inr \<lparr>topRatedCache = t, badRatedCache = b\<rparr>))"

text \<open>\<^verbatim>\<open>r, _ := v.(int32)\<close>: the zero value when the type assertion fails.\<close>

definition assert_int32 :: "cache_val \<Rightarrow> int" where
  "assert_int32 v = (case v of VInt32 r \<Rightarrow> r | VOther _ \<Rightarrow> 0)"

definition getOldRating ::
    "'c cacher_ops \<Rightarrow> 'c peersRatingHandler \<Rightarrow> peer_id \<Rightarrow> (int \<times> bool) \<times> 'c peersRatingHandler" where
  "getOldRating C prh pid =
     (case c_Get C (topRatedCache prh) pid of (oldRating, top') \<Rightarrow>
       (let prh1 = prh\<lparr>topRatedCache := top'\<rparr> in
        case oldRating of Some v \<Rightarrow> ((assert_int32 v, True), prh1)
        | None \<Rightarrow>
          (case c_Get C (badRatedCache prh1) pid of (oldRating, bad') \<Rightarrow>
            (let prh2 = prh1\<lparr>badRatedCache := bad'\<rparr> in
             case oldRating of Some v \<Rightarrow> ((assert_int32 v, True), prh2)
             | None \<Rightarrow> ((defaultRating, False), prh2)))))"

definition computeRatingTier :: "int \<Rightarrow> rating_tier" where
  "computeRatingTier peerRating =
     (if peerRating \<ge> defaultRating then topRatedTier else badRatedTier)"

definition put_top :: "'c cacher_ops \<Rightarrow> 'c peersRatingHandler \<Rightarrow> peer_id \<Rightarrow> int \<Rightarrow> 'c peersRatingHandler" where
  "put_top C prh pid r = prh\<lparr>topRatedCache := c_Put C (topRatedCache prh) pid (VInt32 r)\<rparr>"

definition put_bad :: "'c cacher_ops \<Rightarrow> 'c peersRatingHandler \<Rightarrow> peer_id \<Rightarrow> int \<Rightarrow> 'c peersRatingHandler" where
  "put_bad C prh pid r = prh\<lparr>badRatedCache := c_Put C (badRatedCache prh) pid (VInt32 r)\<rparr>"

definition movePeerToNewTier ::
    "'c cacher_ops \<Rightarrow> 'c peersRatingHandler \<Rightarrow> int \<Rightarrow> rating_tier \<Rightarrow> peer_id \<Rightarrow> 'c peersRatingHandler" where
  "movePeerToNewTier C prh newRating newTier pid =
     (if newTier = topRatedTier then
        put_top C (prh\<lparr>badRatedCache := c_Remove C (badRatedCache prh) pid\<rparr>) pid newRating
      else
        put_bad C (prh\<lparr>topRatedCache := c_Remove C (topRatedCache prh) pid\<rparr>) pid newRating)"

definition updateRatingCacher ::
    "'c cacher_ops \<Rightarrow> 'c peersRatingHandler \<Rightarrow> peer_id \<Rightarrow> int \<Rightarrow> int \<Rightarrow> 'c peersRatingHandler" where
  "updateRatingCacher C prh pid oldRating newRating =
     (let oldTier = computeRatingTier oldRating; newTier = computeRatingTier newRating in
      if newTier = oldTier then
        (if newTier = topRatedTier then put_top C prh pid newRating else put_bad C prh pid newRating)
      else movePeerToNewTier C prh newRating newTier pid)"

definition updateRating ::
    "'c cacher_ops \<Rightarrow> 'c peersRatingHandler \<Rightarrow> peer_id \<Rightarrow> int \<Rightarrow> 'c peersRatingHandler" where
  "updateRating C prh pid updateFactor =
     (case getOldRating C prh pid of ((oldRating, found), prh1) \<Rightarrow>
        if \<not> found then put_top C prh1 pid defaultRating
        else
          let newRating = wrap32 (oldRating + updateFactor);
              newRating = (if newRating > maxRating then maxRating else newRating);
              newRating = (if newRating < minRating then minRating else newRating)
          in updateRatingCacher C prh1 pid oldRating newRating)"

definition IncreaseRating :: "'c cacher_ops \<Rightarrow> 'c peersRatingHandler \<Rightarrow> peer_id \<Rightarrow> 'c peersRatingHandler" where
  "IncreaseRating C prh pid = updateRating C prh pid increaseFactor"

definition DecreaseRating :: "'c cacher_ops \<Rightarrow> 'c peersRatingHandler \<Rightarrow> peer_id \<Rightarrow> 'c peersRatingHandler" where
  "DecreaseRating C prh pid = updateRating C prh pid decreaseFactor"

text \<open>The loop of \<^verbatim>\<open>splitPeersByTiers\<close>, with the two lists built so far.\<close>

fun splitPeersByTiers ::
    "'c cacher_ops \<Rightarrow> peer_id list \<Rightarrow> peer_id list \<Rightarrow> peer_id list \<Rightarrow> 'c peersRatingHandler
     \<Rightarrow> (peer_id list \<times> peer_id list) \<times> 'c peersRatingHandler" where
  "splitPeersByTiers C [] topRated badRated prh = ((topRated, badRated), prh)"
| "splitPeersByTiers C (peer # peers) topRated badRated prh =
     (let isTop = c_Has C (topRatedCache prh) peer;
          topRated1 = (if isTop then topRated @ [peer] else topRated);
          isBad = c_Has C (badRatedCache prh) peer;
          badRated1 = (if isBad then badRated @ [peer] else badRated)
      in if \<not> isTop \<and> \<not> isBad
         then splitPeersByTiers C peers (topRated1 @ [peer]) badRated1 (put_top C prh peer defaultRating)
         else splitPeersByTiers C peers topRated1 badRated1 prh)"

text \<open>
  \<^verbatim>\<open>displayPeersRating\<close>: with the logger at trace level it looks every returned peer up, which may
  touch the recency of the caches; the second component is what is logged.
\<close>

fun displayPeersRating ::
    "'c cacher_ops \<Rightarrow> peer_id list \<Rightarrow> 'c peersRatingHandler
     \<Rightarrow> (peer_id \<times> int option) list \<times> 'c peersRatingHandler" where
  "displayPeersRating C [] prh = ([], prh)"
| "displayPeersRating C (peer # peers) prh =
     (case c_Get C (topRatedCache prh) peer of (r, top') \<Rightarrow>
       let prh1 = prh\<lparr>topRatedCache := top'\<rparr>;
           (rating, prh2) =
             (case r of Some v \<Rightarrow> (Some v, prh1)
              | None \<Rightarrow> (case c_Get C (badRatedCache prh1) peer of (r2, bad') \<Rightarrow>
                          (r2, prh1\<lparr>badRatedCache := bad'\<rparr>)));
           shown = (case rating of Some (VInt32 i) \<Rightarrow> Some i | _ \<Rightarrow> None);
           (rest, prh3) = displayPeersRating C peers prh2
       in ((peer, shown) # rest, prh3))"

definition GetTopRatedPeersFromList ::
    "'c cacher_ops \<Rightarrow> bool \<Rightarrow> 'c peersRatingHandler \<Rightarrow> peer_id list \<Rightarrow> int
     \<Rightarrow> peer_id list \<times> 'c peersRatingHandler" where
  "GetTopRatedPeersFromList C traceLevel prh peers minNumOfPeersExpected =
     (if minNumOfPeersExpected < 1 \<or> peers = [] then ([], prh)
      else case splitPeersByTiers C peers [] [] prh of ((peersTopRated, peersBadRated), prh1) \<Rightarrow>
        let peersTopRated1 =
              (if int (length peersTopRated) < minNumOfPeersExpected
               then peersTopRated @ peersBadRated else peersTopRated)
        in (peersTopRated1,
            if traceLevel then snd (displayPeersRating C peersTopRated1 prh1) else prh1))"

section \<open>The monitor\<close>

definition sprintf_d :: "cache_val \<Rightarrow> string" where
  "sprintf_d v = (case v of VInt32 i \<Rightarrow> show_int i | VOther s \<Rightarrow> s)"

text \<open>The monitor shares the two caches with the handler.\<close>

definition fetchRating ::
    "'c cacher_ops \<Rightarrow> 'c peersRatingHandler \<Rightarrow> peer_id \<Rightarrow> string \<times> 'c peersRatingHandler" where
  "fetchRating C m pid =
     (case c_Get C (topRatedCache m) pid of (rating, top') \<Rightarrow>
       (let m1 = m\<lparr>topRatedCache := top'\<rparr> in
        case rating of Some v \<Rightarrow> (sprintf_d v, m1)
        | None \<Rightarrow> (case c_Get C (badRatedCache m1) pid of (rating, bad') \<Rightarrow>
            (let m2 = m1\<lparr>badRatedCache := bad'\<rparr> in
             case rating of Some v \<Rightarrow> (sprintf_d v, m2) | None \<Rightarrow> (''unknown'', m2)))))"

text \<open>\<^verbatim>\<open>pretty\<close> is \<^verbatim>\<open>core.PeerID.Pretty\<close>, the argument list is what \<^verbatim>\<open>ConnectedPeers\<close> returned.\<close>

fun extractConnectedPeersRatings ::
    "'c cacher_ops \<Rightarrow> (peer_id \<Rightarrow> string) \<Rightarrow> peer_id list \<Rightarrow> (string \<rightharpoonup> string) \<Rightarrow> 'c peersRatingHandler
     \<Rightarrow> (string \<rightharpoonup> string) \<times> 'c peersRatingHandler" where
  "extractConnectedPeersRatings C pretty [] acc m = (acc, m)"
| "extractConnectedPeersRatings C pretty (p # ps) acc m =
     (case fetchRating C m p of (r, m') \<Rightarrow>
        extractConnectedPeersRatings C pretty ps (acc(pretty p \<mapsto> r)) m')"

section \<open>Invariant and view\<close>

text \<open>The rating of a peer, as a lookup in the two caches sees it.\<close>

definition rating_of :: "'c cacher_ops \<Rightarrow> 'c peersRatingHandler \<Rightarrow> peer_id \<Rightarrow> int option" where
  "rating_of C prh pid =
     (case c_Peek C (topRatedCache prh) pid of Some v \<Rightarrow> Some (assert_int32 v)
      | None \<Rightarrow> map_option assert_int32 (c_Peek C (badRatedCache prh) pid))"

definition top_val_ok :: "cache_val option \<Rightarrow> bool" where
  "top_val_ok v = (case v of None \<Rightarrow> True | Some (VInt32 r) \<Rightarrow> 0 \<le> r \<and> r \<le> 100 | Some (VOther _) \<Rightarrow> False)"

definition bad_val_ok :: "cache_val option \<Rightarrow> bool" where
  "bad_val_ok v = (case v of None \<Rightarrow> True | Some (VInt32 r) \<Rightarrow> -100 \<le> r \<and> r < 0 | Some (VOther _) \<Rightarrow> False)"

text \<open>
  The invariant of one peer: the top tier holds ratings from 0 to 100 only, the bad tier from -100 to
  -1 only, and no peer is in both tiers.
\<close>

definition peer_ok :: "'c cacher_ops \<Rightarrow> 'c peersRatingHandler \<Rightarrow> peer_id \<Rightarrow> bool" where
  "peer_ok C prh p \<longleftrightarrow>
     top_val_ok (c_Peek C (topRatedCache prh) p) \<and> bad_val_ok (c_Peek C (badRatedCache prh) p) \<and>
     (c_Peek C (topRatedCache prh) p = None \<or> c_Peek C (badRatedCache prh) p = None)"

definition ratings_ok :: "'c cacher_ops \<Rightarrow> 'c peersRatingHandler \<Rightarrow> bool" where
  "ratings_ok C prh \<longleftrightarrow> (\<forall>p. peer_ok C prh p)"

definition bad_rated :: "'c cacher_ops \<Rightarrow> 'c peersRatingHandler \<Rightarrow> peer_id \<Rightarrow> bool" where
  "bad_rated C s p \<longleftrightarrow> c_Peek C (badRatedCache s) p \<noteq> None"

text \<open>What a rating becomes: the specification of an update.\<close>

definition next_rating :: "int option \<Rightarrow> int \<Rightarrow> int" where
  "next_rating old f = (case old of None \<Rightarrow> 0 | Some r \<Rightarrow> max (-100) (min 100 (r + f)))"

lemmas rating_defs = getOldRating_def updateRating_def updateRatingCacher_def movePeerToNewTier_def
  put_top_def put_bad_def computeRatingTier_def defaultRating_def minRating_def maxRating_def

lemma clamp_rating:
  assumes "-100 \<le> r" "r \<le> 100" "-100 \<le> f" "f \<le> 100"
  shows "(let n = wrap32 (r + f); n = (if n > maxRating then maxRating else n)
          in if n < minRating then minRating else n) = next_rating (Some r) f"
  using assms by (auto simp: wrap32_id Let_def maxRating_def minRating_def next_rating_def)

section \<open>Properties of the handler over any cache\<close>

context cacher
begin

lemmas laws [simp] = Get_val Get_keeps Put_same Remove_eq

lemma getOldRating_spec:
  shows "fst (getOldRating C prh pid) =
      (case rating_of C prh pid of None \<Rightarrow> (0, False) | Some r \<Rightarrow> (r, True))"
    and "c_Peek C (topRatedCache (snd (getOldRating C prh pid))) = c_Peek C (topRatedCache prh)"
    and "c_Peek C (badRatedCache (snd (getOldRating C prh pid))) = c_Peek C (badRatedCache prh)"
  using Get_val [of "topRatedCache prh" pid, symmetric] Get_keeps [of "topRatedCache prh" pid]
    Get_val [of "badRatedCache prh" pid, symmetric] Get_keeps [of "badRatedCache prh" pid]
  by (auto simp: getOldRating_def rating_of_def defaultRating_def Let_def simp del: laws
      split: option.splits prod.splits)

lemma getOldRating_obtain:
  obtains s' where "getOldRating C s p =
      ((case rating_of C s p of None \<Rightarrow> (0, False) | Some r \<Rightarrow> (r, True)), s')"
    and "c_Peek C (topRatedCache s') = c_Peek C (topRatedCache s)"
    and "c_Peek C (badRatedCache s') = c_Peek C (badRatedCache s)"
  using getOldRating_spec [of s p] by (metis prod.collapse)

lemma peer_ok_cong:
  assumes "c_Peek C (topRatedCache s') = c_Peek C (topRatedCache s)"
    and "c_Peek C (badRatedCache s') = c_Peek C (badRatedCache s)"
  shows "ratings_ok C s' = ratings_ok C s" and "rating_of C s' = rating_of C s"
  using assms by (simp_all add: ratings_ok_def peer_ok_def rating_of_def fun_eq_iff split: option.splits)

text \<open>A \<^verbatim>\<open>Put\<close> in the top tier is fine for a peer that the bad tier does not have, and conversely.\<close>

lemma put_top_other: "q \<noteq> p \<Longrightarrow> peer_ok C s q \<Longrightarrow> peer_ok C (put_top C s p r) q"
  using Put_other [of q p "topRatedCache s" "VInt32 r"]
  by (auto simp: peer_ok_def put_top_def top_val_ok_def split: option.splits)

lemma put_bad_other: "q \<noteq> p \<Longrightarrow> peer_ok C s q \<Longrightarrow> peer_ok C (put_bad C s p r) q"
  using Put_other [of q p "badRatedCache s" "VInt32 r"]
  by (auto simp: peer_ok_def put_bad_def bad_val_ok_def split: option.splits)

lemma put_top_ok:
  assumes "ratings_ok C s" "c_Peek C (badRatedCache s) p = None" "0 \<le> r" "r \<le> 100"
  shows "ratings_ok C (put_top C s p r)"
  unfolding ratings_ok_def
proof
  fix q
  show "peer_ok C (put_top C s p r) q"
    using assms put_top_other [of q p s r]
    by (cases "q = p") (auto simp: ratings_ok_def, simp add: peer_ok_def put_top_def top_val_ok_def bad_val_ok_def)
qed

lemma put_bad_ok:
  assumes "ratings_ok C s" "c_Peek C (topRatedCache s) p = None" "-100 \<le> r" "r < 0"
  shows "ratings_ok C (put_bad C s p r)"
  unfolding ratings_ok_def
proof
  fix q
  show "peer_ok C (put_bad C s p r) q"
    using assms put_bad_other [of q p s r]
    by (cases "q = p") (auto simp: ratings_ok_def, simp add: peer_ok_def put_bad_def top_val_ok_def bad_val_ok_def)
qed

lemma remove_ok:
  assumes "ratings_ok C s"
  shows "ratings_ok C (s\<lparr>topRatedCache := c_Remove C (topRatedCache s) p\<rparr>)"
    and "ratings_ok C (s\<lparr>badRatedCache := c_Remove C (badRatedCache s) p\<rparr>)"
  using assms by (auto simp: ratings_ok_def peer_ok_def top_val_ok_def bad_val_ok_def)

text \<open>Under the invariant a peer's tier is the sign of its rating.\<close>

lemma tier_of_rating:
  assumes "ratings_ok C s" and "rating_of C s p = Some r"
  shows "-100 \<le> r \<and> r \<le> 100" and "r \<ge> 0 \<Longrightarrow> c_Peek C (badRatedCache s) p = None"
    and "r < 0 \<Longrightarrow> c_Peek C (topRatedCache s) p = None"
proof -
  have ok: "peer_ok C s p" using assms(1) by (simp add: ratings_ok_def)
  show "-100 \<le> r \<and> r \<le> 100" and "r \<ge> 0 \<Longrightarrow> c_Peek C (badRatedCache s) p = None"
    and "r < 0 \<Longrightarrow> c_Peek C (topRatedCache s) p = None"
    using ok assms(2)
    by (auto simp: peer_ok_def rating_of_def top_val_ok_def bad_val_ok_def assert_int32_def
        split: option.splits cache_val.splits)
qed

lemma no_rating: "rating_of C s p = None \<longleftrightarrow>
    c_Peek C (topRatedCache s) p = None \<and> c_Peek C (badRatedCache s) p = None"
  by (auto simp: rating_of_def split: option.splits)

lemma updateRatingCacher_ok:
  assumes ok: "ratings_ok C s" and old: "rating_of C s p = Some r0" and r: "-100 \<le> r" "r \<le> 100"
  shows "ratings_ok C (updateRatingCacher C s p r0 r)"
    and "rating_of C (updateRatingCacher C s p r0 r) p = Some r"
proof -
  note t = tier_of_rating [OF ok old]
  let ?s1 = "s\<lparr>topRatedCache := c_Remove C (topRatedCache s) p\<rparr>"
  let ?s2 = "s\<lparr>badRatedCache := c_Remove C (badRatedCache s) p\<rparr>"
  have m1: "r < 0 \<Longrightarrow> ratings_ok C (put_bad C ?s1 p r)"
    using r by (intro put_bad_ok remove_ok ok) auto
  have m2: "0 \<le> r \<Longrightarrow> ratings_ok C (put_top C ?s2 p r)"
    using r by (intro put_top_ok remove_ok ok) auto
  show "ratings_ok C (updateRatingCacher C s p r0 r)"
    using m1 m2 t r put_top_ok [OF ok, of p r] put_bad_ok [OF ok, of p r]
    by (auto simp: updateRatingCacher_def movePeerToNewTier_def computeRatingTier_def
        defaultRating_def Let_def)
  show "rating_of C (updateRatingCacher C s p r0 r) p = Some r"
    using t by (auto simp: rating_defs Let_def rating_of_def assert_int32_def)
qed

theorem updateRating_ok:
  assumes ok: "ratings_ok C s" and f: "-100 \<le> f" "f \<le> 100"
  shows "ratings_ok C (updateRating C s p f)"
    and "rating_of C (updateRating C s p f) p = Some (next_rating (rating_of C s p) f)"
proof -
  obtain s' where get: "getOldRating C s p =
      ((case rating_of C s p of None \<Rightarrow> (0, False) | Some r \<Rightarrow> (r, True)), s')"
    and eq: "c_Peek C (topRatedCache s') = c_Peek C (topRatedCache s)"
      "c_Peek C (badRatedCache s') = c_Peek C (badRatedCache s)"
    by (rule getOldRating_obtain)
  note same = peer_ok_cong [OF eq]
  have ok': "ratings_ok C s'" using ok same by simp
  have "ratings_ok C (updateRating C s p f) \<and>
      rating_of C (updateRating C s p f) p = Some (next_rating (rating_of C s p) f)"
  proof (cases "rating_of C s p")
    case None
    then have "c_Peek C (badRatedCache s') p = None" using no_rating [of s p] eq by simp
    then show ?thesis
      using None get put_top_ok [OF ok', of p 0]
      by (simp add: updateRating_def defaultRating_def next_rating_def)
         (simp add: rating_of_def put_top_def assert_int32_def)
  next
    case (Some r)
    have up: "updateRating C s p f = updateRatingCacher C s' p r (next_rating (Some r) f)"
      using clamp_rating [of r f] tier_of_rating(1) [OF ok Some] f get Some
      by (simp add: updateRating_def Let_def)
    have "-100 \<le> next_rating (Some r) f" "next_rating (Some r) f \<le> 100"
      by (auto simp: next_rating_def)
    then show ?thesis
      using updateRatingCacher_ok [OF ok', of p r "next_rating (Some r) f"] Some same
      by (simp add: up)
  qed
  then show "ratings_ok C (updateRating C s p f)"
    and "rating_of C (updateRating C s p f) p = Some (next_rating (rating_of C s p) f)" by auto
qed

text \<open>Other peers keep their rating, or lose it to the eviction policy of the cache.\<close>

lemma put_rating_other:
  assumes "q \<noteq> p" "ratings_ok C s"
  shows "rating_of C (put_top C s p r) q \<in> {None, rating_of C s q}"
    and "rating_of C (put_bad C s p r) q \<in> {None, rating_of C s q}"
proof -
  have "peer_ok C s q" using assms(2) by (simp add: ratings_ok_def)
  then show "rating_of C (put_top C s p r) q \<in> {None, rating_of C s q}"
    and "rating_of C (put_bad C s p r) q \<in> {None, rating_of C s q}"
    using Put_other [OF assms(1), of "topRatedCache s" "VInt32 r"]
      Put_other [OF assms(1), of "badRatedCache s" "VInt32 r"]
    by (auto simp: rating_of_def put_top_def put_bad_def peer_ok_def split: option.splits)
qed

lemma remove_rating_other:
  assumes "q \<noteq> p"
  shows "rating_of C (s\<lparr>topRatedCache := c_Remove C (topRatedCache s) p\<rparr>) q = rating_of C s q"
    and "rating_of C (s\<lparr>badRatedCache := c_Remove C (badRatedCache s) p\<rparr>) q = rating_of C s q"
  using assms by (simp_all add: rating_of_def split: option.splits)

theorem updateRating_other:
  assumes "ratings_ok C s" "q \<noteq> p"
  shows "rating_of C (updateRating C s p f) q \<in> {None, rating_of C s q}"
proof -
  obtain s' where get: "getOldRating C s p =
      ((case rating_of C s p of None \<Rightarrow> (0, False) | Some r \<Rightarrow> (r, True)), s')"
    and eq: "c_Peek C (topRatedCache s') = c_Peek C (topRatedCache s)"
      "c_Peek C (badRatedCache s') = c_Peek C (badRatedCache s)"
    by (rule getOldRating_obtain)
  note same = peer_ok_cong [OF eq]
  have ok': "ratings_ok C s'" using assms same by simp
  note put = put_rating_other [OF assms(2)] and rm = remove_rating_other [OF assms(2), of s']
  have "rating_of C (updateRatingCacher C s' p r r') q \<in> {None, rating_of C s' q}" for r r'
    using put [OF ok', of r'] put [OF remove_ok(1) [OF ok', of p], of r']
      put [OF remove_ok(2) [OF ok', of p], of r'] rm
    by (auto simp: updateRatingCacher_def movePeerToNewTier_def Let_def)
  then show ?thesis
    using get put(1) [OF ok', of defaultRating] same
    by (simp add: updateRating_def Let_def split: option.splits)
qed

text \<open>\<^verbatim>\<open>GetTopRatedPeersFromList\<close>: only the peers of the bad tier are set aside, whatever is evicted.\<close>

lemma splitPeersByTiers_spec:
  assumes "ratings_ok C s"
  shows "\<exists>s'. splitPeersByTiers C ps ts bs s =
      ((ts @ filter (\<lambda>p. \<not> bad_rated C s p) ps, bs @ filter (bad_rated C s) ps), s') \<and> ratings_ok C s'"
  using assms
proof (induction ps arbitrary: ts bs s)
  case Nil
  then show ?case by simp
next
  case (Cons p ps)
  have ok: "peer_ok C s p" using Cons.prems by (simp add: ratings_ok_def)
  show ?case
  proof (cases "rating_of C s p = None")
    case True
    then have new: "c_Peek C (topRatedCache s) p = None" "c_Peek C (badRatedCache s) p = None"
      by (simp_all add: no_rating)
    let ?s = "put_top C s p defaultRating"
    have "ratings_ok C ?s" using put_top_ok [OF Cons.prems new(2)] by (simp add: defaultRating_def)
    moreover have "bad_rated C ?s = bad_rated C s" by (simp add: fun_eq_iff bad_rated_def put_top_def)
    ultimately show ?thesis
      using Cons.IH [of ?s "ts @ [p]" bs] new by (auto simp: Has_iff bad_rated_def)
  next
    case False
    then show ?thesis
      using Cons.IH [OF Cons.prems, of "ts @ [p]" bs] Cons.IH [OF Cons.prems, of ts "bs @ [p]"] ok
      by (auto simp: Has_iff bad_rated_def no_rating peer_ok_def Let_def)
  qed
qed

lemma displayPeersRating_keeps:
  "c_Peek C (topRatedCache (snd (displayPeersRating C ps s))) = c_Peek C (topRatedCache s) \<and>
   c_Peek C (badRatedCache (snd (displayPeersRating C ps s))) = c_Peek C (badRatedCache s)"
proof (induction ps arbitrary: s)
  case (Cons p ps)
  show ?case
    using Cons.IH Get_keeps [of "topRatedCache s" p] Get_keeps [of "badRatedCache s" p]
    by (auto simp: Let_def split_beta simp del: laws split: option.splits prod.splits)
qed simp

theorem GetTopRatedPeersFromList_spec:
  assumes "ratings_ok C s"
  shows "fst (GetTopRatedPeersFromList C trace s ps n) =
    (if n < 1 then []
     else let good = filter (\<lambda>p. \<not> bad_rated C s p) ps in
       if int (length good) < n then good @ filter (bad_rated C s) ps else good)"
    and "ratings_ok C (snd (GetTopRatedPeersFromList C trace s ps n))"
proof -
  obtain s' where "splitPeersByTiers C ps [] [] s =
      ((filter (\<lambda>p. \<not> bad_rated C s p) ps, filter (bad_rated C s) ps), s')" "ratings_ok C s'"
    using splitPeersByTiers_spec [OF assms, of ps "[]" "[]"] by auto
  then show "fst (GetTopRatedPeersFromList C trace s ps n) =
      (if n < 1 then []
       else let good = filter (\<lambda>p. \<not> bad_rated C s p) ps in
         if int (length good) < n then good @ filter (bad_rated C s) ps else good)"
    and "ratings_ok C (snd (GetTopRatedPeersFromList C trace s ps n))"
    using assms peer_ok_cong(1) [OF conjunct1 conjunct2, OF displayPeersRating_keeps displayPeersRating_keeps]
    by (auto simp: GetTopRatedPeersFromList_def Let_def)
qed

lemma fetchRating_spec:
  assumes "ratings_ok C s"
  shows "fst (fetchRating C s p) =
      (case rating_of C s p of None \<Rightarrow> ''unknown'' | Some r \<Rightarrow> show_int r)"
    and "ratings_ok C (snd (fetchRating C s p))"
    and "rating_of C (snd (fetchRating C s p)) = rating_of C s"
proof -
  have ok: "peer_ok C s p" using assms by (simp add: ratings_ok_def)
  note get = Get_val [of "topRatedCache s" p, symmetric] Get_keeps [of "topRatedCache s" p]
    Get_val [of "badRatedCache s" p, symmetric] Get_keeps [of "badRatedCache s" p]
  show "fst (fetchRating C s p) =
      (case rating_of C s p of None \<Rightarrow> ''unknown'' | Some r \<Rightarrow> show_int r)"
    using get ok
    by (auto simp: fetchRating_def rating_of_def Let_def peer_ok_def top_val_ok_def bad_val_ok_def
        sprintf_d_def assert_int32_def simp del: laws split: option.splits prod.splits cache_val.splits)
  have "c_Peek C (topRatedCache (snd (fetchRating C s p))) = c_Peek C (topRatedCache s)"
    "c_Peek C (badRatedCache (snd (fetchRating C s p))) = c_Peek C (badRatedCache s)"
    using get by (auto simp: fetchRating_def Let_def simp del: laws split: option.splits prod.splits)
  from peer_ok_cong [OF this] assms
  show "ratings_ok C (snd (fetchRating C s p))"
    and "rating_of C (snd (fetchRating C s p)) = rating_of C s" by auto
qed

end

section \<open>The cache of the tests\<close>

text \<open>\<^verbatim>\<open>CacherMock\<close>: a map that nothing is evicted from (its added-data handlers are not used here).\<close>

definition cacherMock :: "(peer_id \<rightharpoonup> cache_val) cacher_ops" where
  "cacherMock =
     \<lparr>c_Peek = (\<lambda>m k. m k), c_Get = (\<lambda>m k. (m k, m)), c_Has = (\<lambda>m k. m k \<noteq> None),
      c_Put = (\<lambda>m k v. m(k \<mapsto> v)), c_Remove = (\<lambda>m k. m(k := None))\<rparr>"

interpretation mock: cacher cacherMock
  by unfold_locales (auto simp: cacherMock_def)

text \<open>
  C12. The invariant of the ratings (top tier 0 to 100, bad tier -100 to -1, no peer in both) is kept by every
  operation of the handler, over any cache that satisfies the laws, evicting caches included; the
  empty caches satisfy it.
\<close>

theorem ratings_invariant:
  assumes "cacher C" and "ratings_ok C s"
  shows "ratings_ok C (IncreaseRating C s p) \<and> ratings_ok C (DecreaseRating C s p) \<and>
    ratings_ok C (snd (GetTopRatedPeersFromList C trace s ps n))"
  using cacher.updateRating_ok(1) [OF assms] cacher.GetTopRatedPeersFromList_spec(2) [OF assms]
  by (simp add: IncreaseRating_def DecreaseRating_def increaseFactor_def decreaseFactor_def)

definition empty_ratings :: "(peer_id \<rightharpoonup> cache_val) peersRatingHandler" where
  "empty_ratings = \<lparr>topRatedCache = Map.empty, badRatedCache = Map.empty\<rparr>"

lemma empty_ratings_ok: "ratings_ok cacherMock empty_ratings"
  by (simp add: ratings_ok_def peer_ok_def empty_ratings_def cacherMock_def top_val_ok_def bad_val_ok_def)

theorem ratings_invariant_witness:
  "ratings_ok cacherMock (DecreaseRating cacherMock (DecreaseRating cacherMock empty_ratings ''p'') ''p'')"
proof -
  have "ratings_ok cacherMock (DecreaseRating cacherMock empty_ratings ''p'')"
    using ratings_invariant [OF mock.cacher_axioms empty_ratings_ok] by simp
  from ratings_invariant [OF mock.cacher_axioms this] show ?thesis by simp
qed

text \<open>
  What \<^verbatim>\<open>IncreaseRating\<close> and \<^verbatim>\<open>DecreaseRating\<close> do: a peer without a rating gets 0 (and nothing is added to
  it), a known one gets 2 more or 1 less, held between -100 and 100, and is then in the tier of its new
  sign; another peer keeps its rating or loses it to the eviction policy of the cache.
\<close>

theorem rating_update:
  assumes "cacher C" and "ratings_ok C s"
  shows "rating_of C (IncreaseRating C s p) p = Some (next_rating (rating_of C s p) 2) \<and>
    rating_of C (DecreaseRating C s p) p = Some (next_rating (rating_of C s p) (-1)) \<and>
    (bad_rated C (DecreaseRating C s p) p \<longleftrightarrow> next_rating (rating_of C s p) (-1) < 0) \<and>
    (q \<noteq> p \<longrightarrow> rating_of C (IncreaseRating C s p) q \<in> {None, rating_of C s q} \<and>
      rating_of C (DecreaseRating C s p) q \<in> {None, rating_of C s q})"
proof -
  note up = cacher.updateRating_ok [OF assms] and other = cacher.updateRating_other [OF assms]
  have tier: "rating_of C s' p = Some r \<Longrightarrow> ratings_ok C s' \<Longrightarrow> bad_rated C s' p \<longleftrightarrow> r < 0" for s' r
    using cacher.tier_of_rating [OF assms(1), of s' p r] cacher.no_rating [OF assms(1), of s' p]
    by (cases "r < 0") (auto simp: bad_rated_def)
  show ?thesis
    using up [of 2 p] up [of "-1" p] other [of q p] tier [OF up(2) up(1), of "-1"]
    by (simp add: IncreaseRating_def DecreaseRating_def increaseFactor_def decreaseFactor_def)
qed

theorem rating_update_witness:
  "rating_of cacherMock (DecreaseRating cacherMock empty_ratings ''p'') ''p'' = Some 0 \<and>
   rating_of cacherMock (DecreaseRating cacherMock (DecreaseRating cacherMock empty_ratings ''p'') ''p'') ''p''
     = Some (-1) \<and>
   rating_of cacherMock (IncreaseRating cacherMock empty_ratings ''q'') ''p'' \<in> {None}"
proof -
  note ok = empty_ratings_ok
  have 1: "rating_of cacherMock (DecreaseRating cacherMock empty_ratings ''p'') ''p'' = Some 0"
    using rating_update [OF mock.cacher_axioms ok, of "''p''"]
    by (simp add: rating_of_def empty_ratings_def cacherMock_def next_rating_def)
  have ok1: "ratings_ok cacherMock (DecreaseRating cacherMock empty_ratings ''p'')"
    using mock.updateRating_ok(1) [OF ok, of "-1"] by (simp add: DecreaseRating_def decreaseFactor_def)
  show ?thesis
    using 1 rating_update [OF mock.cacher_axioms ok1, of "''p''"]
      rating_update [OF mock.cacher_axioms ok, of "''q''" "''p''"]
    by (simp add: next_rating_def)
       (simp add: rating_of_def empty_ratings_def cacherMock_def)
qed

text \<open>
  \<^verbatim>\<open>GetTopRatedPeersFromList\<close> returns, in the order of the given list, the peers that are not bad
  rated, followed by the bad rated ones only when there are fewer than expected; a minimum below 1 gives the
  empty list. A peer without rating counts as top rated, and what the cache evicts on the way does not change the answer.
\<close>

theorem top_rated_peers:
  assumes "cacher C" and "ratings_ok C s"
  shows "fst (GetTopRatedPeersFromList C trace s ps n) =
    (if n < 1 then []
     else let good = filter (\<lambda>p. \<not> bad_rated C s p) ps in
       if int (length good) < n then good @ filter (bad_rated C s) ps else good)"
  using cacher.GetTopRatedPeersFromList_spec(1) [OF assms] by simp

definition two_tiers :: "(peer_id \<rightharpoonup> cache_val) peersRatingHandler" where
  "two_tiers = \<lparr>topRatedCache = [''a'' \<mapsto> VInt32 4], badRatedCache = [''b'' \<mapsto> VInt32 (-3)]\<rparr>"

lemma two_tiers_ok: "ratings_ok cacherMock two_tiers"
  by (simp add: ratings_ok_def peer_ok_def two_tiers_def cacherMock_def top_val_ok_def bad_val_ok_def)

theorem top_rated_peers_witness:
  "fst (GetTopRatedPeersFromList cacherMock False two_tiers [''b'', ''a'', ''c''] 2) = [''a'', ''c''] \<and>
   fst (GetTopRatedPeersFromList cacherMock True two_tiers [''b'', ''a'', ''c''] 3) = [''a'', ''c'', ''b'']"
  using top_rated_peers [OF mock.cacher_axioms two_tiers_ok, of False "[''b'', ''a'', ''c'']" 2]
    top_rated_peers [OF mock.cacher_axioms two_tiers_ok, of True "[''b'', ''a'', ''c'']" 3]
  by (simp add: bad_rated_def two_tiers_def cacherMock_def)

lemma extract_other:
  "pretty p \<notin> pretty ` set ps \<Longrightarrow>
   fst (extractConnectedPeersRatings C pretty ps acc m) (pretty p) = acc (pretty p)"
  by (induction ps arbitrary: acc m) (auto split: prod.splits)

text \<open>
  The monitor reports, for every connected peer, the rating that the handler keeps, in decimal, or
  \<^verbatim>\<open>unknown\<close>; \<open>pretty\<close> is the peer id's text form, which tells peers apart.
\<close>

theorem monitor_reports_ratings:
  assumes "cacher C" and "ratings_ok C s" and "inj_on pretty (set ps)" and "p \<in> set ps"
  shows "fst (extractConnectedPeersRatings C pretty ps acc s) (pretty p) =
    Some (case rating_of C s p of None \<Rightarrow> ''unknown'' | Some r \<Rightarrow> show_int r)"
  using assms(2-)
proof (induction ps arbitrary: acc s)
  case (Cons q ps)
  note f = cacher.fetchRating_spec [OF assms(1) Cons.prems(1), of q]
  obtain r m' where m: "fetchRating C s q = (r, m')" by (cases "fetchRating C s q")
  show ?case
  proof (cases "p \<in> set ps")
    case True
    then show ?thesis using Cons.IH [of m'] Cons.prems(2) f m by simp
  next
    case False
    then have "pretty p \<notin> pretty ` set ps" "p = q" using Cons.prems(2,3) by (auto simp: inj_on_def)
    then show ?thesis using f m extract_other [of pretty p ps C] by simp
  qed
qed simp

theorem monitor_reports_ratings_witness:
  "fst (extractConnectedPeersRatings cacherMock id [''b'', ''c''] Map.empty two_tiers) (id ''b'') =
     Some ''-3'' \<and>
   fst (extractConnectedPeersRatings cacherMock id [''b'', ''c''] Map.empty two_tiers) (id ''c'') =
     Some ''unknown''"
proof -
  have "rating_of cacherMock two_tiers ''b'' = Some (-3)" "rating_of cacherMock two_tiers ''c'' = None"
    by (simp_all add: rating_of_def two_tiers_def cacherMock_def assert_int32_def)
  moreover have "show_int (-3) = ''-3''" by code_simp
  ultimately show ?thesis
    using monitor_reports_ratings [OF mock.cacher_axioms two_tiers_ok, of id "[''b'', ''c'']" _ Map.empty]
    by simp
qed

end
