(* ===== verification/Kad_Distance.thy ===== *)
theory Kad_Distance
  imports Prelude
begin

text \<open>
  The distances of \<^verbatim>\<open>p2p/libp2p/networksharding/listsSharder.go\<close> and the sortable lists of
  \<^verbatim>\<open>networksharding/sorting\<close>. \<^verbatim>\<open>kbucket.ConvertPeerID\<close> belongs to libp2p and is the argument \<open>convert\<close>
  of the definitions; what is used of it is that all keys have the same length (it returns a SHA-256
  digest, 32 bytes).
\<close>

section \<open>Distances\<close>

text \<open>\<^verbatim>\<open>math/bits.OnesCount8\<close>.\<close>

definition OnesCount8 :: "byte \<Rightarrow> nat" where
  "OnesCount8 b = length (filter (bit b) [0..<8])"

text \<open>
  The loop of \<^verbatim>\<open>computeDistanceByCountingBits\<close> over the indices of the first key; reading the second key
  beyond its end is a panic.
\<close>

fun countBits_loop :: "bytes \<Rightarrow> bytes \<Rightarrow> nat \<Rightarrow> nat option" where
  "countBits_loop [] dest cumulatedBits = Some cumulatedBits"
| "countBits_loop (s # src) [] cumulatedBits = None"
| "countBits_loop (s # src) (d # dest) cumulatedBits =
     countBits_loop src dest (cumulatedBits + OnesCount8 (s XOR d))"

definition computeDistanceByCountingBits :: "(peer_id \<Rightarrow> bytes) \<Rightarrow> peer_id \<Rightarrow> peer_id \<Rightarrow> nat option" where
  "computeDistanceByCountingBits convert src dest = countBits_loop (convert src) (convert dest) 0"

definition leadingZerosCount :: "nat list" where
  "leadingZerosCount =
     [8, 7, 6, 6] @ replicate 4 5 @ replicate 8 4 @ replicate 16 3 @ replicate 32 2 @ replicate 64 1 @
     replicate 128 0"

text \<open>The table has 256 entries, so the index, a byte, is in range.\<close>

fun log2_loop :: "bytes \<Rightarrow> bytes \<Rightarrow> nat \<Rightarrow> nat option" where
  "log2_loop [] dest val = Some val"
| "log2_loop (s # src) [] val = None"
| "log2_loop (s # src) (d # dest) val =
     (let result = s XOR d; val = val + leadingZerosCount ! unat result in
      if result \<noteq> 0 then Some val else log2_loop src dest val)"

definition computeDistanceLog2Based :: "(peer_id \<Rightarrow> bytes) \<Rightarrow> peer_id \<Rightarrow> peer_id \<Rightarrow> int option" where
  "computeDistanceLog2Based convert src dest = do {
     val \<leftarrow> log2_loop (convert src) (convert dest) 0;
     Some (int (length (convert src)) * 8 - int val)
   }"

section \<open>Sorting\<close>

record PeerDistance =
  pd_ID :: peer_id
  pd_Distance :: nat

text \<open>
  \<^verbatim>\<open>sort.Sort\<close> with \<^verbatim>\<open>Less\<close> on the distances: an argument of the definitions. The library promises a sorted
  permutation, and no order between equal elements; that is the locale.
\<close>

locale sorter =
  fixes key :: "'a \<Rightarrow> nat" and srt :: "'a list \<Rightarrow> 'a list"
  assumes srt_mset: "mset (srt xs) = mset xs"
    and srt_sorted: "sorted (map key (srt xs))"
begin

lemma srt_length [simp]: "length (srt xs) = length xs"
  by (metis size_mset srt_mset)

lemma srt_set [simp]: "set (srt xs) = set xs"
  by (metis set_mset_mset srt_mset)

lemma take_before_drop:
  assumes "x \<in> set (take n (srt xs))" and "y \<in> set (drop n (srt xs))"
  shows "key x \<le> key y"
proof -
  have "sorted (map key (take n (srt xs)) @ map key (drop n (srt xs)))"
    using srt_sorted [of xs] by (simp flip: map_append)
  then show ?thesis using assms by (auto simp: sorted_append)
qed

end

text \<open>
  For at most twelve elements \<^verbatim>\<open>sort.Sort\<close> is an insertion sort, which is stable: \<^verbatim>\<open>Swap\<close> moves an element
  left while it is \<^verbatim>\<open>Less\<close> than the one before it.
\<close>

fun insert_left :: "('a \<Rightarrow> nat) \<Rightarrow> 'a \<Rightarrow> 'a list \<Rightarrow> 'a list" where
  "insert_left key x [] = [x]"
| "insert_left key x (y # ys) = (if key x < key y then x # y # ys else y # insert_left key x ys)"

definition insertionSort :: "('a \<Rightarrow> nat) \<Rightarrow> 'a list \<Rightarrow> 'a list" where
  "insertionSort key xs = foldl (\<lambda>acc x. insert_left key x acc) [] xs"

lemma mset_insert_left: "mset (insert_left key x ys) = add_mset x (mset ys)"
  by (induction ys) auto

lemma set_insert_left: "set (insert_left key x ys) = insert x (set ys)"
  by (induction ys) auto

lemma sorted_insert_left: "sorted (map key ys) \<Longrightarrow> sorted (map key (insert_left key x ys))"
  by (induction ys) (auto simp: set_insert_left)

lemma insertionSort_gen:
  "sorted (map key acc) \<Longrightarrow>
   mset (foldl (\<lambda>acc x. insert_left key x acc) acc xs) = mset acc + mset xs \<and>
   sorted (map key (foldl (\<lambda>acc x. insert_left key x acc) acc xs))"
  by (induction xs arbitrary: acc) (auto simp: mset_insert_left sorted_insert_left)

interpretation ins: sorter key "insertionSort key" for key
  using insertionSort_gen [of key "[]"] by unfold_locales (auto simp: insertionSort_def)

record SortedID =
  sid_ID :: peer_id
  sid_Key :: bytes
  sid_Shard :: uint32
  sid_Distance :: nat

text \<open>\<^verbatim>\<open>SortedList.SortedPeers\<close>: sorts the list in place and returns the ids.\<close>

definition SortedPeers :: "(SortedID list \<Rightarrow> SortedID list) \<Rightarrow> SortedID list \<Rightarrow> peer_id list \<times> SortedID list" where
  "SortedPeers srt peers = (let peers' = srt peers in (map sid_ID peers', peers'))"

section \<open>The Hamming distance is a metric on the keys\<close>

lemma OnesCount8_card: "OnesCount8 b = card {i. bit b i}"
proof -
  have "{i. bit b i} = set (filter (bit b) [0..<8])"
    by (auto dest: bit_imp_le_length)
  moreover have "distinct (filter (bit b) [0..<8])" by simp
  ultimately show ?thesis by (simp only: OnesCount8_def distinct_card)
qed

lemma finite_bits [simp]: "finite {i. bit (b :: byte) i}"
  by (rule finite_subset [of _ "{..<8}"]) (auto dest: bit_imp_le_length)

lemma OnesCount8_eq_0 [simp]: "OnesCount8 b = 0 \<longleftrightarrow> b = 0"
proof -
  have "{i. bit b i} = {} \<longleftrightarrow> b = 0" by (auto intro: bit_eqI)
  then show ?thesis by (simp add: OnesCount8_card)
qed

lemma OnesCount8_triangle: "OnesCount8 (a XOR c) \<le> OnesCount8 (a XOR b) + OnesCount8 (b XOR c)"
proof -
  have "{i. bit (a XOR c) i} \<subseteq> {i. bit (a XOR b) i} \<union> {i. bit (b XOR c) i}"
    by (auto simp: bit_xor_iff)
  then have "card {i. bit (a XOR c) i} \<le> card ({i. bit (a XOR b) i} \<union> {i. bit (b XOR c) i})"
    by (intro card_mono) auto
  then show ?thesis unfolding OnesCount8_card using card_Un_le order_trans by blast
qed

text \<open>The sum of the loop, as a function of the two keys.\<close>

definition hamming :: "bytes \<Rightarrow> bytes \<Rightarrow> nat" where
  "hamming s d = (\<Sum>(x, y) \<leftarrow> zip s d. OnesCount8 (x XOR y))"

lemma hamming_simps [simp]:
  "hamming [] d = 0" "hamming s [] = 0" "hamming (x # s) (y # d) = OnesCount8 (x XOR y) + hamming s d"
  by (simp_all add: hamming_def)

lemma countBits_loop_hamming:
  "length s \<le> length d \<Longrightarrow> countBits_loop s d n = Some (n + hamming s d)"
  by (induction s d n rule: countBits_loop.induct) auto

lemma hamming_sym: "hamming s d = hamming d s"
  by (induction s d rule: list_induct2') (auto simp: xor.commute)

lemma xor_eq_0: "x XOR y = 0 \<longleftrightarrow> x = (y :: byte)"
  by (auto simp: bit_eq_iff bit_xor_iff)

lemma hamming_0: "length s = length d \<Longrightarrow> hamming s d = 0 \<longleftrightarrow> s = d"
  by (induction s d rule: list_induct2) (auto simp: xor_eq_0)

lemma hamming_triangle:
  "length a = length b \<Longrightarrow> length b = length c \<Longrightarrow> hamming a c \<le> hamming a b + hamming b c"
proof (induction a b c rule: list_induct3)
  case (Cons x xs y ys z zs)
  then show ?case using OnesCount8_triangle [of x z y] by simp
qed simp

lemma hamming_bound: "hamming s d \<le> 8 * length s"
proof (induction s d rule: list_induct2')
  case (4 x xs y ys)
  have "OnesCount8 (x XOR y) \<le> 8"
    using length_filter_le [of "bit (x XOR y)" "[0..<8]"] by (simp add: OnesCount8_def)
  with 4 show ?case by simp
qed simp_all

text \<open>
  The distance that the sharders use is a metric on the keys of the peers: it is always computed
  (no index out of range), it is 0 exactly for peers with the same key, it is symmetric and satisfies the
  triangle inequality, and it is at most the number of bits of a key.
\<close>

theorem distance_metric:
  assumes "\<forall>p. length (convert p) = 32"
  shows "\<exists>dist. (\<forall>a b. computeDistanceByCountingBits convert a b = Some (dist a b)) \<and>
    (\<forall>a b. dist a b = 0 \<longleftrightarrow> convert a = convert b) \<and> (\<forall>a b. dist a b = dist b a) \<and>
    (\<forall>a b c. dist a c \<le> dist a b + dist b c) \<and> (\<forall>a b. dist a b \<le> 256)"
proof (intro exI [of _ "\<lambda>a b. hamming (convert a) (convert b)"] conjI allI)
  fix a b c
  show "computeDistanceByCountingBits convert a b = Some (hamming (convert a) (convert b))"
    using assms by (simp add: computeDistanceByCountingBits_def countBits_loop_hamming)
  show "hamming (convert a) (convert b) = 0 \<longleftrightarrow> convert a = convert b"
    using assms by (simp add: hamming_0)
  show "hamming (convert a) (convert b) = hamming (convert b) (convert a)" by (rule hamming_sym)
  show "hamming (convert a) (convert c) \<le> hamming (convert a) (convert b) + hamming (convert b) (convert c)"
    using assms by (intro hamming_triangle) auto
  show "hamming (convert a) (convert b) \<le> 256"
    using hamming_bound [of "convert a" "convert b"] assms by simp
qed

text \<open>A key function for examples: the id's bytes, cut or padded to 32.\<close>

definition pad_key :: "peer_id \<Rightarrow> bytes" where
  "pad_key p = take 32 (bytes_of_string p @ replicate 32 0)"

lemma length_pad_key [simp]: "length (pad_key p) = 32"
  by (simp add: pad_key_def)

theorem distance_metric_witness:
  "\<exists>dist. (\<forall>a b. computeDistanceByCountingBits pad_key a b = Some (dist a b)) \<and>
    (\<forall>a b. dist a b = 0 \<longleftrightarrow> pad_key a = pad_key b) \<and> (\<forall>a b. dist a b = dist b a) \<and>
    (\<forall>a b c. dist a c \<le> dist a b + dist b c) \<and> (\<forall>a b. dist a b \<le> 256)"
  by (rule distance_metric) simp

section \<open>The logarithmic distance\<close>

text \<open>The key difference as a number, most significant byte first.\<close>

fun be_num :: "bytes \<Rightarrow> nat" where
  "be_num [] = 0"
| "be_num (b # bs) = unat b * 256 ^ length bs + be_num bs"

lemma be_num_less: "be_num bs < 256 ^ length bs"
proof (induction bs)
  case (Cons b bs)
  have "unat b + 1 \<le> 256" using unat_byte_less [of b] by linarith
  then have "(unat b + 1) * 256 ^ length bs \<le> 256 * 256 ^ length bs" by (rule mult_right_mono) simp
  then have "unat b * 256 ^ length bs + 256 ^ length bs \<le> 256 * 256 ^ length bs" by (simp only: add_mult_distrib mult_1)
  with Cons have "unat b * 256 ^ length bs + be_num bs < 256 * 256 ^ length bs" by linarith
  then show ?case by simp
qed simp

lemma bit_len_shift:
  assumes "0 < a" and "r < 256 ^ k"
  shows "bit_len (a * 256 ^ k + r) = bit_len a + 8 * k"
proof -
  have pow: "(256 :: nat) ^ k = 2 ^ (8 * k)" by (simp add: power_mult)
  have "bit_len (a * 256 ^ k + r) \<le> m \<longleftrightarrow> bit_len a + 8 * k \<le> m" for m
  proof (cases "8 * k \<le> m")
    case True
    have e: "(2 :: nat) ^ m = 2 ^ (m - 8 * k) * 256 ^ k"
      using True unfolding pow by (simp flip: power_add)
    have "a * 256 ^ k + r < 2 ^ m \<longleftrightarrow> a < 2 ^ (m - 8 * k)"
    proof
      assume "a * 256 ^ k + r < 2 ^ m"
      then have "a * 256 ^ k < 2 ^ (m - 8 * k) * 256 ^ k" unfolding e by linarith
      then show "a < 2 ^ (m - 8 * k)" by simp
    next
      assume "a < 2 ^ (m - 8 * k)"
      then have "(a + 1) * 256 ^ k \<le> 2 ^ (m - 8 * k) * 256 ^ k" by (intro mult_right_mono) auto
      then show "a * 256 ^ k + r < 2 ^ m" using assms(2) unfolding e by (simp add: algebra_simps)
    qed
    moreover have "bit_len a \<le> m - 8 * k \<longleftrightarrow> bit_len a + 8 * k \<le> m" using True by arith
    ultimately show ?thesis using bit_len_le_iff [of a "m - 8 * k"] by (simp add: bit_len_le_iff)
  next
    case False
    then have "(2 :: nat) ^ m < 256 ^ k" unfolding pow by (simp add: power_strict_increasing)
    also have "\<dots> \<le> a * 256 ^ k" using assms(1) by simp
    finally have "\<not> a * 256 ^ k + r < 2 ^ m" by linarith
    then show ?thesis using False by (simp add: bit_len_le_iff)
  qed
  then show ?thesis by (metis order_antisym order_refl)
qed

lemma bit_len_eqI: "2 ^ k \<le> n \<Longrightarrow> n < 2 ^ Suc k \<Longrightarrow> bit_len n = Suc k"
  using bit_len_le_iff [of n k] bit_len_le_iff [of n "Suc k"] by linarith

lemma leadingZerosCount_table:
  assumes "n < 256"
  shows "leadingZerosCount ! n + bit_len n = 8"
proof -
  consider "n = 0" | "n = 1" | "2 \<le> n" "n < 4" | "4 \<le> n" "n < 8" | "8 \<le> n" "n < 16" | "16 \<le> n" "n < 32"
    | "32 \<le> n" "n < 64" | "64 \<le> n" "n < 128" | "128 \<le> n" using assms by linarith
  then show ?thesis
    using assms bit_len_eqI [of 0 n] bit_len_eqI [of 1 n] bit_len_eqI [of 2 n] bit_len_eqI [of 3 n]
      bit_len_eqI [of 4 n] bit_len_eqI [of 5 n] bit_len_eqI [of 6 n] bit_len_eqI [of 7 n]
    by cases (auto simp: leadingZerosCount_def nth_append nth_Cons')
qed

lemma log2_loop_spec:
  assumes "length s = length d"
  shows "\<exists>v'. log2_loop s d v = Some v' \<and> v' + bit_len (be_num (map2 (XOR) s d)) = v + 8 * length s"
  using assms
proof (induction s d arbitrary: v rule: list_induct2)
  case (Cons x xs y ys)
  let ?r = "x XOR y"
  have lz: "leadingZerosCount ! unat ?r + bit_len (unat ?r) = 8"
    using leadingZerosCount_table [of "unat (x XOR y)"] unat_byte_less [of "x XOR y"] by simp
  show ?case
  proof (cases "?r = 0")
    case True
    then show ?thesis using Cons.IH [of "v + 8"] lz by (simp add: Let_def add.assoc)
  next
    case False
    then have "0 < unat ?r" by (simp add: unat_gt_0)
    moreover have "be_num (map2 (XOR) xs ys) < 256 ^ length xs"
      using be_num_less [of "map2 (XOR) xs ys"] Cons.hyps by simp
    ultimately show ?thesis using False lz bit_len_shift Cons.hyps by (simp add: Let_def)
  qed
qed simp

text \<open>
  The logarithmic distance, computed with the table of leading zeros and an early exit, is the number of
  bits of the exclusive or of the two keys read as big-endian numbers.
\<close>

theorem log2_distance:
  assumes "\<forall>p. length (convert p) = 32"
  shows "computeDistanceLog2Based convert src dest =
    Some (int (bit_len (be_num (map2 (XOR) (convert src) (convert dest)))))"
  using log2_loop_spec [of "convert src" "convert dest" 0] assms
  by (auto simp: computeDistanceLog2Based_def)

theorem log2_distance_witness:
  "computeDistanceLog2Based pad_key ''a'' ''b'' =
     Some (int (bit_len (be_num (map2 (XOR) (pad_key ''a'') (pad_key ''b'')))))"
  by (rule log2_distance) simp

end
