(* ===== verification/Sharding.thy ===== *)
theory Sharding
  imports Kad_Distance
begin

text \<open>
  \<^verbatim>\<open>p2p/libp2p/networksharding\<close>: the sharders, which choose the connections to close when there are too
  many. \<^verbatim>\<open>listsSharder\<close> sorts the connected peers into six lists with a capacity each, \<^verbatim>\<open>oneListSharder\<close> has
  one list, \<^verbatim>\<open>nilListSharder\<close> never evicts; \<^verbatim>\<open>factory.NewSharder\<close> selects one of them.

  Arguments for code outside of the repository: \<open>srt\<close> (\<^verbatim>\<open>sort.Sort\<close>, with the contract of locale
  \<^verbatim>\<open>sorter\<close>), \<open>pretty\<close> (\<^verbatim>\<open>core.PeerID.Pretty\<close>), \<open>convert\<close> (\<^verbatim>\<open>kbucket.ConvertPeerID\<close>), and in the
  state the peer shard resolver and the holder of the preferred peers that the node injects.
\<close>

section \<open>State\<close>

datatype peer_type = UnknownPeer | ValidatorPeer | ObserverPeer | OtherPeerType nat

record PeerInfo =
  PeerType :: peer_type
  ShardID :: uint32

datatype peer_category =
    intraShardValidators | intraShardObservers | crossShardValidators | crossShardObservers
  | seedersList | unknownList

record listsSharder =
  peerShardResolver :: "peer_id \<Rightarrow> PeerInfo"
  ls_selfPeerId :: peer_id
  ls_maxPeerCount :: int
  maxIntraShardValidators :: int
  maxCrossShardValidators :: int
  maxIntraShardObservers :: int
  maxCrossShardObservers :: int
  maxSeeders :: int
  maxUnknown :: int
  ls_seeders :: "string list"
  ls_computeDistance :: "peer_id \<Rightarrow> peer_id \<Rightarrow> nat option"
  preferredContains :: "peer_id \<Rightarrow> bool"

record ShardingConfig =
  TargetPeerCount :: uint32
  cfg_MaxIntraShardValidators :: uint32
  cfg_MaxCrossShardValidators :: uint32
  cfg_MaxIntraShardObservers :: uint32
  cfg_MaxCrossShardObservers :: uint32
  cfg_MaxSeeders :: uint32
  ShardingType :: string

text \<open>\<^verbatim>\<open>ArgListsSharder\<close>; a \<^verbatim>\<open>nil\<close> interface is \<^const>\<open>None\<close>.\<close>

record ArgListsSharder =
  PeerResolver :: "(peer_id \<Rightarrow> PeerInfo) option"
  SelfPeerId :: peer_id
  P2pConfig :: ShardingConfig
  PreferredPeersHolder :: "(peer_id \<Rightarrow> bool) option"
  hasLogger :: bool

record peersConnections =
  pc_maxPeerCount :: int
  pc_intraShardValidators :: int
  pc_crossShardValidators :: int
  pc_intraShardObservers :: int
  pc_crossShardObservers :: int
  pc_seeders :: int
  pc_unknown :: int

section \<open>Construction\<close>

definition processNumConnections :: "ShardingConfig \<Rightarrow> p2p_error + peersConnections" where
  "processNumConnections cfg =
     (let pc = \<lparr>pc_maxPeerCount = uint (TargetPeerCount cfg),
                pc_intraShardValidators = uint (cfg_MaxIntraShardValidators cfg),
                pc_crossShardValidators = uint (cfg_MaxCrossShardValidators cfg),
                pc_intraShardObservers = uint (cfg_MaxIntraShardObservers cfg),
                pc_crossShardObservers = uint (cfg_MaxCrossShardObservers cfg),
                pc_seeders = uint (cfg_MaxSeeders cfg), pc_unknown = 0\<rparr>;
          providedPeers = pc_intraShardValidators pc + pc_crossShardValidators pc +
            pc_intraShardObservers pc + pc_crossShardObservers pc + pc_seeders pc
      in if providedPeers + 1 > pc_maxPeerCount pc then Inl ErrInvalidValue
         else Inr (pc\<lparr>pc_unknown := pc_maxPeerCount pc - providedPeers\<rparr>))"

definition NewListsSharder :: "(peer_id \<Rightarrow> bytes) \<Rightarrow> ArgListsSharder \<Rightarrow> p2p_error + listsSharder" where
  "NewListsSharder convert arg =
     (case PeerResolver arg of None \<Rightarrow> Inl ErrNilPeerShardResolver
      | Some resolver \<Rightarrow>
        if TargetPeerCount (P2pConfig arg) < 5 then Inl ErrInvalidValue
        else if cfg_MaxIntraShardValidators (P2pConfig arg) < 1 then Inl ErrInvalidValue
        else if cfg_MaxCrossShardValidators (P2pConfig arg) < 1 then Inl ErrInvalidValue
        else if cfg_MaxIntraShardObservers (P2pConfig arg) < 1 then Inl ErrInvalidValue
        else if cfg_MaxCrossShardObservers (P2pConfig arg) < 1 then Inl ErrInvalidValue
        else (case PreferredPeersHolder arg of None \<Rightarrow> Inl ErrNilPreferredPeersHolder
          | Some preferred \<Rightarrow>
            if \<not> hasLogger arg then Inl ErrNilLogger
            else (case processNumConnections (P2pConfig arg) of Inl e \<Rightarrow> Inl e
              | Inr pc \<Rightarrow> Inr
                  \<lparr>peerShardResolver = resolver, ls_selfPeerId = SelfPeerId arg,
                   ls_maxPeerCount = pc_maxPeerCount pc,
                   maxIntraShardValidators = pc_intraShardValidators pc,
                   maxCrossShardValidators = pc_crossShardValidators pc,
                   maxIntraShardObservers = pc_intraShardObservers pc,
                   maxCrossShardObservers = pc_crossShardObservers pc,
                   maxSeeders = pc_seeders pc, maxUnknown = pc_unknown pc,
                   ls_seeders = [], ls_computeDistance = computeDistanceByCountingBits convert,
                   preferredContains = preferred\<rparr>)))"

section \<open>Eviction\<close>

definition has :: "peer_id \<Rightarrow> peer_id list \<Rightarrow> bool" where
  "has pid list = list_ex (\<lambda>p. p = pid) list"

definition IsSeeder :: "(peer_id \<Rightarrow> string) \<Rightarrow> listsSharder \<Rightarrow> peer_id \<Rightarrow> bool" where
  "IsSeeder pretty ls pid = list_ex (\<lambda>seeder. str_contains seeder (pretty pid)) (ls_seeders ls)"

definition SetSeeders :: "listsSharder \<Rightarrow> string list \<Rightarrow> listsSharder" where
  "SetSeeders ls addresses = ls\<lparr>ls_seeders := addresses\<rparr>"

definition SetPeerShardResolver ::
    "listsSharder \<Rightarrow> (peer_id \<Rightarrow> PeerInfo) option \<Rightarrow> p2p_error option \<times> listsSharder" where
  "SetPeerShardResolver ls psp =
     (case psp of None \<Rightarrow> (Some ErrNilPeerShardResolver, ls)
      | Some r \<Rightarrow> (None, ls\<lparr>peerShardResolver := r\<rparr>))"

text \<open>The list that the body of the loop of \<^verbatim>\<open>splitPeerIds\<close> appends a peer to, if any.\<close>

definition categoryOf :: "(peer_id \<Rightarrow> string) \<Rightarrow> listsSharder \<Rightarrow> PeerInfo \<Rightarrow> peer_id \<Rightarrow> peer_category option" where
  "categoryOf pretty ls selfPeerInfo p =
     (if IsSeeder pretty ls p then Some seedersList
      else
        let peerInfo = peerShardResolver ls p in
        if preferredContains ls p then None
        else if PeerType peerInfo = UnknownPeer then Some unknownList
        else if ShardID peerInfo \<noteq> ShardID selfPeerInfo then
          (case PeerType peerInfo of ValidatorPeer \<Rightarrow> Some crossShardValidators
           | ObserverPeer \<Rightarrow> Some crossShardObservers | _ \<Rightarrow> None)
        else
          (case PeerType peerInfo of ValidatorPeer \<Rightarrow> Some intraShardValidators
           | ObserverPeer \<Rightarrow> Some intraShardObservers | _ \<Rightarrow> None))"

fun splitPeerIds_loop ::
    "(peer_id \<Rightarrow> string) \<Rightarrow> listsSharder \<Rightarrow> PeerInfo \<Rightarrow> peer_id list
     \<Rightarrow> (peer_category \<Rightarrow> PeerDistance list) \<Rightarrow> (peer_category \<Rightarrow> PeerDistance list) option" where
  "splitPeerIds_loop pretty ls self [] peerDistances = Some peerDistances"
| "splitPeerIds_loop pretty ls self (p # peers) peerDistances =
     (case ls_computeDistance ls p (ls_selfPeerId ls) of None \<Rightarrow> None
      | Some d \<Rightarrow>
        let pd = \<lparr>pd_ID = p, pd_Distance = d\<rparr> in
        splitPeerIds_loop pretty ls self peers
          (case categoryOf pretty ls self p of None \<Rightarrow> peerDistances
           | Some c \<Rightarrow> peerDistances(c := peerDistances c @ [pd])))"

definition splitPeerIds ::
    "(peer_id \<Rightarrow> string) \<Rightarrow> listsSharder \<Rightarrow> peer_id list \<Rightarrow> (peer_category \<Rightarrow> PeerDistance list) option" where
  "splitPeerIds pretty ls peers =
     splitPeerIds_loop pretty ls (peerShardResolver ls (ls_selfPeerId ls)) peers (\<lambda>_. [])"

definition computeUsedAndSpare :: "int \<Rightarrow> int \<Rightarrow> int \<times> int" where
  "computeUsedAndSpare existing maximum =
     (if existing < maximum then (existing, maximum - existing) else (maximum, 0))"

definition evict :: "(PeerDistance list \<Rightarrow> PeerDistance list) \<Rightarrow> PeerDistance list \<Rightarrow> int \<Rightarrow> peer_id list" where
  "evict srt distances numKeep =
     (let numKeep = (if numKeep < 0 then 0 else numKeep) in
      if numKeep \<ge> int (length distances) then []
      else map pd_ID (drop (nat numKeep) (srt distances)))"

text \<open>The numbers to keep, first part of \<^verbatim>\<open>ComputeEvictionList\<close>.\<close>

definition numKept :: "listsSharder \<Rightarrow> (peer_category \<Rightarrow> int) \<Rightarrow> peer_category \<Rightarrow> int" where
  "numKept ls existing =
     (let (numIntraShardValidators, remaining) =
            computeUsedAndSpare (existing intraShardValidators) (maxIntraShardValidators ls);
          (numCrossShardValidators, remaining) =
            computeUsedAndSpare (existing crossShardValidators) (maxCrossShardValidators ls + remaining);
          (numIntraShardObservers, remaining) =
            computeUsedAndSpare (existing intraShardObservers) (maxIntraShardObservers ls + remaining);
          (numCrossShardObservers, remaining) =
            computeUsedAndSpare (existing crossShardObservers) (maxCrossShardObservers ls + remaining);
          (numSeeders, _) = computeUsedAndSpare (existing seedersList) (maxSeeders ls);
          (numUnknown, _) = computeUsedAndSpare (existing unknownList) (maxUnknown ls + remaining)
      in (\<lambda>c. case c of intraShardValidators \<Rightarrow> numIntraShardValidators
           | crossShardValidators \<Rightarrow> numCrossShardValidators
           | intraShardObservers \<Rightarrow> numIntraShardObservers
           | crossShardObservers \<Rightarrow> numCrossShardObservers
           | seedersList \<Rightarrow> numSeeders | unknownList \<Rightarrow> numUnknown))"

definition ComputeEvictionList ::
    "(PeerDistance list \<Rightarrow> PeerDistance list) \<Rightarrow> (peer_id \<Rightarrow> string) \<Rightarrow> listsSharder \<Rightarrow> peer_id list
     \<Rightarrow> peer_id list option" where
  "ComputeEvictionList srt pretty ls pidList = do {
     peerDistances \<leftarrow> splitPeerIds pretty ls pidList;
     let num = numKept ls (\<lambda>c. int (length (peerDistances c)));
     Some (evict srt (peerDistances intraShardValidators) (num intraShardValidators) @
           evict srt (peerDistances crossShardValidators) (num crossShardValidators) @
           evict srt (peerDistances intraShardObservers) (num intraShardObservers) @
           evict srt (peerDistances crossShardObservers) (num crossShardObservers) @
           evict srt (peerDistances seedersList) (num seedersList) @
           evict srt (peerDistances unknownList) (num unknownList))
   }"

section \<open>The other sharders\<close>

record oneListSharder =
  ols_selfPeerId :: peer_id
  ols_maxPeerCount :: int
  ols_computeDistance :: "peer_id \<Rightarrow> peer_id \<Rightarrow> nat option"

definition NewOneListSharder :: "(peer_id \<Rightarrow> bytes) \<Rightarrow> peer_id \<Rightarrow> int \<Rightarrow> p2p_error + oneListSharder" where
  "NewOneListSharder convert selfPeerId maxPeerCount =
     (if maxPeerCount < 3 then Inl ErrInvalidValue
      else Inr \<lparr>ols_selfPeerId = selfPeerId, ols_maxPeerCount = maxPeerCount,
                ols_computeDistance = computeDistanceByCountingBits convert\<rparr>)"

fun convertList :: "oneListSharder \<Rightarrow> peer_id list \<Rightarrow> PeerDistance list option" where
  "convertList ols [] = Some []"
| "convertList ols (p # peers) = do {
     d \<leftarrow> ols_computeDistance ols p (ols_selfPeerId ols);
     rest \<leftarrow> convertList ols peers;
     Some (\<lparr>pd_ID = p, pd_Distance = d\<rparr> # rest)
   }"

definition OneList_ComputeEvictionList ::
    "(PeerDistance list \<Rightarrow> PeerDistance list) \<Rightarrow> oneListSharder \<Rightarrow> peer_id list \<Rightarrow> peer_id list option" where
  "OneList_ComputeEvictionList srt ols pidList = do {
     list \<leftarrow> convertList ols pidList;
     Some (evict srt list (ols_maxPeerCount ols))
   }"

definition NilList_ComputeEvictionList :: "peer_id list \<Rightarrow> peer_id list option" where
  "NilList_ComputeEvictionList pidList = Some []"

text \<open>A value of the interface \<^verbatim>\<open>p2p.Sharder\<close>, the factory that makes one, and the calls on it.\<close>

datatype sharder = Lists listsSharder | OneList oneListSharder | NilList

record ArgsSharderFactory =
  PeerShardResolver :: "(peer_id \<Rightarrow> PeerInfo) option"
  Pid :: peer_id
  f_P2pConfig :: ShardingConfig
  f_PreferredPeersHolder :: "(peer_id \<Rightarrow> bool) option"
  f_hasLogger :: bool

definition NewSharder :: "(peer_id \<Rightarrow> bytes) \<Rightarrow> ArgsSharderFactory \<Rightarrow> p2p_error + sharder" where
  "NewSharder convert arg =
     (if \<not> f_hasLogger arg then Inl ErrNilLogger
      else if ShardingType (f_P2pConfig arg) = ''ListsSharder'' then
        map_sum id Lists (NewListsSharder convert
          \<lparr>PeerResolver = PeerShardResolver arg, SelfPeerId = Pid arg, P2pConfig = f_P2pConfig arg,
           PreferredPeersHolder = f_PreferredPeersHolder arg, hasLogger = f_hasLogger arg\<rparr>)
      else if ShardingType (f_P2pConfig arg) = ''OneListSharder'' then
        map_sum id OneList (NewOneListSharder convert (Pid arg) (uint (TargetPeerCount (f_P2pConfig arg))))
      else if ShardingType (f_P2pConfig arg) = ''NilListSharder'' then Inr NilList
      else Inl ErrInvalidValue)"

definition sharder_ComputeEvictionList ::
    "(PeerDistance list \<Rightarrow> PeerDistance list) \<Rightarrow> (peer_id \<Rightarrow> string) \<Rightarrow> sharder \<Rightarrow> peer_id list
     \<Rightarrow> peer_id list option" where
  "sharder_ComputeEvictionList srt pretty s pidList =
     (case s of Lists ls \<Rightarrow> ComputeEvictionList srt pretty ls pidList
      | OneList ols \<Rightarrow> OneList_ComputeEvictionList srt ols pidList
      | NilList \<Rightarrow> NilList_ComputeEvictionList pidList)"

definition sharder_Has :: "sharder \<Rightarrow> peer_id \<Rightarrow> peer_id list \<Rightarrow> bool" where
  "sharder_Has s pid list = (case s of NilList \<Rightarrow> False | _ \<Rightarrow> has pid list)"

definition sharder_IsSeeder :: "(peer_id \<Rightarrow> string) \<Rightarrow> sharder \<Rightarrow> peer_id \<Rightarrow> bool" where
  "sharder_IsSeeder pretty s pid = (case s of Lists ls \<Rightarrow> IsSeeder pretty ls pid | _ \<Rightarrow> False)"

definition sharder_SetSeeders :: "sharder \<Rightarrow> string list \<Rightarrow> sharder" where
  "sharder_SetSeeders s addresses = (case s of Lists ls \<Rightarrow> Lists (SetSeeders ls addresses) | _ \<Rightarrow> s)"

definition sharder_SetPeerShardResolver ::
    "sharder \<Rightarrow> (peer_id \<Rightarrow> PeerInfo) option \<Rightarrow> p2p_error option \<times> sharder" where
  "sharder_SetPeerShardResolver s psp =
     (case s of Lists ls \<Rightarrow> map_prod id Lists (SetPeerShardResolver ls psp) | _ \<Rightarrow> (None, s))"

section \<open>Evicting from one list\<close>

locale pd_sorter = sorter pd_Distance srt
  for srt :: "PeerDistance list \<Rightarrow> PeerDistance list"
begin

lemma evict_alt: "evict srt xs n = map pd_ID (drop (nat n) (srt xs))"
  by (auto simp: evict_def Let_def)

lemma evict_length: "length (evict srt xs n) = length xs - nat n"
  by (simp add: evict_alt)

lemma evict_mset: "mset (evict srt xs n) \<subseteq># image_mset pd_ID (mset xs)"
proof -
  have "mset (drop (nat n) (srt xs)) \<subseteq># mset (take (nat n) (srt xs) @ drop (nat n) (srt xs))"
    unfolding mset_append by simp
  also have "mset (take (nat n) (srt xs) @ drop (nat n) (srt xs)) = mset xs"
    by (simp only: append_take_drop_id srt_mset)
  finally have "mset (drop (nat n) (srt xs)) \<subseteq># mset xs" .
  then show ?thesis using image_mset_subseteq_mono by (fastforce simp: evict_alt)
qed

lemma evict_nearest:
  assumes "p \<in> set (evict srt (map mk ps) n)" and "q \<in> set ps" and "q \<notin> set (evict srt (map mk ps) n)"
    and mk: "\<And>p. pd_ID (mk p) = p"
  shows "pd_Distance (mk q) \<le> pd_Distance (mk p)"
proof -
  let ?s = "srt (map mk ps)"
  have split: "set ?s = set (take (nat n) ?s) \<union> set (drop (nat n) ?s)"
    by (metis append_take_drop_id set_append)
  have s: "set ?s = mk ` set ps" by simp
  from assms(1) obtain x where x: "x \<in> set (drop (nat n) ?s)" "p = pd_ID x"
    by (auto simp: evict_alt)
  then have "x \<in> mk ` set ps" using s split by blast
  then have "x = mk p" using mk x(2) by auto
  have "mk q \<in> set ?s" using assms(2) s by simp
  moreover have "mk q \<notin> set (drop (nat n) ?s)"
    using assms(3) mk imageI [of "mk q" _ pd_ID] by (auto simp: evict_alt)
  ultimately have "mk q \<in> set (take (nat n) ?s)" using split by auto
  with x(1) \<open>x = mk p\<close> show ?thesis using take_before_drop by blast
qed

end

interpretation pd_ins: pd_sorter "insertionSort pd_Distance"
  by unfold_locales

section \<open>The lists of the lists sharder\<close>

definition cat :: "(peer_id \<Rightarrow> string) \<Rightarrow> listsSharder \<Rightarrow> peer_id \<Rightarrow> peer_category option" where
  "cat pretty ls p = categoryOf pretty ls (peerShardResolver ls (ls_selfPeerId ls)) p"

text \<open>The peers of one list.\<close>

definition members :: "(peer_id \<Rightarrow> string) \<Rightarrow> listsSharder \<Rightarrow> peer_category \<Rightarrow> peer_id list \<Rightarrow> peer_id list" where
  "members pretty ls c ps = filter (\<lambda>p. cat pretty ls p = Some c) ps"

text \<open>The distance function gives a value for every peer, as it does for keys of equal length.\<close>

definition distances_total :: "listsSharder \<Rightarrow> bool" where
  "distances_total ls \<longleftrightarrow> (\<forall>p. ls_computeDistance ls p (ls_selfPeerId ls) \<noteq> None)"

definition self_distance :: "listsSharder \<Rightarrow> peer_id \<Rightarrow> nat" where
  "self_distance ls p = the (ls_computeDistance ls p (ls_selfPeerId ls))"

definition mk_pd :: "listsSharder \<Rightarrow> peer_id \<Rightarrow> PeerDistance" where
  "mk_pd ls p = \<lparr>pd_ID = p, pd_Distance = self_distance ls p\<rparr>"

lemma mk_pd_sel [simp]: "pd_ID (mk_pd ls p) = p" "pd_Distance (mk_pd ls p) = self_distance ls p"
  by (simp_all add: mk_pd_def)

lemma splitPeerIds_loop_spec:
  assumes "distances_total ls"
  shows "splitPeerIds_loop pretty ls (peerShardResolver ls (ls_selfPeerId ls)) ps m =
    Some (\<lambda>c. m c @ map (mk_pd ls) (members pretty ls c ps))"
proof (induction ps arbitrary: m)
  case (Cons p ps)
  obtain d where d: "ls_computeDistance ls p (ls_selfPeerId ls) = Some d"
    using assms by (auto simp: distances_total_def)
  then have "mk_pd ls p = \<lparr>pd_ID = p, pd_Distance = d\<rparr>" by (simp add: mk_pd_def self_distance_def)
  then show ?case
    using Cons.IH d by (auto simp: members_def cat_def fun_eq_iff split: option.splits)
qed (simp add: members_def)

lemma splitPeerIds_spec:
  "distances_total ls \<Longrightarrow>
   splitPeerIds pretty ls ps = Some (\<lambda>c. map (mk_pd ls) (members pretty ls c ps))"
  by (simp add: splitPeerIds_def splitPeerIds_loop_spec)

section \<open>How many are kept\<close>

definition ls_max :: "listsSharder \<Rightarrow> peer_category \<Rightarrow> int" where
  "ls_max ls c =
     (case c of intraShardValidators \<Rightarrow> maxIntraShardValidators ls
      | crossShardValidators \<Rightarrow> maxCrossShardValidators ls
      | intraShardObservers \<Rightarrow> maxIntraShardObservers ls
      | crossShardObservers \<Rightarrow> maxCrossShardObservers ls
      | seedersList \<Rightarrow> maxSeeders ls | unknownList \<Rightarrow> maxUnknown ls)"

definition categories :: "peer_category list" where
  "categories = [intraShardValidators, crossShardValidators, intraShardObservers, crossShardObservers,
     seedersList, unknownList]"

lemma set_categories [simp]: "set categories = UNIV" and distinct_categories [simp]: "distinct categories"
  by (auto simp: categories_def intro: peer_category.exhaust)

text \<open>What a sharder that was built by \<^verbatim>\<open>NewListsSharder\<close> satisfies.\<close>

definition lists_wf :: "listsSharder \<Rightarrow> bool" where
  "lists_wf ls \<longleftrightarrow> (\<forall>c. 0 \<le> ls_max ls c) \<and> (\<Sum>c\<leftarrow>categories. ls_max ls c) = ls_maxPeerCount ls"

lemma lists_wfD:
  assumes "lists_wf ls"
  shows "0 \<le> maxIntraShardValidators ls" "0 \<le> maxCrossShardValidators ls" "0 \<le> maxIntraShardObservers ls"
    "0 \<le> maxCrossShardObservers ls" "0 \<le> maxSeeders ls" "0 \<le> maxUnknown ls"
    "maxIntraShardValidators ls + maxCrossShardValidators ls + maxIntraShardObservers ls +
     maxCrossShardObservers ls + maxSeeders ls + maxUnknown ls = ls_maxPeerCount ls"
proof -
  have nn: "0 \<le> ls_max ls c" for c using assms by (simp add: lists_wf_def)
  show "0 \<le> maxIntraShardValidators ls" "0 \<le> maxCrossShardValidators ls" "0 \<le> maxIntraShardObservers ls"
    "0 \<le> maxCrossShardObservers ls" "0 \<le> maxSeeders ls" "0 \<le> maxUnknown ls"
    using nn [of intraShardValidators] nn [of crossShardValidators] nn [of intraShardObservers]
      nn [of crossShardObservers] nn [of seedersList] nn [of unknownList]
    by (simp_all add: ls_max_def)
  show "maxIntraShardValidators ls + maxCrossShardValidators ls + maxIntraShardObservers ls +
     maxCrossShardObservers ls + maxSeeders ls + maxUnknown ls = ls_maxPeerCount ls"
    using assms by (simp add: lists_wf_def categories_def ls_max_def)
qed

lemma computeUsedAndSpare_facts:
  "computeUsedAndSpare e m = (a, r) \<Longrightarrow> a + r = m \<and> 0 \<le> r \<and> a \<le> e \<and> min e m \<le> a"
  by (auto simp: computeUsedAndSpare_def split: if_splits)

text \<open>The chain of spare capacities, unfolded once.\<close>

lemma numKept_chain:
  obtains r1 r2 r3 r4 r5 r6 where
    "numKept ls e intraShardValidators + r1 = maxIntraShardValidators ls"
    "numKept ls e crossShardValidators + r2 = maxCrossShardValidators ls + r1"
    "numKept ls e intraShardObservers + r3 = maxIntraShardObservers ls + r2"
    "numKept ls e crossShardObservers + r4 = maxCrossShardObservers ls + r3"
    "numKept ls e seedersList + r5 = maxSeeders ls"
    "numKept ls e unknownList + r6 = maxUnknown ls + r4"
    "0 \<le> r1" "0 \<le> r2" "0 \<le> r3" "0 \<le> r4" "0 \<le> r5" "0 \<le> r6"
    "\<And>c. numKept ls e c \<le> e c" "\<And>c. min (e c) (ls_max ls c) \<le> numKept ls e c"
proof -
  obtain a1 r1 where 1: "computeUsedAndSpare (e intraShardValidators) (maxIntraShardValidators ls) = (a1, r1)"
    by fastforce
  obtain a2 r2 where 2: "computeUsedAndSpare (e crossShardValidators) (maxCrossShardValidators ls + r1) = (a2, r2)"
    by fastforce
  obtain a3 r3 where 3: "computeUsedAndSpare (e intraShardObservers) (maxIntraShardObservers ls + r2) = (a3, r3)"
    by fastforce
  obtain a4 r4 where 4: "computeUsedAndSpare (e crossShardObservers) (maxCrossShardObservers ls + r3) = (a4, r4)"
    by fastforce
  obtain a5 r5 where 5: "computeUsedAndSpare (e seedersList) (maxSeeders ls) = (a5, r5)"
    by fastforce
  obtain a6 r6 where 6: "computeUsedAndSpare (e unknownList) (maxUnknown ls + r4) = (a6, r6)"
    by fastforce
  note f = computeUsedAndSpare_facts [OF 1] computeUsedAndSpare_facts [OF 2] computeUsedAndSpare_facts [OF 3]
    computeUsedAndSpare_facts [OF 4] computeUsedAndSpare_facts [OF 5] computeUsedAndSpare_facts [OF 6]
  have k: "numKept ls e = (\<lambda>c. case c of intraShardValidators \<Rightarrow> a1 | crossShardValidators \<Rightarrow> a2
      | intraShardObservers \<Rightarrow> a3 | crossShardObservers \<Rightarrow> a4 | seedersList \<Rightarrow> a5 | unknownList \<Rightarrow> a6)"
    by (simp add: numKept_def 1 2 3 4 5 6)
  have le: "numKept ls e c \<le> e c" for c using f by (cases c) (simp_all add: k)
  have mn: "min (e c) (ls_max ls c) \<le> numKept ls e c" for c
    using f by (cases c) (auto simp: k ls_max_def min_le_iff_disj)
  show thesis using f by (intro that [of r1 r2 r3 r4 r5 r6] le mn) (simp_all add: k)
qed

lemma numKept_bounds:
  assumes "lists_wf ls" and "0 \<le> existing c"
  shows "min (existing c) (ls_max ls c) \<le> numKept ls existing c" and "0 \<le> numKept ls existing c"
    and "numKept ls existing c \<le> existing c" and "numKept ls existing seedersList \<le> maxSeeders ls"
proof -
  have nn: "0 \<le> ls_max ls c" using assms(1) by (simp add: lists_wf_def)
  have "min (existing c) (ls_max ls c) \<le> numKept ls existing c \<and>
      numKept ls existing c \<le> existing c \<and> numKept ls existing seedersList \<le> maxSeeders ls"
    by (rule numKept_chain [of ls existing]) simp
  then show "min (existing c) (ls_max ls c) \<le> numKept ls existing c" "0 \<le> numKept ls existing c"
    "numKept ls existing c \<le> existing c" "numKept ls existing seedersList \<le> maxSeeders ls"
    using assms(2) nn by linarith+
qed

lemma numKept_sum:
  assumes "lists_wf ls"
  shows "(\<Sum>c\<leftarrow>categories. numKept ls existing c) \<le> ls_maxPeerCount ls"
  using lists_wfD(7) [OF assms]
  by (rule_tac numKept_chain [of ls existing]) (simp add: categories_def)

section \<open>The eviction list\<close>

definition evicted_of ::
    "(PeerDistance list \<Rightarrow> PeerDistance list) \<Rightarrow> (peer_id \<Rightarrow> string) \<Rightarrow> listsSharder \<Rightarrow> peer_id list
     \<Rightarrow> peer_category \<Rightarrow> peer_id list" where
  "evicted_of srt pretty ls ps c =
     evict srt (map (mk_pd ls) (members pretty ls c ps))
       (numKept ls (\<lambda>c. int (length (members pretty ls c ps))) c)"

lemma ComputeEvictionList_concat:
  "distances_total ls \<Longrightarrow>
   ComputeEvictionList srt pretty ls ps = Some (concat (map (evicted_of srt pretty ls ps) categories))"
  by (simp add: ComputeEvictionList_def splitPeerIds_spec evicted_of_def categories_def Let_def)

lemma members_concat:
  assumes "\<And>c p. p \<in> set (f c) \<Longrightarrow> cat pretty ls p = Some c" and "distinct cs"
  shows "members pretty ls c (concat (map f cs)) = (if c \<in> set cs then f c else [])"
  using assms(2)
proof (induction cs)
  case (Cons c' cs)
  have "members pretty ls c (f c') = (if c = c' then f c' else [])"
    using assms(1) by (auto simp: members_def filter_id_conv filter_empty_conv)
  then show ?case using Cons by (auto simp: members_def)
qed (simp add: members_def)

lemma count_members: "cat pretty ls p = Some c \<Longrightarrow>
    count (mset (members pretty ls c ps)) p = count (mset ps) p"
  by (simp add: members_def)

lemma length_members_sum:
  "length (filter (\<lambda>p. cat pretty ls p \<noteq> None) ps) = (\<Sum>c\<leftarrow>categories. length (members pretty ls c ps))"
proof (induction ps)
  case (Cons p ps)
  show ?case
  proof (cases "cat pretty ls p")
    case None
    then show ?thesis using Cons by (simp add: members_def)
  next
    case (Some c)
    then show ?thesis using Cons by (cases c) (simp_all add: members_def categories_def)
  qed
qed (simp add: members_def categories_def)

context pd_sorter
begin

lemma evicted_of_subset: "mset (evicted_of srt pretty ls ps c) \<subseteq># mset (members pretty ls c ps)"
  using evict_mset [of "map (mk_pd ls) (members pretty ls c ps)"]
  by (simp add: evicted_of_def multiset.map_comp comp_def)

lemma evicted_of_cat: "p \<in> set (evicted_of srt pretty ls ps c) \<Longrightarrow> cat pretty ls p = Some c"
  using evicted_of_subset [of pretty ls ps c]
  by (auto simp: members_def dest: mset_subset_eqD)

lemma members_evicted:
  "members pretty ls c (concat (map (evicted_of srt pretty ls ps) categories)) = evicted_of srt pretty ls ps c"
  using members_concat [where f = "evicted_of srt pretty ls ps", OF evicted_of_cat distinct_categories] by simp

lemma evicted_cat:
  "p \<in> set (concat (map (evicted_of srt pretty ls ps) categories)) \<Longrightarrow>
   \<exists>c. cat pretty ls p = Some c \<and> p \<in> set (evicted_of srt pretty ls ps c)"
  using evicted_of_cat by auto

lemma evicted_mset: "mset (concat (map (evicted_of srt pretty ls ps) categories)) \<subseteq># mset ps"
proof (rule mset_subset_eqI)
  fix p
  let ?ev = "concat (map (evicted_of srt pretty ls ps) categories)"
  show "count (mset ?ev) p \<le> count (mset ps) p"
  proof (cases "cat pretty ls p")
    case None
    then have "p \<notin> set ?ev" using evicted_cat by fastforce
    then have "count (mset ?ev) p = 0" by (metis count_mset_0_iff)
    then show ?thesis by linarith
  next
    case (Some c)
    then have "count (mset ?ev) p = count (mset (evicted_of srt pretty ls ps c)) p"
      by (metis count_members members_evicted)
    also have "\<dots> \<le> count (mset (members pretty ls c ps)) p"
      using evicted_of_subset by (rule mset_subset_eq_count)
    finally show ?thesis using Some by (simp add: count_members)
  qed
qed

lemma evicted_kept:
  assumes "lists_wf ls"
  shows "int (length (members pretty ls c ps)) - int (length (evicted_of srt pretty ls ps c)) =
    numKept ls (\<lambda>c. int (length (members pretty ls c ps))) c"
  using numKept_bounds(2,3) [OF assms, of "\<lambda>c. int (length (members pretty ls c ps))" c]
  by (simp add: evicted_of_def evict_length)

lemma kept_total:
  assumes "lists_wf ls"
  shows "int (length (filter (\<lambda>p. cat pretty ls p \<noteq> None) ps)) -
      int (length (concat (map (evicted_of srt pretty ls ps) categories))) \<le> ls_maxPeerCount ls"
proof -
  note k = evicted_kept [OF assms, of pretty _ ps]
  show ?thesis
    using numKept_sum [OF assms, of "\<lambda>c. int (length (members pretty ls c ps))"]
      k [of intraShardValidators] k [of crossShardValidators] k [of intraShardObservers]
      k [of crossShardObservers] k [of seedersList] k [of unknownList]
    unfolding length_members_sum by (simp add: categories_def)
qed

end

section \<open>A sharder from the constructor\<close>

lemma NewListsSharder_wf:
  assumes "NewListsSharder convert arg = Inr ls"
  shows "lists_wf ls" and "ls_maxPeerCount ls = uint (TargetPeerCount (P2pConfig arg))"
    and "\<And>c. c \<noteq> seedersList \<Longrightarrow> 1 \<le> ls_max ls c"
proof -
  have pos: "1 \<le> uint w" if "\<not> w < (1 :: uint32)" for w
    using that by (simp add: word_less_def)
  from assms show "lists_wf ls" "ls_maxPeerCount ls = uint (TargetPeerCount (P2pConfig arg))"
    by (auto simp: NewListsSharder_def processNumConnections_def lists_wf_def ls_max_def categories_def
        Let_def split: option.splits if_splits peer_category.splits)
  fix c
  assume "c \<noteq> seedersList"
  with assms pos show "1 \<le> ls_max ls c"
    by (cases c) (auto simp: NewListsSharder_def processNumConnections_def ls_max_def Let_def
        split: option.splits if_splits)
qed

lemma NewListsSharder_total:
  assumes "NewListsSharder convert arg = Inr ls" and "\<forall>p. length (convert p) = 32"
  shows "distances_total ls"
  using assms
  by (auto simp: NewListsSharder_def distances_total_def computeDistanceByCountingBits_def
      countBits_loop_hamming Let_def split: option.splits if_splits sum.splits)

definition example_info :: "peer_id \<Rightarrow> PeerInfo" where
  "example_info p = \<lparr>PeerType = (if p = ''u'' then UnknownPeer else ValidatorPeer), ShardID = 0\<rparr>"

definition example_arg :: ArgListsSharder where
  "example_arg =
     \<lparr>PeerResolver = Some example_info, SelfPeerId = ''a'',
      P2pConfig = \<lparr>TargetPeerCount = 5, cfg_MaxIntraShardValidators = 1, cfg_MaxCrossShardValidators = 1,
        cfg_MaxIntraShardObservers = 1, cfg_MaxCrossShardObservers = 1, cfg_MaxSeeders = 0,
        ShardingType = ''ListsSharder''\<rparr>,
      PreferredPeersHolder = Some (\<lambda>p. p = ''d''), hasLogger = True\<rparr>"

definition example_sharder :: listsSharder where
  "example_sharder =
     \<lparr>peerShardResolver = example_info, ls_selfPeerId = ''a'', ls_maxPeerCount = 5,
      maxIntraShardValidators = 1, maxCrossShardValidators = 1, maxIntraShardObservers = 1,
      maxCrossShardObservers = 1, maxSeeders = 0, maxUnknown = 1, ls_seeders = [],
      ls_computeDistance = computeDistanceByCountingBits pad_key, preferredContains = (\<lambda>p. p = ''d'')\<rparr>"

lemma example_new: "NewListsSharder pad_key example_arg = Inr example_sharder"
  by (simp add: NewListsSharder_def example_arg_def processNumConnections_def example_sharder_def
      word_less_def Let_def)

lemma example_evicts:
  "ComputeEvictionList (insertionSort pd_Distance) id example_sharder
     [''b'', ''c'', ''d'', ''u'', ''v''] = Some [''b'', ''v'']"
  by code_simp

text \<open>The facts that the connection monitor uses.\<close>

lemma lists_evicted_subset:
  assumes "pd_sorter srt" and "lists_wf ls" and "distances_total ls"
  shows "\<exists>ev. ComputeEvictionList srt pretty ls ps = Some ev \<and> mset ev \<subseteq># mset ps"
  using ComputeEvictionList_concat [OF assms(3)] pd_sorter.evicted_mset [OF assms(1)] by metis

lemma lists_evicted_cat:
  assumes "pd_sorter srt" and "distances_total ls" and "ComputeEvictionList srt pretty ls ps = Some ev"
    and "p \<in> set ev"
  shows "\<exists>c. cat pretty ls p = Some c \<and> p \<in> set (evicted_of srt pretty ls ps c)"
  using pd_sorter.evicted_cat [OF assms(1)] ComputeEvictionList_concat [OF assms(2)] assms(3,4)
  by (metis option.inject)

lemma lists_preferred_kept:
  assumes "pd_sorter srt" and "distances_total ls" and "ComputeEvictionList srt pretty ls ps = Some ev"
    and "p \<in> set ev" and "preferredContains ls p"
  shows "IsSeeder pretty ls p"
  using lists_evicted_cat [OF assms(1-4)] assms(5)
  by (auto simp: cat_def categoryOf_def Let_def split: if_splits)

section \<open>Properties\<close>

text \<open>
  C9. Limits of the lists sharder, with any sorting function that satisfies the library's contract: the
  eviction list is computed, takes peers from the given connections only, leaves at most the target number of
  connections besides the exempted ones (peers that belong to no list), leaves at most \<^verbatim>\<open>maxSeeders\<close>
  seeders, and never cuts a list below its configured capacity, whatever the other lists hold.
\<close>

theorem lists_sharder_limits:
  assumes "pd_sorter srt" and "lists_wf ls" and "distances_total ls"
  shows "\<exists>ev. ComputeEvictionList srt pretty ls ps = Some ev \<and> mset ev \<subseteq># mset ps \<and>
    int (length (filter (\<lambda>p. cat pretty ls p \<noteq> None) ps)) - int (length ev) \<le> ls_maxPeerCount ls \<and>
    int (length (members pretty ls seedersList ps)) - int (length (members pretty ls seedersList ev))
      \<le> maxSeeders ls \<and>
    (\<forall>c. min (int (length (members pretty ls c ps))) (ls_max ls c) \<le>
      int (length (members pretty ls c ps)) - int (length (members pretty ls c ev)))"
proof (intro exI conjI allI)
  let ?ev = "concat (map (evicted_of srt pretty ls ps) categories)"
  note rules = pd_sorter.members_evicted [OF assms(1)] pd_sorter.evicted_kept [OF assms(1,2)]
  note bounds = numKept_bounds [OF assms(2), of "\<lambda>c. int (length (members pretty ls c ps))"]
  show "ComputeEvictionList srt pretty ls ps = Some ?ev" using assms(3) by (rule ComputeEvictionList_concat)
  show "mset ?ev \<subseteq># mset ps" by (rule pd_sorter.evicted_mset [OF assms(1)])
  show "int (length (filter (\<lambda>p. cat pretty ls p \<noteq> None) ps)) - int (length ?ev) \<le> ls_maxPeerCount ls"
    by (rule pd_sorter.kept_total [OF assms(1,2)])
  show "int (length (members pretty ls seedersList ps)) - int (length (members pretty ls seedersList ?ev))
      \<le> maxSeeders ls"
    unfolding rules by (rule bounds(4)) simp
  show "min (int (length (members pretty ls c ps))) (ls_max ls c) \<le>
      int (length (members pretty ls c ps)) - int (length (members pretty ls c ?ev))" for c
    unfolding rules by (rule bounds(1)) simp
qed

theorem lists_sharder_limits_witness:
  "\<exists>ev. ComputeEvictionList (insertionSort pd_Distance) id example_sharder [''b'', ''c'', ''d'', ''u'', ''v'']
      = Some ev \<and> mset ev \<subseteq># mset [''b'', ''c'', ''d'', ''u'', ''v''] \<and>
    int (length (filter (\<lambda>p. cat id example_sharder p \<noteq> None) [''b'', ''c'', ''d'', ''u'', ''v''])) -
      int (length ev) \<le> 5"
  using lists_sharder_limits [OF pd_ins.pd_sorter_axioms NewListsSharder_wf(1) [OF example_new]
      NewListsSharder_total [OF example_new], of id "[''b'', ''c'', ''d'', ''u'', ''v'']"]
  by (auto simp: example_sharder_def)



text \<open>
  What the constructor of the lists sharder guarantees: the capacities are not negative and add up to the
  target peer count, every list but the seeders has room for at least one peer, unknown peers included, and
  with keys of equal length the distances are defined.
\<close>

theorem lists_sharder_constructor:
  assumes "NewListsSharder convert arg = Inr ls"
  shows "lists_wf ls \<and> (\<forall>c. c \<noteq> seedersList \<longrightarrow> 1 \<le> ls_max ls c) \<and>
    ls_maxPeerCount ls = uint (TargetPeerCount (P2pConfig arg)) \<and>
    ((\<forall>p. length (convert p) = 32) \<longrightarrow> distances_total ls)"
  using NewListsSharder_wf [OF assms] NewListsSharder_total [OF assms] by blast

theorem lists_sharder_constructor_witness: "lists_wf example_sharder \<and> distances_total example_sharder"
  using lists_sharder_constructor [OF example_new] by simp

section \<open>The one list sharder\<close>

lemma convertList_spec:
  assumes "\<And>p. ols_computeDistance ols p (ols_selfPeerId ols) = Some (d p)"
  shows "convertList ols ps = Some (map (\<lambda>p. \<lparr>pd_ID = p, pd_Distance = d p\<rparr>) ps)"
  by (induction ps) (auto simp: assms)

text \<open>
  The one list sharder keeps the \<^verbatim>\<open>maxPeerCount\<close> nearest peers (all of them when there are fewer) and evicts
  the others.
\<close>

theorem one_list_sharder:
  assumes "pd_sorter srt" and "NewOneListSharder convert self m = Inr ols"
    and "\<forall>p. length (convert p) = 32"
  shows "\<exists>ev. OneList_ComputeEvictionList srt ols ps = Some ev \<and> mset ev \<subseteq># mset ps \<and>
    length ev = length ps - nat m \<and>
    (\<forall>p \<in> set ev. \<forall>q \<in> set ps. q \<notin> set ev \<longrightarrow>
      hamming (convert q) (convert self) \<le> hamming (convert p) (convert self))"
proof -
  let ?mk = "\<lambda>p. \<lparr>pd_ID = p, pd_Distance = hamming (convert p) (convert self)\<rparr>"
  let ?ev = "evict srt (map ?mk ps) m"
  have "ols = \<lparr>ols_selfPeerId = self, ols_maxPeerCount = m,
      ols_computeDistance = computeDistanceByCountingBits convert\<rparr>"
    using assms(2) by (simp add: NewOneListSharder_def split: if_splits)
  then have "OneList_ComputeEvictionList srt ols ps = Some ?ev"
    using convertList_spec [of ols "\<lambda>p. hamming (convert p) (convert self)" ps] assms(3)
    by (simp add: OneList_ComputeEvictionList_def computeDistanceByCountingBits_def countBits_loop_hamming)
  moreover have "mset ?ev \<subseteq># mset ps"
    using pd_sorter.evict_mset [OF assms(1), of "map ?mk ps" m] by (simp add: multiset.map_comp comp_def)
  moreover have "length ?ev = length ps - nat m"
    using pd_sorter.evict_length [OF assms(1)] by simp
  moreover have "\<forall>p \<in> set ?ev. \<forall>q \<in> set ps. q \<notin> set ?ev \<longrightarrow>
      hamming (convert q) (convert self) \<le> hamming (convert p) (convert self)"
    using pd_sorter.evict_nearest [OF assms(1), of _ ?mk ps m] by simp
  ultimately show ?thesis by blast
qed

theorem one_list_sharder_witness:
  "\<exists>ev. OneList_ComputeEvictionList (insertionSort pd_Distance)
      \<lparr>ols_selfPeerId = ''a'', ols_maxPeerCount = 3,
       ols_computeDistance = computeDistanceByCountingBits pad_key\<rparr> [''b'', ''c'', ''d'', ''e'', ''f''] = Some ev
     \<and> length ev = 2"
proof -
  have "NewOneListSharder pad_key ''a'' 3 = Inr \<lparr>ols_selfPeerId = ''a'', ols_maxPeerCount = 3,
      ols_computeDistance = computeDistanceByCountingBits pad_key\<rparr>"
    by (simp add: NewOneListSharder_def)
  from one_list_sharder [OF pd_ins.pd_sorter_axioms this, of "[''b'', ''c'', ''d'', ''e'', ''f'']"]
  show ?thesis by auto
qed

end
