(* ===== verification/Peers_Holder.thy ===== *)
theory Peers_Holder
  imports Prelude
begin

text \<open>
  \<^verbatim>\<open>p2p/peersHolder\<close>: the preferred peers, found by the address of their connection and grouped by shard.
  The validator of the configured addresses calls \<^verbatim>\<open>net.ParseIP\<close> and \<^verbatim>\<open>core.NewPeerID\<close>, which are arguments;
  so is the constant \<^verbatim>\<open>core.AllShardId\<close>, the shard of a peer that has none yet.

  A map is a partial function; a \<^verbatim>\<open>nil\<close> slice is the empty list (the code stores no other empty slice). The
  pointers to \<^verbatim>\<open>peerInfo\<close> are each held in one slice, so writing through one is an update of that slice.
\<close>

section \<open>State and operations\<close>

record peerInfo =
  pid :: peer_id
  pi_shardID :: uint32

record peerIDData =
  connectionAddress :: string
  shardID :: uint32
  index :: nat

record peersHolder =
  preferredConnAddresses :: "string list"
  connAddrToPeersInfo :: "string \<rightharpoonup> peerInfo list"
  tempPeerIDsWaitingForShard :: "peer_id \<rightharpoonup> string"
  peerIDsPerShard :: "uint32 \<rightharpoonup> peer_id list"
  peerIDs :: "peer_id \<rightharpoonup> peerIDData"

definition IsValid :: "(string \<Rightarrow> bool) \<Rightarrow> (string \<Rightarrow> bool) \<Rightarrow> string \<Rightarrow> bool" where
  "IsValid parseIP newPeerID connStr = (parseIP connStr \<or> newPeerID connStr)"

fun NewPeersHolder_loop ::
    "(string \<Rightarrow> bool) \<Rightarrow> string list \<Rightarrow> peersHolder \<Rightarrow> p2p_error + peersHolder" where
  "NewPeersHolder_loop valid [] ph = Inr ph"
| "NewPeersHolder_loop valid (connAddr # rest) ph =
     (if \<not> valid connAddr then Inl ErrInvalidValue
      else NewPeersHolder_loop valid rest
        (ph\<lparr>preferredConnAddresses := preferredConnAddresses ph @ [connAddr],
            connAddrToPeersInfo := (connAddrToPeersInfo ph)(connAddr \<mapsto> [])\<rparr>))"

definition NewPeersHolder ::
    "(string \<Rightarrow> bool) \<Rightarrow> (string \<Rightarrow> bool) \<Rightarrow> string list \<Rightarrow> p2p_error + peersHolder" where
  "NewPeersHolder parseIP newPeerID addresses =
     NewPeersHolder_loop (IsValid parseIP newPeerID) addresses
       \<lparr>preferredConnAddresses = [], connAddrToPeersInfo = Map.empty,
        tempPeerIDsWaitingForShard = Map.empty, peerIDsPerShard = Map.empty, peerIDs = Map.empty\<rparr>"

fun knownConnection_loop :: "string list \<Rightarrow> string \<Rightarrow> string" where
  "knownConnection_loop [] addr = []"
| "knownConnection_loop (preferredConnAddr # rest) addr =
     (if str_contains addr preferredConnAddr then preferredConnAddr else knownConnection_loop rest addr)"

definition getKnownConnection :: "peersHolder \<Rightarrow> string \<Rightarrow> string" where
  "getKnownConnection ph addr = knownConnection_loop (preferredConnAddresses ph) addr"

text \<open>\<^verbatim>\<open>m[k]\<close> on a map of slices.\<close>

definition slice_at :: "('k \<rightharpoonup> 'v list) \<Rightarrow> 'k \<Rightarrow> 'v list" where
  "slice_at m k = (case m k of None \<Rightarrow> [] | Some l \<Rightarrow> l)"

fun getPeerInfoForPeerID :: "peer_id \<Rightarrow> peerInfo list \<Rightarrow> peerInfo option" where
  "getPeerInfoForPeerID p [] = None"
| "getPeerInfoForPeerID p (i # is) = (if p = pid i then Some i else getPeerInfoForPeerID p is)"

definition addNewPeerInfoToMaps :: "uint32 \<Rightarrow> peersHolder \<Rightarrow> peer_id \<Rightarrow> string \<Rightarrow> peersHolder" where
  "addNewPeerInfoToMaps allShardId ph p known =
     ph\<lparr>tempPeerIDsWaitingForShard := (tempPeerIDsWaitingForShard ph)(p \<mapsto> known),
        connAddrToPeersInfo := (connAddrToPeersInfo ph)
          (known \<mapsto> slice_at (connAddrToPeersInfo ph) known @ [\<lparr>pid = p, pi_shardID = allShardId\<rparr>])\<rparr>"

definition PutConnectionAddress :: "uint32 \<Rightarrow> peersHolder \<Rightarrow> peer_id \<Rightarrow> string \<Rightarrow> peersHolder" where
  "PutConnectionAddress allShardId ph p addr =
     (let known = getKnownConnection ph addr in
      if known = [] then ph
      else
        let peersInfo = slice_at (connAddrToPeersInfo ph) known in
        if peersInfo = [] then addNewPeerInfoToMaps allShardId ph p known
        else (case getPeerInfoForPeerID p peersInfo of None \<Rightarrow> addNewPeerInfoToMaps allShardId ph p known
              | Some _ \<Rightarrow> ph))"

text \<open>\<^verbatim>\<open>pInfo.shardID = shardID\<close> through the pointer that \<^verbatim>\<open>getPeerInfoForPeerID\<close> returned.\<close>

fun setInfoShard :: "peer_id \<Rightarrow> uint32 \<Rightarrow> peerInfo list \<Rightarrow> peerInfo list" where
  "setInfoShard p s [] = []"
| "setInfoShard p s (i # is) = (if p = pid i then i\<lparr>pi_shardID := s\<rparr> # is else i # setInfoShard p s is)"

definition PutShardID :: "peersHolder \<Rightarrow> peer_id \<Rightarrow> uint32 \<Rightarrow> peersHolder" where
  "PutShardID ph p s =
     (case tempPeerIDsWaitingForShard ph p of None \<Rightarrow> ph
      | Some known \<Rightarrow>
        let peersInfo = slice_at (connAddrToPeersInfo ph) known in
        if peersInfo = [] then ph
        else (case getPeerInfoForPeerID p peersInfo of None \<Rightarrow> ph
          | Some pInfo \<Rightarrow>
            let ids = slice_at (peerIDsPerShard ph) s @ [p] in
            ph\<lparr>connAddrToPeersInfo := (connAddrToPeersInfo ph)(known \<mapsto> setInfoShard p s peersInfo),
               peerIDsPerShard := (peerIDsPerShard ph)(s \<mapsto> ids),
               peerIDs := (peerIDs ph)
                 (p \<mapsto> \<lparr>connectionAddress = known, shardID = s, index = length ids - 1\<rparr>),
               tempPeerIDsWaitingForShard := (tempPeerIDsWaitingForShard ph)(p := None)\<rparr>))"

definition Get :: "peersHolder \<Rightarrow> uint32 \<rightharpoonup> peer_id list" where
  "Get ph = peerIDsPerShard ph"

definition Contains :: "peersHolder \<Rightarrow> peer_id \<Rightarrow> bool" where
  "Contains ph p = (peerIDs ph p \<noteq> None)"

text \<open>A slice expression out of range panics.\<close>

definition removePeerFromMapAtIndex :: "peersHolder \<Rightarrow> uint32 \<Rightarrow> nat \<Rightarrow> peersHolder option" where
  "removePeerFromMapAtIndex ph s i =
     (case slice_delete (slice_at (peerIDsPerShard ph) s) i of None \<Rightarrow> None
      | Some l \<Rightarrow> Some (ph\<lparr>peerIDsPerShard :=
          (if l = [] then (peerIDsPerShard ph)(s := None) else (peerIDsPerShard ph)(s \<mapsto> l))\<rparr>))"

fun removeInfo :: "peer_id \<Rightarrow> peerInfo list \<Rightarrow> peerInfo list" where
  "removeInfo p [] = []"
| "removeInfo p (i # is) = (if p = pid i then is else i # removeInfo p is)"

definition removePeerInfoAtConnectionAddress :: "peersHolder \<Rightarrow> peer_id \<Rightarrow> string \<Rightarrow> peersHolder" where
  "removePeerInfoAtConnectionAddress ph p connAddr =
     (let peersInfo = slice_at (connAddrToPeersInfo ph) connAddr in
      if peersInfo = [] then ph
      else (case getPeerInfoForPeerID p peersInfo of None \<Rightarrow> ph
        | Some _ \<Rightarrow> ph\<lparr>connAddrToPeersInfo :=
            (connAddrToPeersInfo ph)(connAddr \<mapsto> removeInfo p peersInfo)\<rparr>))"

definition Remove :: "peersHolder \<Rightarrow> peer_id \<Rightarrow> peersHolder option" where
  "Remove ph p =
     (case peerIDs ph p of None \<Rightarrow> Some ph
      | Some pidData \<Rightarrow> do {
          ph1 \<leftarrow> removePeerFromMapAtIndex ph (shardID pidData) (index pidData);
          let ph2 = ph1\<lparr>peerIDs := (peerIDs ph1)(p := None)\<rparr>;
          let ph3 = removePeerInfoAtConnectionAddress ph2 p (connectionAddress pidData);
          Some (ph3\<lparr>tempPeerIDsWaitingForShard := (tempPeerIDsWaitingForShard ph3)(p := None)\<rparr>)
        })"

definition Clear :: "peersHolder \<Rightarrow> peersHolder" where
  "Clear ph = ph\<lparr>tempPeerIDsWaitingForShard := Map.empty, peerIDsPerShard := Map.empty,
     peerIDs := Map.empty, connAddrToPeersInfo := Map.empty\<rparr>"

section \<open>Invariant\<close>

text \<open>The pids that the map of connection addresses has at an address.\<close>

definition pids_at :: "peersHolder \<Rightarrow> string \<Rightarrow> peer_id set" where
  "pids_at ph a = pid ` set (slice_at (connAddrToPeersInfo ph) a)"

text \<open>\<^verbatim>\<open>peerIDs\<close> and \<^verbatim>\<open>peerIDsPerShard\<close> describe each other: shard and position of every peer are right.\<close>

definition index_ok :: "peersHolder \<Rightarrow> bool" where
  "index_ok ph \<longleftrightarrow>
     (\<forall>p d. peerIDs ph p = Some d \<longrightarrow>
        index d < length (slice_at (peerIDsPerShard ph) (shardID d)) \<and>
        slice_at (peerIDsPerShard ph) (shardID d) ! index d = p) \<and>
     (\<forall>s i. i < length (slice_at (peerIDsPerShard ph) s) \<longrightarrow>
        (\<exists>d. peerIDs ph (slice_at (peerIDsPerShard ph) s ! i) = Some d \<and> shardID d = s \<and> index d = i))"

text \<open>A peer waits for its shard or has one, not both, and the address map knows it in either case.\<close>

definition addresses_ok :: "peersHolder \<Rightarrow> bool" where
  "addresses_ok ph \<longleftrightarrow>
     (\<forall>p a. tempPeerIDsWaitingForShard ph p = Some a \<longrightarrow> peerIDs ph p = None \<and> p \<in> pids_at ph a) \<and>
     (\<forall>p d. peerIDs ph p = Some d \<longrightarrow> p \<in> pids_at ph (connectionAddress d))"

definition holder_ok :: "peersHolder \<Rightarrow> bool" where
  "holder_ok ph \<longleftrightarrow> index_ok ph \<and> addresses_ok ph"

lemma slice_at_upd [simp]: "slice_at (m(k \<mapsto> v)) j = (if j = k then v else slice_at m j)"
  and slice_at_del [simp]: "slice_at (m(k := None)) j = (if j = k then [] else slice_at m j)"
  and slice_at_empty [simp]: "slice_at Map.empty j = []"
  by (simp_all add: slice_at_def)

lemma getPeerInfoForPeerID_None: "getPeerInfoForPeerID p is = None \<longleftrightarrow> p \<notin> pid ` set is"
  by (induction "is") auto

lemma set_setInfoShard [simp]: "pid ` set (setInfoShard p s is) = pid ` set is"
  by (induction "is") auto

lemma removeInfo_other: "q \<noteq> p \<Longrightarrow> q \<in> pid ` set (removeInfo p is) \<longleftrightarrow> q \<in> pid ` set is"
  by (induction "is") auto

lemma index_ok_distinct: "index_ok ph \<Longrightarrow> distinct (slice_at (peerIDsPerShard ph) s)"
  unfolding index_ok_def distinct_conv_nth by (metis option.inject)

lemma pids_at_add [simp]:
  "pids_at (addNewPeerInfoToMaps allShardId ph p known) a =
     (if a = known then insert p (pids_at ph a) else pids_at ph a)"
  by (simp add: pids_at_def addNewPeerInfoToMaps_def)

lemma add_fields [simp]:
  "tempPeerIDsWaitingForShard (addNewPeerInfoToMaps allShardId ph p known) =
     (tempPeerIDsWaitingForShard ph)(p \<mapsto> known)"
  "peerIDsPerShard (addNewPeerInfoToMaps allShardId ph p known) = peerIDsPerShard ph"
  "peerIDs (addNewPeerInfoToMaps allShardId ph p known) = peerIDs ph"
  by (simp_all add: addNewPeerInfoToMaps_def)

text \<open>\<^verbatim>\<open>PutConnectionAddress\<close> adds the peer exactly when its known address does not have it yet.\<close>

lemma PutConnectionAddress_eq:
  "PutConnectionAddress allShardId ph p addr =
     (if getKnownConnection ph addr = [] \<or> p \<in> pids_at ph (getKnownConnection ph addr) then ph
      else addNewPeerInfoToMaps allShardId ph p (getKnownConnection ph addr))"
  by (auto simp: PutConnectionAddress_def pids_at_def Let_def getPeerInfoForPeerID_None
      split: option.splits)
     (metis getPeerInfoForPeerID_None imageI option.distinct(1))

lemma PutConnectionAddress_ok:
  assumes ok: "holder_ok ph"
    and one: "\<And>a. p \<in> pids_at ph a \<Longrightarrow> a = getKnownConnection ph addr"
  shows "holder_ok (PutConnectionAddress allShardId ph p addr)"
proof (cases "getKnownConnection ph addr = [] \<or> p \<in> pids_at ph (getKnownConnection ph addr)")
  case False
  then have fresh: "p \<notin> pids_at ph a" for a using one by metis
  then have "peerIDs ph p = None" using ok unfolding holder_ok_def addresses_ok_def by (metis not_None_eq)
  then show ?thesis
    using ok False fresh
    by (auto simp: PutConnectionAddress_eq holder_ok_def index_ok_def addresses_ok_def) metis
qed (use ok in \<open>simp add: PutConnectionAddress_eq\<close>)

text \<open>For a waiting peer \<^verbatim>\<open>PutShardID\<close> always goes through.\<close>

lemma PutShardID_eq:
  assumes "holder_ok ph" and "tempPeerIDsWaitingForShard ph p = Some known"
  shows "PutShardID ph p s =
    ph\<lparr>connAddrToPeersInfo := (connAddrToPeersInfo ph)
         (known \<mapsto> setInfoShard p s (slice_at (connAddrToPeersInfo ph) known)),
       peerIDsPerShard := (peerIDsPerShard ph)(s \<mapsto> slice_at (peerIDsPerShard ph) s @ [p]),
       peerIDs := (peerIDs ph)(p \<mapsto> \<lparr>connectionAddress = known, shardID = s,
         index = length (slice_at (peerIDsPerShard ph) s)\<rparr>),
       tempPeerIDsWaitingForShard := (tempPeerIDsWaitingForShard ph)(p := None)\<rparr>"
proof -
  have "p \<in> pids_at ph known" using assms by (auto simp: holder_ok_def addresses_ok_def)
  then have "slice_at (connAddrToPeersInfo ph) known \<noteq> []"
    "getPeerInfoForPeerID p (slice_at (connAddrToPeersInfo ph) known) \<noteq> None"
    by (auto simp: pids_at_def getPeerInfoForPeerID_None)
  then show ?thesis using assms(2) by (auto simp: PutShardID_def Let_def)
qed

lemma PutShardID_ok:
  assumes ok: "holder_ok ph"
  shows "holder_ok (PutShardID ph p s)"
proof (cases "tempPeerIDsWaitingForShard ph p")
  case None
  then show ?thesis using ok by (simp add: PutShardID_def)
next
  case (Some known)
  let ?ph = "PutShardID ph p s"
  have i: "index_ok ph" and a: "addresses_ok ph" using ok by (simp_all add: holder_ok_def)
  have new: "peerIDs ph p = None" using a Some by (simp add: addresses_ok_def)
  note eq = PutShardID_eq [OF ok Some, of s]
  have at: "pids_at ?ph = pids_at ph"
    by (auto simp: eq pids_at_def fun_eq_iff image_def [symmetric])
  have "addresses_ok ?ph"
    using a Some unfolding addresses_ok_def at by (auto simp: eq split: if_splits)
  moreover have "index_ok ?ph"
    using i new unfolding index_ok_def eq
    by (auto simp: nth_append less_Suc_eq) (metis option.distinct(1))+
  ultimately show ?thesis by (simp add: holder_ok_def)
qed

lemma Clear_ok: "holder_ok (Clear ph)"
  by (simp add: holder_ok_def index_ok_def addresses_ok_def Clear_def)

subsection \<open>Removing\<close>

lemma remove1_nth: "distinct l \<Longrightarrow> i < length l \<Longrightarrow> remove1 (l ! i) l = take i l @ drop (Suc i) l"
proof -
  assume "distinct l" "i < length l"
  then have l: "l = take i l @ l ! i # drop (Suc i) l" by (simp add: id_take_nth_drop)
  then have "l ! i \<notin> set (take i l)" using \<open>distinct l\<close> by (metis disjoint_insert(1) distinct_append list.set(2))
  then have "remove1 (l ! i) (take i l @ l ! i # drop (Suc i) l) = take i l @ drop (Suc i) l"
    by (simp add: remove1_append)
  then show ?thesis using l by simp
qed

lemma removePeerInfo_fields [simp]:
  "peerIDs (removePeerInfoAtConnectionAddress ph p a) = peerIDs ph"
  "peerIDsPerShard (removePeerInfoAtConnectionAddress ph p a) = peerIDsPerShard ph"
  "tempPeerIDsWaitingForShard (removePeerInfoAtConnectionAddress ph p a) = tempPeerIDsWaitingForShard ph"
  by (simp_all add: removePeerInfoAtConnectionAddress_def Let_def split: option.splits)

lemma removePeerInfo_pids:
  "q \<noteq> p \<Longrightarrow> q \<in> pids_at (removePeerInfoAtConnectionAddress ph p a) b \<longleftrightarrow> q \<in> pids_at ph b"
  using removeInfo_other [of q p "slice_at (connAddrToPeersInfo ph) a"]
  by (auto simp: removePeerInfoAtConnectionAddress_def pids_at_def Let_def split: option.splits)

lemma pids_at_upd [simp]:
  "pids_at (ph\<lparr>peerIDsPerShard := x\<rparr>) = pids_at ph" "pids_at (ph\<lparr>peerIDs := y\<rparr>) = pids_at ph"
  "pids_at (ph\<lparr>tempPeerIDsWaitingForShard := z\<rparr>) = pids_at ph"
  by (simp_all add: pids_at_def fun_eq_iff)

lemma index_ok_other_shard:
  assumes "index_ok ph" and "peerIDs ph p = Some d" and "s \<noteq> shardID d"
  shows "p \<notin> set (slice_at (peerIDsPerShard ph) s)"
proof
  assume "p \<in> set (slice_at (peerIDsPerShard ph) s)"
  then obtain i where "i < length (slice_at (peerIDsPerShard ph) s)" "slice_at (peerIDsPerShard ph) s ! i = p"
    by (auto simp: in_set_conv_nth)
  with assms(1) obtain d' where "peerIDs ph p = Some d'" "shardID d' = s"
    unfolding index_ok_def by blast
  with assms(2,3) show False by simp
qed

lemma Remove_delete:
  assumes "index_ok ph" and "peerIDs ph p = Some d"
  shows "slice_delete (slice_at (peerIDsPerShard ph) (shardID d)) (index d) =
    Some (remove1 p (slice_at (peerIDsPerShard ph) (shardID d)))"
proof -
  let ?l = "slice_at (peerIDsPerShard ph) (shardID d)"
  have at: "index d < length ?l" "?l ! index d = p" using assms by (auto simp: index_ok_def)
  then show ?thesis
    using remove1_nth [OF index_ok_distinct [OF assms(1)] at(1)] by (simp add: slice_delete_def)
qed

lemma Remove_fields:
  assumes "index_ok ph" and "peerIDs ph p = Some d"
  shows "\<exists>ph'. Remove ph p = Some ph' \<and> peerIDs ph' = (peerIDs ph)(p := None) \<and>
    tempPeerIDsWaitingForShard ph' = (tempPeerIDsWaitingForShard ph)(p := None) \<and>
    (\<forall>s. slice_at (peerIDsPerShard ph') s = remove1 p (slice_at (peerIDsPerShard ph) s)) \<and>
    (\<forall>q a. q \<noteq> p \<longrightarrow> q \<in> pids_at ph' a \<longleftrightarrow> q \<in> pids_at ph a)"
proof -
  have other: "remove1 p (slice_at (peerIDsPerShard ph) s) = slice_at (peerIDsPerShard ph) s"
    if "s \<noteq> shardID d" for s
    using index_ok_other_shard [OF assms that] by (rule remove1_idem)
  show ?thesis
    using Remove_delete [OF assms] assms(2) other
    by (auto simp: Remove_def removePeerFromMapAtIndex_def Let_def removePeerInfo_pids)
qed

lemma Remove_addresses:
  assumes "addresses_ok ph" and "peerIDs ph' = (peerIDs ph)(p := None)"
    and "tempPeerIDsWaitingForShard ph' = (tempPeerIDsWaitingForShard ph)(p := None)"
    and "\<And>q a. q \<noteq> p \<Longrightarrow> q \<in> pids_at ph' a \<longleftrightarrow> q \<in> pids_at ph a"
  shows "addresses_ok ph'"
  using assms by (auto simp: addresses_ok_def split: if_splits)

text \<open>The positions of the peers behind the removed one are not corrected.\<close>

lemma Remove_last_index:
  assumes ix: "index_ok ph" and d: "peerIDs ph p = Some d"
    and ids: "peerIDs ph' = (peerIDs ph)(p := None)"
    and shards: "\<And>s. slice_at (peerIDsPerShard ph') s = remove1 p (slice_at (peerIDsPerShard ph) s)"
    and last: "Suc (index d) = length (slice_at (peerIDsPerShard ph) (shardID d))"
  shows "index_ok ph'"
proof -
  let ?l = "slice_at (peerIDsPerShard ph) (shardID d)"
  have at: "index d < length ?l" "?l ! index d = p" using ix d by (auto simp: index_ok_def)
  have l': "slice_at (peerIDsPerShard ph') (shardID d) = take (index d) ?l"
    using remove1_nth [OF index_ok_distinct [OF ix] at(1)] at shards last by simp
  have same: "slice_at (peerIDsPerShard ph') s = slice_at (peerIDsPerShard ph) s" if "s \<noteq> shardID d" for s
    unfolding shards using index_ok_other_shard [OF ix d that] by (rule remove1_idem)
  have 1: "index e < length (slice_at (peerIDsPerShard ph') (shardID e)) \<and>
      slice_at (peerIDsPerShard ph') (shardID e) ! index e = q" if q: "peerIDs ph' q = Some e" for q e
  proof -
    have q': "peerIDs ph q = Some e" "q \<noteq> p" using q by (auto simp: ids split: if_splits)
    have e: "index e < length (slice_at (peerIDsPerShard ph) (shardID e))"
      "slice_at (peerIDsPerShard ph) (shardID e) ! index e = q" using ix q' by (auto simp: index_ok_def)
    show ?thesis
    proof (cases "shardID e = shardID d")
      case True
      then have "index e \<noteq> index d" using e at q'(2) by auto
      then have "index e < index d" using e last True by auto
      then show ?thesis using e True l' by simp
    qed (use e same in auto)
  qed
  have 2: "\<exists>e. peerIDs ph' (slice_at (peerIDsPerShard ph') s ! i) = Some e \<and> shardID e = s \<and> index e = i"
    if i: "i < length (slice_at (peerIDsPerShard ph') s)" for s i
  proof -
    have i': "i < length (slice_at (peerIDsPerShard ph) s)"
      "slice_at (peerIDsPerShard ph') s ! i = slice_at (peerIDsPerShard ph) s ! i"
      using i same l' by (cases "s = shardID d"; simp)+
    obtain e where e: "peerIDs ph (slice_at (peerIDsPerShard ph) s ! i) = Some e" "shardID e = s" "index e = i"
      using ix i'(1) unfolding index_ok_def by blast
    have "slice_at (peerIDsPerShard ph) s ! i \<noteq> p" using e d i l' by auto
    then show ?thesis using e i'(2) by (simp add: ids)
  qed
  show ?thesis using 1 2 by (simp add: index_ok_def)
qed

lemma Remove_inner_index:
  assumes ix: "index_ok ph" and d: "peerIDs ph p = Some d"
    and ids: "peerIDs ph' = (peerIDs ph)(p := None)"
    and shards: "\<And>s. slice_at (peerIDsPerShard ph') s = remove1 p (slice_at (peerIDsPerShard ph) s)"
    and inner: "Suc (index d) < length (slice_at (peerIDsPerShard ph) (shardID d))"
  shows "\<not> index_ok ph'"
proof
  assume ix': "index_ok ph'"
  let ?l = "slice_at (peerIDsPerShard ph) (shardID d)"
  have at: "index d < length ?l" "?l ! index d = p" using ix d by (auto simp: index_ok_def)
  have l': "slice_at (peerIDsPerShard ph') (shardID d) = take (index d) ?l @ drop (Suc (index d)) ?l"
    using remove1_nth [OF index_ok_distinct [OF ix] at(1)] at shards by simp
  let ?q = "?l ! Suc (index d)"
  have q: "slice_at (peerIDsPerShard ph') (shardID d) ! index d = ?q"
    "index d < length (slice_at (peerIDsPerShard ph') (shardID d))"
    using inner by (simp_all add: l' nth_append)
  obtain e where e: "peerIDs ph ?q = Some e" "index e = Suc (index d)"
    using ix inner unfolding index_ok_def by blast
  obtain e' where "peerIDs ph' ?q = Some e'" "index e' = index d"
    using ix' q unfolding index_ok_def by metis
  then show False using e by (simp add: ids split: if_splits)
qed

section \<open>Properties\<close>

lemma NewPeersHolder_loop_ok:
  "NewPeersHolder_loop valid as ph = Inr ph' \<Longrightarrow> (\<And>a. slice_at (connAddrToPeersInfo ph) a = []) \<Longrightarrow>
   peerIDs ph' = peerIDs ph \<and> peerIDsPerShard ph' = peerIDsPerShard ph \<and>
   tempPeerIDsWaitingForShard ph' = tempPeerIDsWaitingForShard ph \<and>
   preferredConnAddresses ph' = preferredConnAddresses ph @ as \<and> (\<forall>a. slice_at (connAddrToPeersInfo ph') a = [])"
  by (induction as arbitrary: ph) (auto split: if_splits)

lemma NewPeersHolder_ok: "NewPeersHolder ip np as = Inr ph \<Longrightarrow> holder_ok ph"
  by (auto simp: NewPeersHolder_def holder_ok_def index_ok_def addresses_ok_def
      dest!: NewPeersHolder_loop_ok)

text \<open>
  C24. The tables of the holder stay consistent (\<^verbatim>\<open>peerIDs\<close> gives the shard and the position at which
  \<^verbatim>\<open>peerIDsPerShard\<close> has the peer, and conversely; no peer both waits for a shard and has one): a new holder
  is consistent, setting a shard and clearing keep it so, and so does a connection address, provided the
  peer was not seen before under another one of the preferred addresses.
\<close>

theorem holder_invariant:
  "(NewPeersHolder ip np as = Inr ph0 \<longrightarrow> holder_ok ph0) \<and>
   (holder_ok ph \<longrightarrow> holder_ok (PutShardID ph p s) \<and> holder_ok (Clear ph)) \<and>
   (holder_ok ph \<and> (\<forall>a. p \<in> pids_at ph a \<longrightarrow> a = getKnownConnection ph addr) \<longrightarrow>
      holder_ok (PutConnectionAddress allShardId ph p addr))"
  using NewPeersHolder_ok PutShardID_ok Clear_ok PutConnectionAddress_ok by blast

text \<open>A holder of two preferred addresses, and peers that connect from them.\<close>

definition ph_new :: peersHolder where
  "ph_new = \<lparr>preferredConnAddresses = [''A'', ''B''], connAddrToPeersInfo = [''A'' \<mapsto> [], ''B'' \<mapsto> []],
     tempPeerIDsWaitingForShard = Map.empty, peerIDsPerShard = Map.empty, peerIDs = Map.empty\<rparr>"

lemma ph_new_eq: "NewPeersHolder (\<lambda>_. True) (\<lambda>_. False) [''A'', ''B''] = Inr ph_new"
  by (simp add: NewPeersHolder_def IsValid_def ph_new_def)

lemma ph_new_pids [simp]: "pids_at ph_new a = {}"
  by (auto simp: pids_at_def ph_new_def slice_at_def split: if_splits option.splits)

definition join :: "peersHolder \<Rightarrow> peer_id \<Rightarrow> string \<Rightarrow> uint32 \<Rightarrow> peersHolder" where
  "join ph p addr s = PutShardID (PutConnectionAddress 0 ph p addr) p s"

theorem holder_invariant_witness:
  "holder_ok ph_new \<and> holder_ok (PutConnectionAddress 0 ph_new ''p'' ''/A/1'') \<and>
   holder_ok (PutShardID (PutConnectionAddress 0 ph_new ''p'' ''/A/1'') ''p'' 3)"
proof -
  have new: "holder_ok ph_new"
    using holder_invariant [of "\<lambda>_. True" "\<lambda>_. False" "[''A'', ''B'']" ph_new] ph_new_eq by blast
  have "\<forall>a. ''p'' \<in> pids_at ph_new a \<longrightarrow> a = getKnownConnection ph_new ''/A/1''"
    by simp
  then have "holder_ok (PutConnectionAddress 0 ph_new ''p'' ''/A/1'')"
    using holder_invariant [of "\<lambda>_. True" "\<lambda>_. False" "[]" ph_new ph_new "''p''" 0 "''/A/1''" 0] new by blast
  moreover from this have "holder_ok (PutShardID (PutConnectionAddress 0 ph_new ''p'' ''/A/1'') ''p'' 3)"
    using holder_invariant [of "\<lambda>_. True" "\<lambda>_. False" "[]" ph_new
        "PutConnectionAddress 0 ph_new ''p'' ''/A/1''" "''p''" 3] by blast
  ultimately show ?thesis using new by blast
qed

text \<open>
  Insert and look up: a peer that connects from a preferred address and then announces its shard is
  contained and is the last one of its shard's list; the other peers and the other shards do not change.
\<close>

theorem holder_put_get:
  assumes ok: "holder_ok ph" and known: "getKnownConnection ph addr \<noteq> []" and fresh: "\<forall>a. p \<notin> pids_at ph a"
  shows "let ph' = PutShardID (PutConnectionAddress allShardId ph p addr) p s in
    Contains ph' p \<and> (\<forall>q. q \<noteq> p \<longrightarrow> Contains ph' q = Contains ph q) \<and>
    Get ph' = (Get ph)(s \<mapsto> slice_at (Get ph) s @ [p])"
proof -
  let ?ph = "PutConnectionAddress allShardId ph p addr"
  have eq: "?ph = addNewPeerInfoToMaps allShardId ph p (getKnownConnection ph addr)"
    using known fresh by (simp add: PutConnectionAddress_eq)
  have "holder_ok ?ph" using PutConnectionAddress_ok [OF ok] fresh by blast
  from PutShardID_eq [OF this, of p "getKnownConnection ph addr" s]
  show ?thesis by (simp add: eq Contains_def Get_def Let_def)
qed

theorem holder_put_get_witness:
  "Contains (join ph_new ''p'' ''/A/1'' 3) ''p'' \<and> Get (join ph_new ''p'' ''/A/1'' 3) 3 = Some [''p'']"
proof -
  have "getKnownConnection ph_new ''/A/1'' \<noteq> []"
    by (simp add: getKnownConnection_def ph_new_def)
  moreover have "\<forall>a. ''p'' \<notin> pids_at ph_new a"
    by simp
  ultimately show ?thesis
    using holder_put_get [OF NewPeersHolder_ok [OF ph_new_eq], of "''/A/1''" "''p''" 0 3]
    by (simp add: Let_def join_def) (simp add: Get_def ph_new_def)
qed



lemmas holder_run = join_def PutConnectionAddress_def PutShardID_def getKnownConnection_def ph_new_def
  addNewPeerInfoToMaps_def slice_at_def Get_def Contains_def Let_def Remove_def slice_delete_def
  removePeerFromMapAtIndex_def removePeerInfoAtConnectionAddress_def

text \<open>
  Removing peers of one shard in the order in which they joined goes wrong, from a new holder on: with two peers
  the second \<^verbatim>\<open>Remove\<close> panics (slice bounds out of range); with three peers it takes the third peer out of the
  shard's list and leaves the second one, which is no longer contained, in it. And a peer that is already
  in a shard's list and connects again from another preferred address is listed twice once it has announced
  its shard again.
\<close>

theorem holder_remove_stale_index:
  "(let ph = join (join ph_new ''p'' ''/A/1'' 3) ''q'' ''/A/2'' 3 in
    do { ph1 \<leftarrow> Remove ph ''p''; Remove ph1 ''q'' } = None) \<and>
   (let ph = join (join (join ph_new ''p'' ''/A/1'' 3) ''q'' ''/A/2'' 3) ''r'' ''/A/3'' 3 in
    map_option (\<lambda>ph2. (Get ph2 3, Contains ph2 ''q'', Contains ph2 ''r''))
      (do { ph1 \<leftarrow> Remove ph ''p''; Remove ph1 ''q'' }) = Some (Some [''q''], False, True)) \<and>
   Get (join (join ph_new ''p'' ''/A/1'' 3) ''p'' ''/B/1'' 3) 3 = Some [''p'', ''p'']"
  by (simp add: holder_run)

end
