(* ===== verification/Connection_Monitor.thy ===== *)
theory Connection_Monitor
  imports Sharding Peers_Holder
begin

text \<open>
  \<^verbatim>\<open>p2p/libp2p/connectionMonitor/libp2pConnectionMonitorSimple.go\<close>: what the node does when a connection opens
  or closes, the sweep of denied peers, and the loop that reconnects to the network.

  The monitor calls the sharder and the holder of the preferred peers of the theories imported here; both the monitor
  and the lists sharder refer to the same holder, which is why the sharder's view of the preferred peers is
  taken from the monitor's holder. The libp2p network, the connections watcher and the reconnecters are code
  outside of the repository: the handlers take what they return (\<^verbatim>\<open>Peers()\<close>) as arguments and give the calls
  they make on them as a list of actions. The denial evaluator is a function.
\<close>

section \<open>State and handlers\<close>

datatype monitor_action =
    ConnClose
  | ClosePeer peer_id
  | NewKnownConnection peer_id string
  | ReconnectToNetwork nat

record connectionMonitor =
  numReconnecters :: nat
  thresholdMinConnectedPeers :: int
  cm_sharder :: sharder
  preferredPeersHolder :: peersHolder
  peerDenialEvaluator :: "peer_id \<Rightarrow> bool"

record network_conn =
  RemotePeer :: peer_id
  RemoteMultiaddr :: string
  conn_ID :: string

text \<open>The arguments of the constructor: a \<^verbatim>\<open>nil\<close> interface is \<^const>\<open>None\<close> (or \<^const>\<open>False\<close>).\<close>

record ArgsConnectionMonitorSimple =
  arg_Reconnecters :: "bool list"
  arg_ThresholdMinConnectedPeers :: uint32
  arg_Sharder :: "sharder option"
  arg_PreferredPeersHolder :: "peersHolder option"
  arg_hasConnectionsWatcher :: bool
  arg_hasNetwork :: bool
  arg_hasLogger :: bool

definition checkArgs :: "ArgsConnectionMonitorSimple \<Rightarrow> p2p_error option" where
  "checkArgs args =
     (if list_ex (\<lambda>present. \<not> present) (arg_Reconnecters args) then Some ErrNilReconnecter
      else if arg_Sharder args = None then Some ErrNilSharder
      else if arg_PreferredPeersHolder args = None then Some ErrNilPreferredPeersHolder
      else if \<not> arg_hasConnectionsWatcher args then Some ErrNilConnectionsWatcher
      else if \<not> arg_hasNetwork args then Some ErrNilNetwork
      else if \<not> arg_hasLogger args then Some ErrNilLogger
      else None)"

definition NewLibp2pConnectionMonitorSimple :: "ArgsConnectionMonitorSimple \<Rightarrow> p2p_error + connectionMonitor" where
  "NewLibp2pConnectionMonitorSimple args =
     (case checkArgs args of Some err \<Rightarrow> Inl err
      | None \<Rightarrow> Inr
          \<lparr>numReconnecters = length (arg_Reconnecters args),
           thresholdMinConnectedPeers = uint (arg_ThresholdMinConnectedPeers args),
           cm_sharder = the (arg_Sharder args), preferredPeersHolder = the (arg_PreferredPeersHolder args),
           peerDenialEvaluator = (\<lambda>_. False)\<rparr>)"

text \<open>The lists sharder asks the shared holder.\<close>

definition with_preferred :: "peersHolder \<Rightarrow> sharder \<Rightarrow> sharder" where
  "with_preferred ph s =
     (case s of Lists ls \<Rightarrow> Lists (ls\<lparr>preferredContains := Contains ph\<rparr>) | _ \<Rightarrow> s)"

definition Connected ::
    "(PeerDistance list \<Rightarrow> PeerDistance list) \<Rightarrow> (peer_id \<Rightarrow> string) \<Rightarrow> uint32 \<Rightarrow> connectionMonitor
     \<Rightarrow> peer_id list \<Rightarrow> network_conn \<Rightarrow> (monitor_action list \<times> connectionMonitor) option" where
  "Connected srt pretty allShardId lcms allPeers conn =
     (if peerDenialEvaluator lcms (RemotePeer conn) then Some ([ConnClose], lcms)
      else
        let peerId = RemotePeer conn;
            connectionStr = RemoteMultiaddr conn;
            ph = PutConnectionAddress allShardId (preferredPeersHolder lcms) peerId connectionStr
        in do {
          evictedList \<leftarrow> sharder_ComputeEvictionList srt pretty (with_preferred ph (cm_sharder lcms)) allPeers;
          Some (NewKnownConnection peerId connectionStr # map ClosePeer evictedList,
                lcms\<lparr>preferredPeersHolder := ph\<rparr>)
        })"

definition IsConnectedToTheNetwork :: "connectionMonitor \<Rightarrow> peer_id list \<Rightarrow> bool" where
  "IsConnectedToTheNetwork lcms peers = (int (length peers) \<ge> thresholdMinConnectedPeers lcms)"

text \<open>
  \<^verbatim>\<open>doReconn\<close> offers a request to the loop and does not wait: the flag is whether the request is offered (the
  loop may be busy, then it is dropped).
\<close>

definition doReconnectionIfNeeded :: "connectionMonitor \<Rightarrow> peer_id list \<Rightarrow> bool" where
  "doReconnectionIfNeeded lcms peers = (\<not> IsConnectedToTheNetwork lcms peers)"

definition Disconnected ::
    "connectionMonitor \<Rightarrow> peer_id list \<Rightarrow> network_conn option \<Rightarrow> (bool \<times> connectionMonitor) option" where
  "Disconnected lcms peers conn = do {
     lcms1 \<leftarrow> (case conn of None \<Rightarrow> Some lcms
               | Some c \<Rightarrow> do {
                   ph \<leftarrow> Remove (preferredPeersHolder lcms) (conn_ID c);
                   Some (lcms\<lparr>preferredPeersHolder := ph\<rparr>)
                 });
     Some (doReconnectionIfNeeded lcms1 peers, lcms1)
   }"

definition SetThresholdMinConnectedPeers ::
    "connectionMonitor \<Rightarrow> int \<Rightarrow> peer_id list option \<Rightarrow> bool \<times> connectionMonitor" where
  "SetThresholdMinConnectedPeers lcms threshold netw =
     (case netw of None \<Rightarrow> (False, lcms)
      | Some peers \<Rightarrow>
          let lcms1 = lcms\<lparr>thresholdMinConnectedPeers := threshold\<rparr>
          in (doReconnectionIfNeeded lcms1 peers, lcms1))"

definition SetPeerDenialEvaluator ::
    "connectionMonitor \<Rightarrow> (peer_id \<Rightarrow> bool) option \<Rightarrow> p2p_error option \<times> connectionMonitor" where
  "SetPeerDenialEvaluator lcms handler =
     (case handler of None \<Rightarrow> (Some ErrNilPeerDenialEvaluator, lcms)
      | Some h \<Rightarrow> (None, lcms\<lparr>peerDenialEvaluator := h\<rparr>))"

definition checkConnectionsBlocking :: "connectionMonitor \<Rightarrow> peer_id list \<Rightarrow> monitor_action list" where
  "checkConnectionsBlocking lcms peers =
     concat (map (\<lambda>pid. if peerDenialEvaluator lcms pid then [ClosePeer pid] else []) peers)"

definition reconnectToNetwork :: "connectionMonitor \<Rightarrow> monitor_action list" where
  "reconnectToNetwork lcms = map ReconnectToNetwork [0..<numReconnecters lcms]"

section \<open>The loop\<close>

text \<open>
  \<^verbatim>\<open>processLoop\<close> as a step relation: each turn of the \<^verbatim>\<open>select\<close> takes one of the events that are ready. The
  log has the events in the order in which they were handled, with the ones that did something marked.
\<close>

datatype loop_event = TimerCheckConnections "peer_id list" | ChDoReconnect | TimerBetweenReconnectAttempts | CtxDone

datatype log_entry = Swept "monitor_action list" | TooEarly | Reconnected "monitor_action list" | TimerElapsed | Stopped

record loop_state =
  canReconnect :: bool
  running :: bool
  loop_log :: "log_entry list"

definition loop_init :: loop_state where
  "loop_init = \<lparr>canReconnect = True, running = True, loop_log = []\<rparr>"

inductive processLoop :: "connectionMonitor \<Rightarrow> loop_state \<Rightarrow> loop_event \<Rightarrow> loop_state \<Rightarrow> bool"
  for lcms :: connectionMonitor where
  check: "running s \<Longrightarrow> processLoop lcms s (TimerCheckConnections peers)
      (s\<lparr>loop_log := loop_log s @ [Swept (checkConnectionsBlocking lcms peers)]\<rparr>)"
| too_early: "running s \<Longrightarrow> \<not> canReconnect s \<Longrightarrow>
    processLoop lcms s ChDoReconnect (s\<lparr>loop_log := loop_log s @ [TooEarly]\<rparr>)"
| reconnect: "running s \<Longrightarrow> canReconnect s \<Longrightarrow>
    processLoop lcms s ChDoReconnect
      (s\<lparr>loop_log := loop_log s @ [Reconnected (reconnectToNetwork lcms)], canReconnect := False\<rparr>)"
| elapsed: "running s \<Longrightarrow> processLoop lcms s TimerBetweenReconnectAttempts
      (s\<lparr>loop_log := loop_log s @ [TimerElapsed], canReconnect := True\<rparr>)"
| stop: "running s \<Longrightarrow> processLoop lcms s CtxDone (s\<lparr>loop_log := loop_log s @ [Stopped], running := False\<rparr>)"

inductive_cases processLoopE: "processLoop lcms s ev s'"
inductive_simps processLoop_reconnect: "processLoop lcms s ChDoReconnect s'"

inductive loop_reach :: "connectionMonitor \<Rightarrow> loop_event list \<Rightarrow> loop_state \<Rightarrow> bool"
  for lcms :: connectionMonitor where
  init: "loop_reach lcms [] loop_init"
| step: "loop_reach lcms evs s \<Longrightarrow> processLoop lcms s ev s' \<Longrightarrow> loop_reach lcms (evs @ [ev]) s'"

text \<open>The attempts of a log are separated by the timer, and none is open unless the loop may not reconnect.\<close>

definition spaced :: "log_entry list \<Rightarrow> bool" where
  "spaced l \<longleftrightarrow> (\<forall>xs ys zs a b. l = xs @ Reconnected a # ys @ Reconnected b # zs \<longrightarrow> TimerElapsed \<in> set ys)"

definition settled :: "log_entry list \<Rightarrow> bool" where
  "settled l \<longleftrightarrow> (\<forall>xs ys a. l = xs @ Reconnected a # ys \<longrightarrow> TimerElapsed \<in> set ys)"

lemma spaced_snoc:
  assumes "spaced l" and "\<And>b. e = Reconnected b \<Longrightarrow> settled l"
  shows "spaced (l @ [e])"
  unfolding spaced_def
proof (intro allI impI)
  fix xs ys zs a b
  assume eq: "l @ [e] = xs @ Reconnected a # ys @ Reconnected b # zs"
  show "TimerElapsed \<in> set ys"
  proof (cases zs rule: rev_cases)
    case Nil
    then have "l = xs @ Reconnected a # ys" "e = Reconnected b"
      using eq by (metis (no_types) append_Cons append_assoc append_eq_append_conv2 append_self_conv
          butlast_snoc last_snoc append.assoc)+
    then show ?thesis using assms(2) by (auto simp: settled_def)
  next
    case (snoc zs' z)
    then have "l = xs @ Reconnected a # ys @ Reconnected b # zs'"
      using eq by (metis append.assoc append_Cons butlast_snoc)
    then show ?thesis using assms(1) unfolding spaced_def by blast
  qed
qed

lemma settled_snoc:
  assumes "e = TimerElapsed \<or> settled l" and "\<And>b. e \<noteq> Reconnected b"
  shows "settled (l @ [e])"
  unfolding settled_def
proof (intro allI impI)
  fix xs ys a
  assume eq: "l @ [e] = xs @ Reconnected a # ys"
  then have "ys \<noteq> []" using assms(2) by (metis last_snoc)
  then obtain ys' where ys: "ys = ys' @ [e]" and "l = xs @ Reconnected a # ys'"
    using eq by (metis append_butlast_last_id append_Cons append_assoc butlast_snoc last_ConsR last_append
        last_snoc list.distinct(1))
  with assms(1) show "TimerElapsed \<in> set ys" by (auto simp: settled_def)
qed

lemma loop_invariant:
  "loop_reach lcms evs s \<Longrightarrow> spaced (loop_log s) \<and> (canReconnect s \<longrightarrow> settled (loop_log s))"
proof (induction rule: loop_reach.induct)
  case init
  then show ?case by (simp add: loop_init_def spaced_def settled_def)
next
  case (step evs s ev s')
  from step.hyps(2) step.IH show ?case
    by cases (auto intro!: spaced_snoc settled_snoc)
qed

section \<open>Properties\<close>

text \<open>
  Rate of the reconnects: in every execution of the monitor's loop, from its start on, the timer between
  reconnect attempts has elapsed between any two attempts to reconnect to the network, whatever requests
  come in; a request that comes earlier does nothing.
\<close>

theorem reconnect_rate_limit:
  assumes "loop_reach lcms evs s" and "loop_log s = xs @ Reconnected a # ys @ Reconnected b # zs"
  shows "TimerElapsed \<in> set ys"
  using loop_invariant [OF assms(1)] assms(2) unfolding spaced_def by blast

definition example_monitor :: connectionMonitor where
  "example_monitor = \<lparr>numReconnecters = 1, thresholdMinConnectedPeers = 2, cm_sharder = Lists example_sharder,
     preferredPeersHolder = ph_new, peerDenialEvaluator = (\<lambda>p. p = ''bad'')\<rparr>"

lemma example_run:
  "loop_reach example_monitor [ChDoReconnect, ChDoReconnect, TimerBetweenReconnectAttempts, ChDoReconnect]
     \<lparr>canReconnect = False, running = True,
      loop_log = [Reconnected [ReconnectToNetwork 0], TooEarly, TimerElapsed, Reconnected [ReconnectToNetwork 0]]\<rparr>"
proof -
  let ?r = "Reconnected [ReconnectToNetwork 0]"
  let ?s1 = "\<lparr>canReconnect = False, running = True, loop_log = [?r]\<rparr>"
  let ?s2 = "\<lparr>canReconnect = False, running = True, loop_log = [?r, TooEarly]\<rparr>"
  let ?s3 = "\<lparr>canReconnect = True, running = True, loop_log = [?r, TooEarly, TimerElapsed]\<rparr>"
  have rec: "reconnectToNetwork example_monitor = [ReconnectToNetwork 0]"
    by (simp add: reconnectToNetwork_def example_monitor_def)
  have 1: "processLoop example_monitor loop_init ChDoReconnect ?s1"
    using processLoop.reconnect [of loop_init example_monitor] by (simp add: loop_init_def rec)
  have 2: "processLoop example_monitor ?s1 ChDoReconnect ?s2"
    using processLoop.too_early [of ?s1 example_monitor] by simp
  have 3: "processLoop example_monitor ?s2 TimerBetweenReconnectAttempts ?s3"
    using processLoop.elapsed [of ?s2 example_monitor] by simp
  have 4: "processLoop example_monitor ?s3 ChDoReconnect
      \<lparr>canReconnect = False, running = True, loop_log = [?r, TooEarly, TimerElapsed, ?r]\<rparr>"
    using processLoop.reconnect [of ?s3 example_monitor] by (simp add: rec)
  show ?thesis
    using loop_reach.step [OF loop_reach.step [OF loop_reach.step [OF loop_reach.step [OF loop_reach.init 1] 2] 3] 4]
    by simp
qed

theorem reconnect_rate_limit_witness: "TimerElapsed \<in> set [TooEarly, TimerElapsed]"
  by (rule reconnect_rate_limit [OF example_run, of "[]" _ _ _ "[]"]) simp

text \<open>
  Opening a connection: a denied peer's connection is closed and nothing else happens; otherwise the
  address is recorded with the holder of the preferred peers and exactly the peers that the sharder
  evicts, all of them connected ones, are closed. With the lists sharder a preferred peer is not closed
  unless it is a seeder.
\<close>

theorem connected_evicts:
  assumes "pd_sorter srt" and "cm_sharder lcms = Lists ls" and "lists_wf ls" and "distances_total ls"
  shows "if peerDenialEvaluator lcms (RemotePeer conn)
    then Connected srt pretty allShardId lcms allPeers conn = Some ([ConnClose], lcms)
    else \<exists>ev. Connected srt pretty allShardId lcms allPeers conn =
        Some (NewKnownConnection (RemotePeer conn) (RemoteMultiaddr conn) # map ClosePeer ev,
          lcms\<lparr>preferredPeersHolder := PutConnectionAddress allShardId (preferredPeersHolder lcms)
            (RemotePeer conn) (RemoteMultiaddr conn)\<rparr>) \<and>
      mset ev \<subseteq># mset allPeers \<and>
      (\<forall>p \<in> set ev. Contains (preferredPeersHolder lcms) p \<longrightarrow> IsSeeder pretty ls p)"
proof -
  let ?ph = "PutConnectionAddress allShardId (preferredPeersHolder lcms) (RemotePeer conn) (RemoteMultiaddr conn)"
  let ?ls = "ls\<lparr>preferredContains := Contains ?ph\<rparr>"
  have cont: "Contains ?ph = Contains (preferredPeersHolder lcms)"
    by (simp add: PutConnectionAddress_eq Contains_def fun_eq_iff)
  have wf: "lists_wf ?ls" using assms(3) by (simp add: lists_wf_def ls_max_def cong: peer_category.case_cong)
  have tot: "distances_total ?ls" using assms(4) by (simp add: distances_total_def)
  obtain ev where ev: "ComputeEvictionList srt pretty ?ls allPeers = Some ev" "mset ev \<subseteq># mset allPeers"
    using lists_evicted_subset [OF assms(1) wf tot] by blast
  have "IsSeeder pretty ls p" if "p \<in> set ev" "Contains (preferredPeersHolder lcms) p" for p
    using lists_preferred_kept [OF assms(1) tot ev(1) that(1)] that(2) by (simp add: cont IsSeeder_def)
  then show ?thesis
    using ev assms(2)
    by (auto simp: Connected_def sharder_ComputeEvictionList_def with_preferred_def Let_def)
qed

theorem connected_evicts_witness:
  "Connected (insertionSort pd_Distance) id 0 example_monitor [''b'']
     \<lparr>RemotePeer = ''bad'', RemoteMultiaddr = ''/A/1'', conn_ID = ''c1''\<rparr> = Some ([ConnClose], example_monitor) \<and>
   Connected (insertionSort pd_Distance) id 0 example_monitor [''b'']
     \<lparr>RemotePeer = ''b'', RemoteMultiaddr = ''/A/1'', conn_ID = ''c1''\<rparr> \<noteq> None"
proof -
  have "cm_sharder example_monitor = Lists example_sharder" by (simp add: example_monitor_def)
  note * = connected_evicts [OF pd_ins.pd_sorter_axioms this NewListsSharder_wf(1) [OF example_new]
      NewListsSharder_total [OF example_new]]
  show ?thesis
    using * [of "\<lparr>RemotePeer = ''bad'', RemoteMultiaddr = ''/A/1'', conn_ID = ''c1''\<rparr>" id 0 "[''b'']"]
      * [of "\<lparr>RemotePeer = ''b'', RemoteMultiaddr = ''/A/1'', conn_ID = ''c1''\<rparr>" id 0 "[''b'']"]
    by (auto simp: example_monitor_def)
qed

lemma checkConnectionsBlocking_denied:
  "checkConnectionsBlocking lcms peers = map ClosePeer (filter (peerDenialEvaluator lcms) peers)"
  by (induction peers) (auto simp: checkConnectionsBlocking_def)

text \<open>
  The periodic sweep closes exactly the connected peers that are denied at that time, also peers that were
  accepted when they connected, and keeps the others.
\<close>

theorem sweep_closes_denied:
  assumes "running s"
  shows "\<exists>s'. processLoop lcms s (TimerCheckConnections peers) s' \<and>
    loop_log s' = loop_log s @ [Swept (map ClosePeer (filter (peerDenialEvaluator lcms) peers))] \<and>
    canReconnect s' = canReconnect s"
  using processLoop.check [OF assms, of lcms peers] by (fastforce simp: checkConnectionsBlocking_denied)

theorem sweep_closes_denied_witness:
  "\<exists>s'. processLoop example_monitor loop_init (TimerCheckConnections [''b'', ''bad'']) s' \<and>
    loop_log s' = [Swept [ClosePeer ''bad'']]"
  using sweep_closes_denied [of loop_init example_monitor "[''b'', ''bad'']"]
  by (simp add: loop_init_def example_monitor_def) blast

text \<open>
  Closing a connection: what is removed from the holder of the preferred peers is the identifier of
  the connection, not the remote peer. As long as no preferred peer has that text as its id, the holder does not change, so
  the remote peer stays a preferred peer; a reconnect is requested when fewer than the threshold are left.
\<close>

theorem disconnected_keeps_remote_peer:
  assumes "\<not> Contains (preferredPeersHolder lcms) (conn_ID conn)"
  shows "Disconnected lcms peers (Some conn) =
    Some (int (length peers) < thresholdMinConnectedPeers lcms, lcms)"
  using assms
  by (auto simp: Disconnected_def Remove_def Contains_def doReconnectionIfNeeded_def IsConnectedToTheNetwork_def)

theorem disconnected_keeps_remote_peer_witness:
  "let lcms = example_monitor\<lparr>preferredPeersHolder := join ph_new ''p'' ''/A/1'' 3\<rparr>;
       conn = \<lparr>RemotePeer = ''p'', RemoteMultiaddr = ''/A/1'', conn_ID = ''conn-7''\<rparr>
   in Contains (preferredPeersHolder lcms) (RemotePeer conn) \<and>
      Disconnected lcms [] (Some conn) = Some (True, lcms)"
proof -
  let ?l = "example_monitor\<lparr>preferredPeersHolder := join ph_new ''p'' ''/A/1'' 3\<rparr>"
  have "\<not> Contains (preferredPeersHolder ?l) ''conn-7''" "Contains (preferredPeersHolder ?l) ''p''"
    by (simp_all add: holder_run)
  then show ?thesis
    using disconnected_keeps_remote_peer [of ?l "\<lparr>RemotePeer = ''p'', RemoteMultiaddr = ''/A/1'', conn_ID = ''conn-7''\<rparr>" "[]"]
    by (simp add: Let_def example_monitor_def)
qed

end
