(* ===== verification/Channel_Balancer.thy ===== *)
theory Channel_Balancer
  imports Prelude
begin

text \<open>
  \<^verbatim>\<open>p2p/libp2p/outgoingChannelLoadBalancer.go\<close>: the outgoing channels, one per name, each with a goroutine that
  forwards what is sent on it to the main channel.

  A Go channel is a number (its identity); the state keeps which channels were closed. The slices and the
  map of the code are kept as they are. The goroutines are a step relation: a forwarder waits on its
  channel, or holds a value for the main channel; receiving from a closed channel gives \<^verbatim>\<open>nil\<close> at once.
\<close>

section \<open>State and operations\<close>

type_synonym chan = nat

definition defaultSendChannel :: string where
  "defaultSendChannel = ''default send channel''"

record balancer =
  chans :: "chan list"
  names :: "string list"
  namesChans :: "string \<rightharpoonup> chan"
  nextChan :: chan
  closedChans :: "chan set"
  forwarders :: "chan list"

text \<open>\<^verbatim>\<open>make(chan *SendableData)\<close> gives a fresh channel; the goroutine of the channel is started.\<close>

definition appendChannel :: "balancer \<Rightarrow> string \<Rightarrow> balancer" where
  "appendChannel b channel =
     b\<lparr>names := names b @ [channel], chans := chans b @ [nextChan b],
       namesChans := (namesChans b)(channel \<mapsto> nextChan b), nextChan := Suc (nextChan b),
       forwarders := forwarders b @ [nextChan b]\<rparr>"

definition NewOutgoingChannelLoadBalancer :: "bool \<Rightarrow> p2p_error + balancer" where
  "NewOutgoingChannelLoadBalancer hasLogger =
     (if \<not> hasLogger then Inl ErrNilLogger
      else Inr (appendChannel
        \<lparr>chans = [], names = [], namesChans = Map.empty, nextChan = 0, closedChans = {}, forwarders = []\<rparr>
        defaultSendChannel))"

definition AddChannel :: "balancer \<Rightarrow> string \<Rightarrow> p2p_error option \<times> balancer" where
  "AddChannel b channel =
     (if channel = defaultSendChannel then (Some ErrChannelCanNotBeReAdded, b)
      else (case namesChans b channel of Some _ \<Rightarrow> (None, b)
            | None \<Rightarrow> (None, appendChannel b channel)))"

text \<open>The index of the first element with the name.\<close>

fun index_of :: "string \<Rightarrow> string list \<Rightarrow> nat \<Rightarrow> nat option" where
  "index_of channel [] idx = None"
| "index_of channel (name # ns) idx = (if name = channel then Some idx else index_of channel ns (Suc idx))"

text \<open>
  \<^verbatim>\<open>copy(xs[i:], xs[i+1:]); xs = xs[:len(xs)-1]\<close> (the last cell of \<^verbatim>\<open>chans\<close> is set to \<^verbatim>\<open>nil\<close> in between, and cut
  off): panics when an index is out of range.
\<close>

definition copy_delete :: "'a list \<Rightarrow> nat \<Rightarrow> 'a list option" where
  "copy_delete xs i =
     (if i < length xs then Some (butlast (take i xs @ drop (Suc i) xs @ [last xs])) else None)"

definition RemoveChannel :: "balancer \<Rightarrow> string \<Rightarrow> (p2p_error option \<times> balancer) option" where
  "RemoveChannel b channel =
     (if channel = defaultSendChannel then Some (Some ErrChannelCanNotBeDeleted, b)
      else (case index_of channel (names b) 0 of None \<Rightarrow> Some (Some ErrChannelDoesNotExist, b)
        | Some i \<Rightarrow>
          if i < length (chans b) then do {
            let sendableChan = chans b ! i;
            chans' \<leftarrow> copy_delete (chans b) i;
            names' \<leftarrow> copy_delete (names b) i;
            Some (None, b\<lparr>chans := chans', names := names', closedChans := insert sendableChan (closedChans b),
              namesChans := (namesChans b)(channel := None)\<rparr>)
          } else None))"

definition GetChannelOrDefault :: "balancer \<Rightarrow> string \<Rightarrow> chan option" where
  "GetChannelOrDefault b channel =
     (case namesChans b channel of Some ch \<Rightarrow> Some ch
      | None \<Rightarrow> (case chans b of [] \<Rightarrow> None | c # _ \<Rightarrow> Some c))"

section \<open>Invariant\<close>

text \<open>
  The two slices run in parallel and describe the map; the default channel is the first one; a listed channel is
  open and has its forwarder.
\<close>

definition balancer_ok :: "balancer \<Rightarrow> bool" where
  "balancer_ok b \<longleftrightarrow>
     length (names b) = length (chans b) \<and> distinct (names b) \<and> distinct (chans b) \<and>
     namesChans b = map_of (zip (names b) (chans b)) \<and>
     names b \<noteq> [] \<and> hd (names b) = defaultSendChannel \<and>
     (\<forall>c \<in> set (chans b). c < nextChan b \<and> c \<notin> closedChans b \<and> c \<in> set (forwarders b)) \<and>
     (\<forall>c \<in> closedChans b. c < nextChan b)"

lemma copy_delete_eq: "i < length xs \<Longrightarrow> copy_delete xs i = Some (take i xs @ drop (Suc i) xs)"
  by (simp add: copy_delete_def butlast_append)

lemma index_of_Some:
  "index_of c ns k = Some i \<Longrightarrow> k \<le> i \<and> i - k < length ns \<and> ns ! (i - k) = c"
proof (induction ns arbitrary: k)
  case (Cons n ns)
  show ?case
  proof (cases "n = c")
    case False
    then have i: "index_of c ns (Suc k) = Some i" using Cons.prems by simp
    from Cons.IH [OF this] have "Suc k \<le> i" "i - Suc k < length ns" "ns ! (i - Suc k) = c" by auto
    then show ?thesis by (auto simp: nth_Cons split: nat.splits) (metis Suc_diff_Suc Suc_le_lessD diff_Suc_1)+
  qed (use Cons.prems in auto)
qed simp

lemma index_of_None: "index_of c ns k = None \<longleftrightarrow> c \<notin> set ns"
  by (induction ns arbitrary: k) auto

lemma appendChannel_ok:
  assumes "balancer_ok b" and "namesChans b channel = None"
  shows "balancer_ok (appendChannel b channel)"
proof -
  have "channel \<notin> set (names b)"
    using assms by (auto simp: balancer_ok_def map_of_zip_is_None)
  then show ?thesis
    using assms by (auto simp: balancer_ok_def appendChannel_def map_of_append
        map_add_def fun_eq_iff less_Suc_eq split: option.splits dest: set_zip_leftD)
qed

lemma new_ok: "NewOutgoingChannelLoadBalancer l = Inr b \<Longrightarrow> balancer_ok b"
  by (auto simp: NewOutgoingChannelLoadBalancer_def appendChannel_def balancer_ok_def split: if_splits)

lemma map_of_zip_delete:
  assumes "length ns = length cs" "i < length ns" "distinct ns"
  shows "map_of (zip (take i ns @ drop (Suc i) ns) (take i cs @ drop (Suc i) cs)) =
    (map_of (zip ns cs))(ns ! i := None)"
proof -
  have ns: "ns = take i ns @ ns ! i # drop (Suc i) ns" and cs: "cs = take i cs @ cs ! i # drop (Suc i) cs"
    using assms by (simp_all add: id_take_nth_drop)
  have d: "distinct (take i ns @ ns ! i # drop (Suc i) ns)" using assms(3) ns by simp
  have "map_of (zip ns cs) =
      map_of (zip (take i ns) (take i cs) @ (ns ! i, cs ! i) # zip (drop (Suc i) ns) (drop (Suc i) cs))"
    by (subst ns, subst cs) (use assms(1) in \<open>simp add: zip_append\<close>)
  moreover have "ns ! i \<notin> set (take i ns)" "ns ! i \<notin> set (drop (Suc i) ns)" using d by auto
  ultimately show ?thesis
    using assms(1)
    by (auto simp: zip_append map_add_def fun_eq_iff map_of_zip_is_None split: option.splits)
       (metis in_set_takeD in_set_dropD set_zip_leftD map_of_SomeD)+
qed

lemma RemoveChannel_ok:
  assumes ok: "balancer_ok b" and ch: "channel \<noteq> defaultSendChannel" and "channel \<in> set (names b)"
  shows "\<exists>b' i. RemoveChannel b channel = Some (None, b') \<and> balancer_ok b' \<and> i < length (names b) \<and>
    names b ! i = channel \<and> names b' = take i (names b) @ drop (Suc i) (names b) \<and>
    namesChans b' = (namesChans b)(channel := None) \<and> closedChans b' = insert (chans b ! i) (closedChans b) \<and>
    forwarders b' = forwarders b"
proof -
  obtain i where "index_of channel (names b) 0 = Some i"
    using assms(3) index_of_None by (metis option.exhaust)
  from this index_of_Some [OF this]
  have idx: "index_of channel (names b) 0 = Some i" and i: "i < length (names b)" "names b ! i = channel" by auto
  have len: "length (names b) = length (chans b)" and "names b \<noteq> []" and dn: "distinct (names b)"
    and dc: "distinct (chans b)" using ok by (auto simp: balancer_ok_def)
  have "names b ! 0 = defaultSendChannel" using ok by (auto simp: balancer_ok_def hd_conv_nth [symmetric])
  then have i0: "i \<noteq> 0" using ch i(2) by metis
  let ?b = "b\<lparr>chans := take i (chans b) @ drop (Suc i) (chans b),
      names := take i (names b) @ drop (Suc i) (names b),
      closedChans := insert (chans b ! i) (closedChans b), namesChans := (namesChans b)(channel := None)\<rparr>"
  have rm: "RemoveChannel b channel = Some (None, ?b)"
    using ch idx i len by (simp add: RemoveChannel_def copy_delete_eq Let_def)
  have map: "(namesChans b)(channel := None) = map_of (zip (names ?b) (chans ?b))"
    using map_of_zip_delete [OF len i(1) dn] ok i(2) by (simp add: balancer_ok_def)
  have cd: "slice_delete (chans b) i = Some (chans ?b)" "slice_delete (names b) i = Some (names ?b)"
    using i len by (simp_all add: slice_delete_def)
  have hd: "names ?b \<noteq> []" "hd (names ?b) = defaultSendChannel"
    using ok i0 \<open>names b \<noteq> []\<close> by (auto simp: balancer_ok_def hd_append take_Suc hd_conv_nth neq_Nil_conv)
  have "balancer_ok ?b"
    unfolding balancer_ok_def
    using ok distinct_slice_delete [OF cd(1) dc] distinct_slice_delete(1) [OF cd(2) dn] hd map len i
    by (auto simp: balancer_ok_def)
  then show ?thesis using rm i by (intro exI [of _ ?b] exI [of _ i]) simp
qed

text \<open>
  C26. The channel load balancer stays consistent (names, channels and the map agree, the default channel is the
  first one, listed channels are open and forwarded) from its constructor on under every \<^verbatim>\<open>AddChannel\<close> and
  \<^verbatim>\<open>RemoveChannel\<close>, and neither panics.
\<close>

theorem balancer_invariant:
  "(NewOutgoingChannelLoadBalancer l = Inr b0 \<longrightarrow> balancer_ok b0) \<and>
   (balancer_ok b \<longrightarrow> balancer_ok (snd (AddChannel b channel)) \<and>
     (\<exists>err b'. RemoveChannel b channel = Some (err, b') \<and> balancer_ok b'))"
proof (intro conjI impI)
  show "balancer_ok b0" if "NewOutgoingChannelLoadBalancer l = Inr b0" using new_ok [OF that] .
  assume ok: "balancer_ok b"
  show "balancer_ok (snd (AddChannel b channel))"
    using ok appendChannel_ok [OF ok] by (simp add: AddChannel_def split: option.splits)
  show "\<exists>err b'. RemoveChannel b channel = Some (err, b') \<and> balancer_ok b'"
  proof (cases "channel = defaultSendChannel \<or> channel \<notin> set (names b)")
    case True
    then show ?thesis using ok index_of_None [of channel "names b" 0] by (auto simp: RemoveChannel_def)
  next
    case False
    then show ?thesis using RemoveChannel_ok [OF ok] by blast
  qed
qed

definition bal0 :: balancer where
  "bal0 = appendChannel \<lparr>chans = [], names = [], namesChans = Map.empty, nextChan = 0, closedChans = {},
     forwarders = []\<rparr> defaultSendChannel"

lemma bal0_new: "NewOutgoingChannelLoadBalancer True = Inr bal0"
  by (simp add: NewOutgoingChannelLoadBalancer_def bal0_def)

theorem balancer_invariant_witness:
  "balancer_ok bal0 \<and> balancer_ok (snd (AddChannel bal0 ''txs'')) \<and>
   (\<exists>err b'. RemoveChannel (snd (AddChannel bal0 ''txs'')) ''txs'' = Some (err, b') \<and> balancer_ok b')"
proof -
  have 0: "balancer_ok bal0" using balancer_invariant [of True bal0] bal0_new by blast
  then have "balancer_ok (snd (AddChannel bal0 ''txs''))"
    using balancer_invariant [of True bal0 bal0 "''txs''"] by blast
  with 0 show ?thesis
    using balancer_invariant [of True bal0 "snd (AddChannel bal0 ''txs'')" "''txs''"] by blast
qed

text \<open>
  Adding, removing and looking up: \<^verbatim>\<open>GetChannelOrDefault\<close> never panics; after \<^verbatim>\<open>AddChannel\<close> it gives the
  channel of that name, an open one; after \<^verbatim>\<open>RemoveChannel\<close> it falls back to the default channel, and the other
  names keep their channels. A channel that is looked up is never a closed one.
\<close>

theorem balancer_lookup:
  assumes ok: "balancer_ok b" and ch: "channel \<noteq> defaultSendChannel"
  shows "(\<forall>name. \<exists>c. GetChannelOrDefault b name = Some c \<and> c \<notin> closedChans b \<and>
      (name \<notin> set (names b) \<longrightarrow> c = hd (chans b))) \<and>
    channel \<in> set (names (snd (AddChannel b channel))) \<and>
    (channel \<in> set (names b) \<longrightarrow> (\<exists>b'. RemoveChannel b channel = Some (None, b') \<and>
      GetChannelOrDefault b' channel = Some (hd (chans b)) \<and>
      (\<forall>name \<in> set (names b). name \<noteq> channel \<longrightarrow> GetChannelOrDefault b' name = GetChannelOrDefault b name)))"
proof (intro conjI allI impI)
  have len: "length (names b) = length (chans b)" "chans b \<noteq> []"
    and nc: "namesChans b = map_of (zip (names b) (chans b))"
    and cl: "\<And>c. c \<in> set (chans b) \<Longrightarrow> c \<notin> closedChans b"
    using ok by (auto simp: balancer_ok_def)
  show "\<exists>c. GetChannelOrDefault b name = Some c \<and> c \<notin> closedChans b \<and> (name \<notin> set (names b) \<longrightarrow> c = hd (chans b))"
    for name
  proof (cases "namesChans b name")
    case None
    then show ?thesis using cl len by (auto simp: GetChannelOrDefault_def split: list.splits)
  next
    case (Some c)
    then have "(name, c) \<in> set (zip (names b) (chans b))" using nc by (auto dest: map_of_SomeD)
    then show ?thesis using cl Some
      by (auto simp: GetChannelOrDefault_def dest: set_zip_leftD set_zip_rightD)
  qed
  show "channel \<in> set (names (snd (AddChannel b channel)))"
    using ch ok by (auto simp: AddChannel_def appendChannel_def balancer_ok_def dest: map_of_SomeD set_zip_leftD
        split: option.splits)
  assume "channel \<in> set (names b)"
  from RemoveChannel_ok [OF ok ch this] obtain b' i where rm: "RemoveChannel b channel = Some (None, b')"
    and ok': "balancer_ok b'" and i: "i < length (names b)" "names b ! i = channel"
    and n': "names b' = take i (names b) @ drop (Suc i) (names b)"
    and m': "namesChans b' = (namesChans b)(channel := None)" by blast
  have d0: "namesChans b defaultSendChannel = Some (hd (chans b))"
    using ok by (cases "names b"; cases "chans b") (auto simp: balancer_ok_def)
  have d1: "namesChans b' defaultSendChannel = Some (hd (chans b'))"
    using ok' by (cases "names b'"; cases "chans b'") (auto simp: balancer_ok_def)
  have "chans b' \<noteq> []" using ok' by (auto simp: balancer_ok_def)
  then have "GetChannelOrDefault b' channel = Some (hd (chans b))"
    using d0 d1 m' ch by (auto simp: GetChannelOrDefault_def neq_Nil_conv)
  moreover have "GetChannelOrDefault b' name = GetChannelOrDefault b name"
    if "name \<in> set (names b)" "name \<noteq> channel" for name
    using that m' nc len map_of_zip_is_None [of "names b" "chans b" name]
    by (auto simp: GetChannelOrDefault_def split: option.splits)
  ultimately show "\<exists>b'. RemoveChannel b channel = Some (None, b') \<and>
      GetChannelOrDefault b' channel = Some (hd (chans b)) \<and>
      (\<forall>name \<in> set (names b). name \<noteq> channel \<longrightarrow> GetChannelOrDefault b' name = GetChannelOrDefault b name)"
    using rm by blast
qed

theorem balancer_lookup_witness:
  "(\<exists>c. GetChannelOrDefault bal0 ''x'' = Some c) \<and> ''txs'' \<in> set (names (snd (AddChannel bal0 ''txs'')))"
  using balancer_lookup [OF new_ok [OF bal0_new], of "''txs''"] by (auto simp: defaultSendChannel_def)

section \<open>The forwarders\<close>

datatype 'd forwarder = Waiting | Holding "'d option" | Ended

text \<open>What was sent on each channel, and what the collector got: the channel it came through is noted.\<close>

record 'd traffic =
  fwd :: "chan \<Rightarrow> 'd forwarder"
  sent :: "(chan \<times> 'd) list"
  collected :: "(chan \<times> 'd option) list"

definition traffic_init :: "'d traffic" where
  "traffic_init = \<lparr>fwd = (\<lambda>_. Waiting), sent = [], collected = []\<rparr>"

text \<open>
  The steps of the goroutines while the set of channels is as in \<open>b\<close>. The main channel has no buffer:
  handing over a value and \<^verbatim>\<open>CollectOneElementFromChannels\<close> returning it are one step.
\<close>

inductive forward :: "balancer \<Rightarrow> 'd traffic \<Rightarrow> 'd traffic \<Rightarrow> bool" for b :: balancer where
  receive: "c \<in> set (forwarders b) \<Longrightarrow> c \<notin> closedChans b \<Longrightarrow> fwd t c = Waiting \<Longrightarrow>
    forward b t (t\<lparr>fwd := (fwd t)(c := Holding (Some d)), sent := sent t @ [(c, d)]\<rparr>)"
| receive_closed: "c \<in> set (forwarders b) \<Longrightarrow> c \<in> closedChans b \<Longrightarrow> fwd t c = Waiting \<Longrightarrow>
    forward b t (t\<lparr>fwd := (fwd t)(c := Holding None)\<rparr>)"
| collect: "c \<in> set (forwarders b) \<Longrightarrow> fwd t c = Holding x \<Longrightarrow>
    forward b t (t\<lparr>fwd := (fwd t)(c := Waiting), collected := collected t @ [(c, x)]\<rparr>)"
| ctx_done: "c \<in> set (forwarders b) \<Longrightarrow> fwd t c = Waiting \<Longrightarrow> forward b t (t\<lparr>fwd := (fwd t)(c := Ended)\<rparr>)"

inductive forwards :: "balancer \<Rightarrow> 'd traffic \<Rightarrow> 'd traffic \<Rightarrow> bool" for b :: balancer where
  no_step: "forwards b t t"
| one_more: "forwards b t t' \<Longrightarrow> forward b t' t'' \<Longrightarrow> forwards b t t''"

definition on_chan :: "chan \<Rightarrow> (chan \<times> 'x) list \<Rightarrow> 'x list" where
  "on_chan c l = map snd (filter (\<lambda>p. fst p = c) l)"

definition held :: "'d forwarder \<Rightarrow> 'd option list" where
  "held f = (case f of Holding x \<Rightarrow> [x] | _ \<Rightarrow> [])"

lemma on_chan_snoc [simp]: "on_chan c (l @ [(c', x)]) = on_chan c l @ (if c' = c then [x] else [])"
  by (simp add: on_chan_def)

lemma forwards_fifo:
  assumes "forwards b t0 t" and "t0 = traffic_init" and "c \<notin> closedChans b"
  shows "map Some (on_chan c (sent t)) = on_chan c (collected t) @ held (fwd t c)"
  using assms
proof (induction rule: forwards.induct)
  case (no_step t)
  then show ?case by (simp add: traffic_init_def on_chan_def held_def)
next
  case (one_more t t' t'')
  from one_more.hyps(2) one_more.IH one_more.prems show ?case by cases (auto simp: held_def)
qed

text \<open>
  On an open channel nothing is lost, duplicated or reordered: what the collector has received through
  the channel, followed by what its forwarder holds, is exactly what was sent on it, in that order.
\<close>

theorem open_channel_fifo:
  assumes "forwards b traffic_init t" and "balancer_ok b" and "c \<in> set (chans b)"
  shows "map Some (on_chan c (sent t)) = on_chan c (collected t) @ held (fwd t c)"
  using forwards_fifo [OF assms(1) refl] assms(2,3) by (auto simp: balancer_ok_def)

theorem open_channel_fifo_witness:
  "map Some (on_chan 0 [(0, 5 :: nat)]) = on_chan 0 [(0, Some 5)] @ held (Waiting :: nat forwarder)"
proof -
  let ?t1 = "\<lparr>fwd = (\<lambda>_. Waiting)(0 := Holding (Some 5)), sent = [(0, 5 :: nat)], collected = []\<rparr>"
  have f: "0 \<in> set (forwarders bal0)" "0 \<notin> closedChans bal0" "0 \<in> set (chans bal0)"
    by (simp_all add: bal0_def appendChannel_def)
  have 1: "forward bal0 traffic_init ?t1"
    using forward.receive [OF f(1,2), of traffic_init 5] by (simp add: traffic_init_def)
  have 2: "forward bal0 ?t1 (?t1\<lparr>fwd := (fwd ?t1)(0 := Waiting), collected := collected ?t1 @ [(0, Some 5)]\<rparr>)"
    by (rule forward.collect [OF f(1)]) simp
  from open_channel_fifo [OF forwards.one_more [OF forwards.one_more [OF forwards.no_step 1] 2] new_ok [OF bal0_new] f(3)]
  show ?thesis by simp
qed

lemma nil_stream:
  assumes "c \<in> set (forwarders b)" and "c \<in> closedChans b" and "fwd t c = Waiting"
  shows "\<exists>t'. forwards b t t' \<and> fwd t' c = Waiting \<and> sent t' = sent t \<and>
    collected t' = collected t @ replicate n (c, None)"
proof (induction n)
  case 0
  show ?case using forwards.no_step assms(3) by fastforce
next
  case (Suc n)
  then obtain t' where t': "forwards b t t'" "fwd t' c = Waiting" "sent t' = sent t"
    "collected t' = collected t @ replicate n (c, None)" by blast
  let ?t1 = "t'\<lparr>fwd := (fwd t')(c := Holding None)\<rparr>"
  let ?t2 = "?t1\<lparr>fwd := (fwd ?t1)(c := Waiting), collected := collected ?t1 @ [(c, None)]\<rparr>"
  have "forward b t' ?t1" using forward.receive_closed [OF assms(1,2) t'(2)] .
  moreover have "forward b ?t1 ?t2" by (rule forward.collect [OF assms(1)]) simp
  ultimately have "forwards b t ?t2" using t'(1) forwards.one_more by blast
  then show ?case using t' by (intro exI [of _ ?t2]) (simp add: replicate_append_same)
qed

text \<open>
  After \<^verbatim>\<open>RemoveChannel\<close> the removed channel's forwarder does not end: it reads \<^verbatim>\<open>nil\<close> from the closed
  channel and hands it to the collector, again and again, any number of times and with nothing being sent.
\<close>

theorem removed_channel_spins:
  assumes "balancer_ok b" and "channel \<noteq> defaultSendChannel" and "channel \<in> set (names b)"
  shows "\<exists>b' c. RemoveChannel b channel = Some (None, b') \<and>
    (\<forall>n. \<exists>t. forwards b' (traffic_init :: 'd traffic) t \<and> sent t = [] \<and> collected t = replicate n (c, None))"
proof -
  obtain b' i where rm: "RemoveChannel b channel = Some (None, b')" "i < length (names b)"
    "closedChans b' = insert (chans b ! i) (closedChans b)" "forwarders b' = forwarders b"
    using RemoveChannel_ok [OF assms] by blast
  have "chans b ! i \<in> set (forwarders b')" "chans b ! i \<in> closedChans b'"
    using rm assms(1) by (auto simp: balancer_ok_def)
  from nil_stream [OF this, of "traffic_init :: 'd traffic"] rm(1) show ?thesis
    by (simp add: traffic_init_def) blast
qed

theorem removed_channel_spins_witness:
  "\<exists>b' c. RemoveChannel (snd (AddChannel bal0 ''txs'')) ''txs'' = Some (None, b') \<and>
    (\<exists>t. forwards b' (traffic_init :: nat traffic) t \<and> sent t = [] \<and> collected t = replicate 3 (c, None))"
proof -
  have "balancer_ok (snd (AddChannel bal0 ''txs''))"
    using appendChannel_ok [OF new_ok [OF bal0_new]] new_ok [OF bal0_new]
    by (simp add: AddChannel_def split: option.splits)
  then show ?thesis
    using removed_channel_spins [of "snd (AddChannel bal0 ''txs'')" "''txs''", where 'd = nat]
    by (fastforce simp: AddChannel_def bal0_def appendChannel_def defaultSendChannel_def)
qed

end
