(* ===== verification/Message.thy ===== *)
theory Message
  imports Topic_Message
begin

text \<open>
  \<^verbatim>\<open>p2p/message/message.go\<close>, \<^verbatim>\<open>p2p/libp2p/message.go\<close> (\<^verbatim>\<open>NewMessage\<close>, which every received message goes
  through) and \<^verbatim>\<open>p2p/messageCheck/messageVerifier.go\<close>.

  Arguments for code outside of the repository: the marshaller (the record \<open>marshaller_ops\<close> with the contract of
  the locale \<open>marshaller\<close>, interpreted on the generated codec of \<^verbatim>\<open>TopicMessage\<close>, which is what the
  protobuf marshaller calls), \<^verbatim>\<open>peer.IDFromBytes\<close>, the codec of libp2p's \<^verbatim>\<open>pubsubPb.Message\<close>, the signer's
  cryptography. \<^verbatim>\<open>pubsubPb.Message\<close> is libp2p's struct; its fields are kept, \<^verbatim>\<open>Topic\<close> and \<^verbatim>\<open>Key\<close> with their
  \<^verbatim>\<open>nil\<close>, which the code tests for.
\<close>

section \<open>Data\<close>

record pubsubMessage =
  pb_From :: bytes
  pb_Data :: bytes
  pb_Seqno :: bytes
  pb_Topic :: "string option"
  pb_Signature :: bytes
  pb_Key :: "bytes option"

datatype BroadcastMethod = Direct | Broadcast

record Message =
  FromField :: bytes
  DataField :: bytes
  PayloadField :: bytes
  SeqNoField :: bytes
  TopicField :: string
  SignatureField :: bytes
  KeyField :: "bytes option"
  PeerField :: peer_id
  TimestampField :: int64
  BroadcastMethodField :: BroadcastMethod

section \<open>The marshaller\<close>

record marshaller_ops =
  m_Marshal :: "TopicMessage \<Rightarrow> string + bytes"
  m_Unmarshal :: "bytes \<Rightarrow> string + TopicMessage"

text \<open>What the package relies on: a message that can be encoded at all is decoded to itself.\<close>

locale marshaller =
  fixes M :: marshaller_ops and encodable :: "TopicMessage \<Rightarrow> bool"
  assumes roundtrip: "encodable m \<Longrightarrow> \<exists>d. m_Marshal M m = Inr d \<and> m_Unmarshal M d = Inr m"
begin

lemma unmarshal_marshalled: "encodable m \<Longrightarrow> m_Marshal M m = Inr d \<Longrightarrow> m_Unmarshal M d = Inr m"
  using roundtrip by fastforce

end

text \<open>The protobuf marshaller on the generated code of the message; unmarshalling resets the target first.\<close>

definition protoMarshaller :: marshaller_ops where
  "protoMarshaller =
     \<lparr>m_Marshal = (\<lambda>m. case TopicMessage_Marshal m of None \<Rightarrow> Inl ''panic'' | Some d \<Rightarrow> Inr d),
      m_Unmarshal = (\<lambda>d. case TopicMessage_Unmarshal d TopicMessage_zero of
         Inl _ \<Rightarrow> Inl ''unmarshal error'' | Inr m \<Rightarrow> Inr m)\<rparr>"

lemma TopicMessage_decode_enc:
  assumes "TopicMessage_sized m"
  shows "TopicMessage_Unmarshal (TopicMessage_enc m) TopicMessage_zero = Inr m"
proof -
  have "TopicMessage_loop (TopicMessage_enc m) 0 TopicMessage_zero =
      TopicMessage_loop (TopicMessage_enc m) (length (TopicMessage_enc m)) m"
    using TopicMessage_loop_enc [of 0 "TopicMessage_enc m" m "[]"] assms by (simp add: TopicMessage_sized_def)
  then show ?thesis by (simp add: TopicMessage_Unmarshal_def topic_msg.loop_end)
qed

interpretation proto: marshaller protoMarshaller TopicMessage_sized
  by unfold_locales (simp add: protoMarshaller_def TopicMessage_Marshal_enc TopicMessage_decode_enc)

section \<open>NewMessage\<close>

definition currentTopicMessageVersion :: uint32 where "currentTopicMessageVersion = 1"

definition NewMessage ::
    "(bytes \<Rightarrow> string + peer_id) \<Rightarrow> marshaller_ops option \<Rightarrow> pubsubMessage option \<Rightarrow> BroadcastMethod
     \<Rightarrow> p2p_error + Message" where
  "NewMessage idFromBytes M msg broadcastMethod =
     (case M of None \<Rightarrow> Inl ErrNilMarshaller
      | Some M \<Rightarrow> (case msg of None \<Rightarrow> Inl ErrNilMessage
        | Some msg \<Rightarrow> (case pb_Topic msg of None \<Rightarrow> Inl ErrNilTopic
          | Some topic \<Rightarrow> (case m_Unmarshal M (pb_Data msg) of Inl _ \<Rightarrow> Inl ErrMessageUnmarshalError
            | Inr topicMessage \<Rightarrow>
              if tm_Version topicMessage \<noteq> currentTopicMessageVersion then Inl ErrUnsupportedMessageVersion
              else if length (tm_SignatureOnPid topicMessage) + length (tm_Pk topicMessage) > 0
                then Inl ErrUnsupportedFields
              else (case idFromBytes (pb_From msg) of Inl e \<Rightarrow> Inl (ErrOther e)
                | Inr i \<Rightarrow> Inr
                  \<lparr>FromField = pb_From msg, DataField = tm_Payload topicMessage, PayloadField = pb_Data msg,
                   SeqNoField = pb_Seqno msg, TopicField = topic, SignatureField = pb_Signature msg,
                   KeyField = pb_Key msg, PeerField = i, TimestampField = tm_Timestamp topicMessage,
                   BroadcastMethodField = broadcastMethod\<rparr>)))))"

section \<open>The message verifier\<close>

text \<open>\<^verbatim>\<open>crypto.p2pSignerWrapper\<close>: hash, then the single signer; keys and the hash function are arguments.\<close>

record ('sk, 'pk) crypto_ops =
  cr_sha256 :: "bytes \<Rightarrow> bytes"
  cr_Sign :: "'sk \<Rightarrow> bytes \<Rightarrow> string + bytes"
  cr_Verify :: "'pk \<Rightarrow> bytes \<Rightarrow> bytes \<Rightarrow> string option"
  cr_ConvertPeerIDToPublicKey :: "peer_id \<Rightarrow> string + 'pk"
  cr_PrivateKeyFromByteArray :: "bytes \<Rightarrow> string + 'sk"

definition signer_Sign :: "('sk, 'pk) crypto_ops \<Rightarrow> 'sk \<Rightarrow> bytes \<Rightarrow> string + bytes" where
  "signer_Sign cr privateKey payload = cr_Sign cr privateKey (cr_sha256 cr payload)"

definition signer_Verify :: "('sk, 'pk) crypto_ops \<Rightarrow> bytes \<Rightarrow> peer_id \<Rightarrow> bytes \<Rightarrow> string option" where
  "signer_Verify cr payload p signature =
     (case cr_ConvertPeerIDToPublicKey cr p of Inl e \<Rightarrow> Some e
      | Inr pubKey \<Rightarrow> cr_Verify cr pubKey (cr_sha256 cr payload) signature)"

definition SignUsingPrivateKey :: "('sk, 'pk) crypto_ops \<Rightarrow> bytes \<Rightarrow> bytes \<Rightarrow> string + bytes" where
  "SignUsingPrivateKey cr skBytes payload =
     (case cr_PrivateKeyFromByteArray cr skBytes of Inl e \<Rightarrow> Inl e
      | Inr sk \<Rightarrow> cr_Sign cr sk (cr_sha256 cr payload))"

text \<open>The codec of libp2p's message and of the batch, and the constant \<^verbatim>\<open>pubsub.SignPrefix\<close>.\<close>

record pubsub_ops =
  ps_Marshal :: "pubsubMessage \<Rightarrow> string + bytes"
  ps_Unmarshal :: "bytes \<Rightarrow> string + pubsubMessage"
  ps_SignPrefix :: bytes
  batch_Marshal :: "bytes list \<Rightarrow> string + bytes"
  batch_Unmarshal :: "bytes \<Rightarrow> string + bytes list"

definition withSignPrefix :: "pubsub_ops \<Rightarrow> bytes \<Rightarrow> bytes" where
  "withSignPrefix P bs = ps_SignPrefix P @ bs"

definition convertP2PMessagetoPubSubMessage :: "Message \<Rightarrow> pubsubMessage" where
  "convertP2PMessagetoPubSubMessage msg =
     \<lparr>pb_From = FromField msg, pb_Data = PayloadField msg, pb_Seqno = SeqNoField msg,
      pb_Topic = Some (TopicField msg), pb_Signature = SignatureField msg, pb_Key = KeyField msg\<rparr>"

definition preparePubSubMessagePayload :: "pubsub_ops \<Rightarrow> Message \<Rightarrow> string + bytes" where
  "preparePubSubMessagePayload P msg =
     (let xm = (convertP2PMessagetoPubSubMessage msg)\<lparr>pb_Signature := [], pb_Key := None\<rparr> in
      case ps_Marshal P xm of Inl e \<Rightarrow> Inl e | Inr d \<Rightarrow> Inr (withSignPrefix P d))"

definition verifier_Verify :: "('sk, 'pk) crypto_ops \<Rightarrow> pubsub_ops \<Rightarrow> Message option \<Rightarrow> p2p_error option" where
  "verifier_Verify cr P msg =
     (case msg of None \<Rightarrow> Some ErrNilMessage
      | Some msg \<Rightarrow> (case preparePubSubMessagePayload P msg of Inl e \<Rightarrow> Some (ErrOther e)
        | Inr payload \<Rightarrow> map_option ErrOther (signer_Verify cr payload (PeerField msg) (SignatureField msg))))"

fun Serialize_loop :: "pubsub_ops \<Rightarrow> Message option list \<Rightarrow> bytes list \<Rightarrow> p2p_error + bytes list" where
  "Serialize_loop P [] acc = Inr acc"
| "Serialize_loop P (None # ms) acc = Serialize_loop P ms acc"
| "Serialize_loop P (Some msg # ms) acc =
     (case ps_Marshal P (convertP2PMessagetoPubSubMessage msg) of Inl e \<Rightarrow> Inl (ErrOther e)
      | Inr d \<Rightarrow> Serialize_loop P ms (acc @ [d]))"

definition Serialize :: "pubsub_ops \<Rightarrow> Message option list \<Rightarrow> p2p_error + bytes" where
  "Serialize P messages =
     (case Serialize_loop P messages [] of Inl e \<Rightarrow> Inl e
      | Inr pubsubMessages \<Rightarrow>
        if pubsubMessages = [] then Inr []
        else (case batch_Marshal P pubsubMessages of Inl e \<Rightarrow> Inl (ErrOther e) | Inr d \<Rightarrow> Inr d))"

definition convertPubSubMessagestoP2PMessage ::
    "(bytes \<Rightarrow> string + peer_id) \<Rightarrow> marshaller_ops \<Rightarrow> pubsubMessage \<Rightarrow> p2p_error + Message" where
  "convertPubSubMessagestoP2PMessage idFromBytes M msg = NewMessage idFromBytes (Some M) (Some msg) Broadcast"

fun Deserialize_loop ::
    "(bytes \<Rightarrow> string + peer_id) \<Rightarrow> marshaller_ops \<Rightarrow> pubsub_ops \<Rightarrow> bytes list \<Rightarrow> Message list
     \<Rightarrow> p2p_error + Message list" where
  "Deserialize_loop idFromBytes M P [] acc = Inr acc"
| "Deserialize_loop idFromBytes M P (b # bs) acc =
     (case ps_Unmarshal P b of Inl e \<Rightarrow> Inl (ErrOther e)
      | Inr pubsubMsg \<Rightarrow>
        (case convertPubSubMessagestoP2PMessage idFromBytes M pubsubMsg of
           Inl _ \<Rightarrow> Deserialize_loop idFromBytes M P bs acc
         | Inr m \<Rightarrow> Deserialize_loop idFromBytes M P bs (acc @ [m])))"

definition Deserialize ::
    "(bytes \<Rightarrow> string + peer_id) \<Rightarrow> marshaller_ops \<Rightarrow> pubsub_ops \<Rightarrow> bytes \<Rightarrow> p2p_error + Message list" where
  "Deserialize idFromBytes M P messagesBytes =
     (case batch_Unmarshal P messagesBytes of Inl e \<Rightarrow> Inl (ErrOther e)
      | Inr data \<Rightarrow> Deserialize_loop idFromBytes M P data [])"

section \<open>Properties\<close>

text \<open>
  What \<^verbatim>\<open>NewMessage\<close> accepts: a message is returned exactly when the marshaller, the pubsub message and its
  topic are there, the data is the encoding of a topic message of version 1 without the two unsupported
  fields, and the sender is a peer id; the message then has the envelope's payload and timestamp, and the
  sender, sequence number, topic and signature of the pubsub message.
\<close>

theorem NewMessage_accepts:
  "NewMessage idFromBytes M msg method = Inr m \<longleftrightarrow>
   (\<exists>ops pb topic tm. M = Some ops \<and> msg = Some pb \<and> pb_Topic pb = Some topic \<and>
     m_Unmarshal ops (pb_Data pb) = Inr tm \<and> tm_Version tm = 1 \<and> tm_Pk tm = [] \<and> tm_SignatureOnPid tm = [] \<and>
     idFromBytes (pb_From pb) = Inr (PeerField m) \<and>
     m = \<lparr>FromField = pb_From pb, DataField = tm_Payload tm, PayloadField = pb_Data pb,
       SeqNoField = pb_Seqno pb, TopicField = topic, SignatureField = pb_Signature pb, KeyField = pb_Key pb,
       PeerField = PeerField m, TimestampField = tm_Timestamp tm, BroadcastMethodField = method\<rparr>)"
  by (auto simp: NewMessage_def currentTopicMessageVersion_def split: option.splits sum.splits if_splits)

lemma NewMessage_convert:
  assumes "NewMessage idFromBytes (Some M) (Some pb) Broadcast = Inr m"
  shows "convertPubSubMessagestoP2PMessage idFromBytes M (convertP2PMessagetoPubSubMessage m) = Inr m"
  using assms
  by (auto simp: convertPubSubMessagestoP2PMessage_def convertP2PMessagetoPubSubMessage_def NewMessage_def
      split: option.splits sum.splits if_splits)

lemma Serialize_loop_spec:
  assumes "\<And>m. m \<in> set ms \<Longrightarrow> ps_Marshal P (convertP2PMessagetoPubSubMessage m) = Inr (enc m)"
  shows "Serialize_loop P (map Some ms) acc = Inr (acc @ map enc ms)"
  using assms by (induction ms arbitrary: acc) auto

lemma Deserialize_loop_spec:
  assumes "\<And>m. m \<in> set ms \<Longrightarrow> ps_Unmarshal P (enc m) = Inr (convertP2PMessagetoPubSubMessage m)"
    and "\<And>m. m \<in> set ms \<Longrightarrow>
      convertPubSubMessagestoP2PMessage idFromBytes M (convertP2PMessagetoPubSubMessage m) = Inr m"
  shows "Deserialize_loop idFromBytes M P (map enc ms) acc = Inr (acc @ ms)"
  using assms by (induction ms arbitrary: acc) auto

text \<open>
  The verifier's list codec: messages that were received by \<^verbatim>\<open>NewMessage\<close> as broadcasts come back unchanged
  and in order from \<^verbatim>\<open>Deserialize\<close> after \<^verbatim>\<open>Serialize\<close>, when the codecs of the library are inverse to each other.
\<close>

theorem verifier_roundtrip:
  assumes "ms \<noteq> []"
    and "\<forall>m \<in> set ms. \<exists>pb. NewMessage idFromBytes (Some M) (Some pb) Broadcast = Inr m"
    and "\<forall>m \<in> set ms. \<exists>d. ps_Marshal P (convertP2PMessagetoPubSubMessage m) = Inr d \<and>
      ps_Unmarshal P d = Inr (convertP2PMessagetoPubSubMessage m)"
    and "\<forall>ds. length ds = length ms \<longrightarrow> (\<exists>d. batch_Marshal P ds = Inr d \<and> batch_Unmarshal P d = Inr ds)"
  shows "\<exists>d. Serialize P (map Some ms) = Inr d \<and> Deserialize idFromBytes M P d = Inr ms"
proof -
  obtain e where e: "\<And>m. m \<in> set ms \<Longrightarrow> ps_Marshal P (convertP2PMessagetoPubSubMessage m) = Inr (e m) \<and>
      ps_Unmarshal P (e m) = Inr (convertP2PMessagetoPubSubMessage m)"
    using assms(3) by metis
  obtain d where d: "batch_Marshal P (map e ms) = Inr d" "batch_Unmarshal P d = Inr (map e ms)"
    using assms(4) by (metis length_map)
  have ser: "Serialize_loop P (map Some ms) [] = Inr (map e ms)"
    using Serialize_loop_spec [of ms P e "[]"] e by simp
  have "convertPubSubMessagestoP2PMessage idFromBytes M (convertP2PMessagetoPubSubMessage m) = Inr m"
    if "m \<in> set ms" for m
    using assms(2) that NewMessage_convert by blast
  then have "Deserialize_loop idFromBytes M P (map e ms) [] = Inr ms"
    using Deserialize_loop_spec [of ms P e idFromBytes M "[]"] e by simp
  then show ?thesis using ser d assms(1) by (simp add: Serialize_def Deserialize_def)
qed

text \<open>An example: a received broadcast, and codecs that carry one message in its data.\<close>

definition example_envelope :: TopicMessage where
  "example_envelope = \<lparr>tm_Version = 1, tm_Payload = [104, 105], tm_Timestamp = 100, tm_Pk = [], tm_SignatureOnPid = []\<rparr>"

definition example_pb :: pubsubMessage where
  "example_pb = \<lparr>pb_From = [65], pb_Data = TopicMessage_enc example_envelope, pb_Seqno = [1],
     pb_Topic = Some ''t'', pb_Signature = [9], pb_Key = None\<rparr>"

definition example_msg :: Message where
  "example_msg = \<lparr>FromField = [65], DataField = [104, 105], PayloadField = TopicMessage_enc example_envelope,
     SeqNoField = [1], TopicField = ''t'', SignatureField = [9], KeyField = None, PeerField = ''A'',
     TimestampField = 100, BroadcastMethodField = Broadcast\<rparr>"

definition example_ops :: pubsub_ops where
  "example_ops = \<lparr>ps_Marshal = (\<lambda>m. Inr (pb_Data m)), ps_Unmarshal = (\<lambda>d. Inr (example_pb\<lparr>pb_Data := d\<rparr>)),
     ps_SignPrefix = [1], batch_Marshal = (\<lambda>ds. Inr (concat ds)), batch_Unmarshal = (\<lambda>d. Inr [d])\<rparr>"

lemma example_envelope_sized: "TopicMessage_sized example_envelope"
  by (simp add: TopicMessage_sized_def TopicMessage_enc_def example_envelope_def enc_varint_field_def
      enc_bytes_field_def enc_nat.simps fits_int_def)

lemma example_received:
  "NewMessage (\<lambda>b. Inr (string_of_bytes b)) (Some protoMarshaller) (Some example_pb) Broadcast = Inr example_msg"
proof -
  have "m_Unmarshal protoMarshaller (pb_Data example_pb) = Inr example_envelope"
    using TopicMessage_decode_enc [OF example_envelope_sized]
    by (simp add: protoMarshaller_def example_pb_def)
  moreover have "string_of_bytes [65] = ''A''" by code_simp
  ultimately show ?thesis
    by (simp add: NewMessage_def example_pb_def example_msg_def example_envelope_def
        currentTopicMessageVersion_def)
qed

theorem verifier_roundtrip_witness:
  "\<exists>d. Serialize example_ops (map Some [example_msg]) = Inr d \<and>
     Deserialize (\<lambda>b. Inr (string_of_bytes b)) protoMarshaller example_ops d = Inr [example_msg]"
proof (rule verifier_roundtrip)
  show "\<forall>m \<in> set [example_msg]. \<exists>pb.
      NewMessage (\<lambda>b. Inr (string_of_bytes b)) (Some protoMarshaller) (Some pb) Broadcast = Inr m"
    using example_received by auto
  show "\<forall>ds. length ds = length [example_msg] \<longrightarrow>
      (\<exists>d. batch_Marshal example_ops ds = Inr d \<and> batch_Unmarshal example_ops d = Inr ds)"
    by (auto simp: example_ops_def length_Suc_conv)
qed (simp_all add: example_ops_def convertP2PMessagetoPubSubMessage_def example_pb_def example_msg_def)

end
