(* ===== verification/Direct_Sender.thy ===== *)
theory Direct_Sender
  imports Message
begin

text \<open>
  \<^verbatim>\<open>p2p/libp2p/directSender.go\<close>: messages that are sent over a stream to one connected peer, their sequence
  numbers, signatures and the checks of the receiving side.

  Arguments for code outside of the repository: the cache of seen messages (\<^verbatim>\<open>timecache\<close>), the cryptography
  and the codecs of theory \<^verbatim>\<open>Message\<close>, and of the host the lists of connections and streams it returns and
  the results of opening and writing a stream. The per-peer mutex serialises the senders; a call of \<^verbatim>\<open>Send\<close> is
  one step here.
\<close>

section \<open>State\<close>

record 'tc timecache_ops =
  tc_Has :: "'tc \<Rightarrow> string \<Rightarrow> bool"
  tc_Add :: "'tc \<Rightarrow> string \<Rightarrow> 'tc"

record 'tc directSender =
  counter :: uint64
  hasMessageHandler :: bool
  seenMessages :: 'tc

text \<open>Everything that is fixed when the sender is created.\<close>

record ('sk, 'pk, 'tc) ds_env =
  e_crypto :: "('sk, 'pk) crypto_ops"
  e_privateKey :: 'sk
  e_pubsub :: pubsub_ops
  e_marshaller :: marshaller_ops
  e_idFromBytes :: "bytes \<Rightarrow> string + peer_id"
  e_timecache :: "'tc timecache_ops"

definition maxSendBuffSize :: nat where
  "maxSendBuffSize = 2 ^ 21 - 64 * 1024"

definition NewDirectSender ::
    "bool \<Rightarrow> bool \<Rightarrow> bool \<Rightarrow> bool \<Rightarrow> bool \<Rightarrow> uint64 \<Rightarrow> 'tc \<Rightarrow> p2p_error + 'tc directSender" where
  "NewDirectSender hasHost hasCtx hasSigner hasMarshaller hasLogger unixNano emptyCache =
     (if \<not> hasHost then Inl ErrNilHost
      else if \<not> hasCtx then Inl ErrNilContext
      else if \<not> hasSigner then Inl ErrNilP2PSigner
      else if \<not> hasMarshaller then Inl ErrNilMarshaller
      else if \<not> hasLogger then Inl ErrNilLogger
      else Inr \<lparr>counter = unixNano, hasMessageHandler = False, seenMessages = emptyCache\<rparr>)"

definition RegisterDirectMessageProcessor ::
    "'tc directSender \<Rightarrow> bool \<Rightarrow> p2p_error option \<times> 'tc directSender" where
  "RegisterDirectMessageProcessor ds hasHandler =
     (if \<not> hasHandler then (Some ErrNilDirectSendMessageHandler, ds)
      else (None, ds\<lparr>hasMessageHandler := True\<rparr>))"

section \<open>Sending\<close>

text \<open>\<^verbatim>\<open>binary.BigEndian.PutUint64\<close>.\<close>

definition PutUint64 :: "uint64 \<Rightarrow> bytes" where
  "PutUint64 v = map (\<lambda>k. ucast (drop_bit (8 * k) v)) [7, 6, 5, 4, 3, 2, 1, 0]"

definition NextSequenceNumber :: "'tc directSender \<Rightarrow> bytes \<times> 'tc directSender" where
  "NextSequenceNumber ds =
     (let newVal = counter ds + 1 in (PutUint64 newVal, ds\<lparr>counter := newVal\<rparr>))"

text \<open>The loop of \<^verbatim>\<open>getConnection\<close>, on connections with their numbers of streams.\<close>

fun getConnection_loop :: "('conn \<times> nat) list \<Rightarrow> nat \<Rightarrow> 'conn option \<Rightarrow> 'conn option" where
  "getConnection_loop [] lStreams conn = conn"
| "getConnection_loop ((c, len) # cs) lStreams conn =
     (if len \<ge> lStreams then getConnection_loop cs len (Some c) else getConnection_loop cs lStreams conn)"

definition getConnection :: "('conn \<times> nat) list \<Rightarrow> p2p_error + 'conn option" where
  "getConnection conns =
     (if conns = [] then Inl ErrPeerNotDirectlyConnected else Inr (getConnection_loop conns 0 None))"

record 'st stream_info =
  st_stream :: 'st
  st_isDirectSend :: bool
  st_isOutbound :: bool

definition getOrCreateStream :: "'st stream_info list \<Rightarrow> string + 'st \<Rightarrow> p2p_error + 'st" where
  "getOrCreateStream streams newStream =
     (case find (\<lambda>s. st_isDirectSend s \<and> st_isOutbound s) streams of Some s \<Rightarrow> Inr (st_stream s)
      | None \<Rightarrow> (case newStream of Inl e \<Rightarrow> Inl (ErrOther e) | Inr s \<Rightarrow> Inr s))"

definition createMessage ::
    "('sk, 'pk, 'tc) ds_env \<Rightarrow> 'tc directSender \<Rightarrow> string \<Rightarrow> bytes \<Rightarrow> peer_id
     \<Rightarrow> (p2p_error + pubsubMessage) \<times> 'tc directSender" where
  "createMessage E ds topic buff localPeer =
     (let (seqno, ds1) = NextSequenceNumber ds;
          mes = \<lparr>pb_From = bytes_of_string localPeer, pb_Data = buff, pb_Seqno = seqno,
                 pb_Topic = Some topic, pb_Signature = [], pb_Key = None\<rparr>
      in (case ps_Marshal (e_pubsub E) mes of Inl e \<Rightarrow> (Inl (ErrOther e), ds1)
          | Inr d \<Rightarrow>
            (case signer_Sign (e_crypto E) (e_privateKey E) (withSignPrefix (e_pubsub E) d) of
               Inl e \<Rightarrow> (Inl (ErrOther e), ds1)
             | Inr sig \<Rightarrow> (Inr (mes\<lparr>pb_Signature := sig\<rparr>), ds1))))"

text \<open>
  \<^verbatim>\<open>Send\<close>: on success the message and the stream it was written to. \<open>streamsOf\<close> and \<open>newStream\<close> are what the host
  answers for a connection, \<open>write\<close> is the result of writing and flushing.
\<close>

definition Send ::
    "('sk, 'pk, 'tc) ds_env \<Rightarrow> 'tc directSender \<Rightarrow> string \<Rightarrow> bytes \<Rightarrow> ('conn \<times> nat) list
     \<Rightarrow> ('conn \<Rightarrow> 'st stream_info list) \<Rightarrow> ('conn \<Rightarrow> string + 'st) \<Rightarrow> ('conn \<Rightarrow> peer_id)
     \<Rightarrow> ('st \<Rightarrow> pubsubMessage \<Rightarrow> string option) \<Rightarrow> (p2p_error + ('st \<times> pubsubMessage)) \<times> 'tc directSender" where
  "Send E ds topic buff conns streamsOf newStream localPeer write =
     (if length buff \<ge> maxSendBuffSize then (Inl ErrMessageTooLarge, ds)
      else (case getConnection conns of Inl e \<Rightarrow> (Inl e, ds)
        | Inr None \<Rightarrow> (Inl ErrPeerNotDirectlyConnected, ds)
        | Inr (Some conn) \<Rightarrow>
          (case getOrCreateStream (streamsOf conn) (newStream conn) of Inl e \<Rightarrow> (Inl e, ds)
           | Inr stream \<Rightarrow>
             (case createMessage E ds topic buff (localPeer conn) of (Inl e, ds1) \<Rightarrow> (Inl e, ds1)
              | (Inr msg, ds1) \<Rightarrow>
                (case write stream msg of Some e \<Rightarrow> (Inl (ErrOther e), ds1)
                 | None \<Rightarrow> (Inr (stream, msg), ds1))))))"

section \<open>Receiving\<close>

definition messageId :: "pubsubMessage \<Rightarrow> string" where
  "messageId msg = string_of_bytes (pb_From msg) @ string_of_bytes (pb_Seqno msg)"

definition checkAndSetSeenMessage ::
    "'tc timecache_ops \<Rightarrow> 'tc directSender \<Rightarrow> pubsubMessage \<Rightarrow> bool \<times> 'tc directSender" where
  "checkAndSetSeenMessage T ds msg =
     (if tc_Has T (seenMessages ds) (messageId msg) then (True, ds)
      else (False, ds\<lparr>seenMessages := tc_Add T (seenMessages ds) (messageId msg)\<rparr>))"

definition checkSig :: "('sk, 'pk, 'tc) ds_env \<Rightarrow> pubsubMessage \<Rightarrow> p2p_error option" where
  "checkSig E message =
     (if length (pb_Signature message) = 0 then None
      else (case ps_Marshal (e_pubsub E) (message\<lparr>pb_Signature := [], pb_Key := None\<rparr>) of
              Inl e \<Rightarrow> Some (ErrOther e)
            | Inr d \<Rightarrow> map_option ErrOther (signer_Verify (e_crypto E) (withSignPrefix (e_pubsub E) d)
                (string_of_bytes (pb_From message)) (pb_Signature message))))"

text \<open>\<^const>\<open>Inr\<close> is the message that is given to the registered handler.\<close>

definition processReceivedDirectMessage ::
    "('sk, 'pk, 'tc) ds_env \<Rightarrow> 'tc directSender \<Rightarrow> pubsubMessage option \<Rightarrow> peer_id
     \<Rightarrow> (p2p_error + Message) \<times> 'tc directSender" where
  "processReceivedDirectMessage E ds message fromConnectedPeer =
     (if \<not> hasMessageHandler ds then (Inl ErrNilDirectSendMessageHandler, ds)
      else (case message of None \<Rightarrow> (Inl ErrNilMessage, ds)
        | Some msg \<Rightarrow>
          if pb_Topic msg = None then (Inl ErrNilTopic, ds)
          else if pb_From msg \<noteq> bytes_of_string fromConnectedPeer then (Inl ErrInvalidValue, ds)
          else if pb_Key msg \<noteq> None then (Inl ErrInvalidValue, ds)
          else if length (pb_Seqno msg) > 8 then (Inl ErrInvalidValue, ds)
          else (case checkAndSetSeenMessage (e_timecache E) ds msg of
              (True, ds1) \<Rightarrow> (Inl ErrAlreadySeenMessage, ds1)
            | (False, ds1) \<Rightarrow>
              (case checkSig E msg of Some e \<Rightarrow> (Inl e, ds1)
               | None \<Rightarrow> (NewMessage (e_idFromBytes E) (Some (e_marshaller E)) (Some msg) Direct, ds1)))))"

section \<open>Sequence numbers\<close>

lemma PutUint64_nth: "k < 8 \<Longrightarrow> PutUint64 v ! (7 - k) = ucast (drop_bit (8 * k) v)"
proof -
  assume "k < 8"
  then have "k \<in> {0, 1, 2, 3, 4, 5, 6, 7}" by auto
  then show ?thesis by (elim insertE) (simp_all add: PutUint64_def)
qed

lemma PutUint64_bit:
  assumes "n < 64"
  shows "bit (PutUint64 v ! (7 - n div 8)) (n mod 8) = bit v n"
proof -
  have "n div 8 < 8" using assms by simp
  from PutUint64_nth [OF this, of v] show ?thesis by (simp add: bit_simps)
qed

lemma PutUint64_inject [simp]: "PutUint64 v = PutUint64 w \<longleftrightarrow> v = w"
proof
  assume eq: "PutUint64 v = PutUint64 w"
  show "v = w"
  proof (rule bit_word_eqI)
    fix n
    assume "n < LENGTH(64)"
    then show "bit v n = bit w n" using PutUint64_bit [of n v] PutUint64_bit [of n w] eq by simp
  qed
qed simp

lemma length_PutUint64 [simp]: "length (PutUint64 v) = 8"
  by (simp add: PutUint64_def)

text \<open>The sequence numbers of \<open>n\<close> calls.\<close>

primrec sequence_numbers :: "nat \<Rightarrow> 'tc directSender \<Rightarrow> bytes list" where
  "sequence_numbers 0 ds = []"
| "sequence_numbers (Suc n) ds =
     fst (NextSequenceNumber ds) # sequence_numbers n (snd (NextSequenceNumber ds))"

lemma sequence_numbers_eq:
  "sequence_numbers n ds = map (\<lambda>k. PutUint64 (counter ds + of_nat (Suc k))) [0..<n]"
proof (induction n arbitrary: ds)
  case (Suc n)
  have "[0..<Suc n] = 0 # map Suc [0..<n]" by (simp add: upt_conv_Cons map_Suc_upt)
  then show ?case by (simp add: Suc NextSequenceNumber_def Let_def algebra_simps)
qed simp

text \<open>
  The sequence numbers of one sender: each is eight bytes, and they do not repeat within \<open>2 ^ 64\<close> calls,
  wherever the counter started and across its wrap-around.
\<close>

theorem sequence_numbers_distinct:
  assumes "n \<le> 2 ^ 64"
  shows "distinct (sequence_numbers n ds) \<and> (\<forall>s \<in> set (sequence_numbers n ds). length s = 8)"
proof -
  have "inj_on (\<lambda>k. PutUint64 (counter ds + of_nat (Suc k))) {0..<n}"
  proof (rule inj_onI)
    fix i j
    assume i: "i \<in> {0..<n}" and j: "j \<in> {0..<n}"
      and eq: "PutUint64 (counter ds + of_nat (Suc i)) = PutUint64 (counter ds + of_nat (Suc j))"
    then have "(of_nat i :: uint64) = of_nat j" by simp
    then have "i mod 2 ^ 64 = j mod 2 ^ 64"
      by (simp add: word_of_nat_eq_iff take_bit_eq_mod)
    then show "i = j" using i j assms by simp
  qed
  then show ?thesis by (auto simp: sequence_numbers_eq distinct_map)
qed

theorem sequence_numbers_distinct_witness:
  "distinct (sequence_numbers 3 \<lparr>counter = -2, hasMessageHandler = True, seenMessages = {} :: string set\<rparr>)"
  using sequence_numbers_distinct [of 3 "\<lparr>counter = -2, hasMessageHandler = True, seenMessages = {} :: string set\<rparr>"]
  by simp

text \<open>The chosen connection has the most streams.\<close>

lemma getConnection_most_streams:
  "getConnection_loop cs l c0 = Some c \<Longrightarrow> c0 = Some c \<and> (\<forall>x \<in> set cs. snd x < l) \<or>
   (\<exists>n. (c, n) \<in> set cs \<and> l \<le> n \<and> (\<forall>x \<in> set cs. snd x \<le> n))"
proof (induction cs arbitrary: l c0)
  case (Cons x cs)
  obtain d k where x: "x = (d, k)" by (cases x)
  show ?case
  proof (cases "l \<le> k")
    case True
    then have "getConnection_loop cs k (Some d) = Some c" using Cons.prems x by simp
    from Cons.IH [OF this] consider "c = d" "\<forall>x \<in> set cs. snd x < k"
      | n where "(c, n) \<in> set cs" "k \<le> n" "\<forall>x \<in> set cs. snd x \<le> n" by auto
    then show ?thesis
    proof cases
      case 1
      then show ?thesis using True x by (intro disjI2 exI [of _ k]) (auto simp: less_imp_le)
    next
      case 2
      then show ?thesis using True x by (intro disjI2 exI [of _ n]) auto
    qed
  next
    case False
    then show ?thesis using Cons.IH [of l c0] Cons.prems x by auto
  qed
qed simp

section \<open>Receiving\<close>

lemma process_eq:
  assumes "hasMessageHandler ds" and "pb_Topic pb = Some topic" and "pb_From pb = bytes_of_string p"
    and "pb_Key pb = None" and "length (pb_Seqno pb) \<le> 8"
  shows "processReceivedDirectMessage E ds (Some pb) p =
    (if tc_Has (e_timecache E) (seenMessages ds) (messageId pb) then (Inl ErrAlreadySeenMessage, ds)
     else (case checkSig E pb of Some e \<Rightarrow> Inl e
           | None \<Rightarrow> NewMessage (e_idFromBytes E) (Some (e_marshaller E)) (Some pb) Direct,
           ds\<lparr>seenMessages := tc_Add (e_timecache E) (seenMessages ds) (messageId pb)\<rparr>))"
  using assms
  by (auto simp: processReceivedDirectMessage_def checkAndSetSeenMessage_def split: option.splits)

text \<open>
  C18. What a delivered direct message satisfies: it names the connected peer as its sender, carries no key,
  has a sequence number of at most eight bytes, was not seen before, and its signature, unless it is empty,
  was verified against the connected peer over the message without signature and key; the message that
  reaches the handler is the decoded envelope of that data.
\<close>

theorem direct_message_checked:
  assumes "processReceivedDirectMessage E ds (Some pb) p = (Inr m, ds')"
  shows "pb_From pb = bytes_of_string p \<and> pb_Key pb = None \<and> length (pb_Seqno pb) \<le> 8 \<and>
    \<not> tc_Has (e_timecache E) (seenMessages ds) (messageId pb) \<and>
    (pb_Signature pb \<noteq> [] \<longrightarrow>
      (\<exists>d. ps_Marshal (e_pubsub E) (pb\<lparr>pb_Signature := [], pb_Key := None\<rparr>) = Inr d \<and>
        signer_Verify (e_crypto E) (withSignPrefix (e_pubsub E) d) p (pb_Signature pb) = None)) \<and>
    FromField m = bytes_of_string p \<and> PayloadField m = pb_Data pb \<and> BroadcastMethodField m = Direct \<and>
    (\<exists>tm. m_Unmarshal (e_marshaller E) (pb_Data pb) = Inr tm \<and> DataField m = tm_Payload tm)"
  using assms
  by (auto simp: processReceivedDirectMessage_def checkAndSetSeenMessage_def checkSig_def NewMessage_def
      split: if_splits option.splits sum.splits)

text \<open>
  Replays are rejected: once a message with acceptable fields was processed, whatever came of it, a
  message with the same sender and sequence number is answered with \<^verbatim>\<open>ErrAlreadySeenMessage\<close> and not delivered, as
  long as the cache remembers what was added.
\<close>

theorem direct_replay_rejected:
  assumes "\<forall>c k. tc_Has (e_timecache E) (tc_Add (e_timecache E) c k) k"
    and "hasMessageHandler ds" and "pb_Topic pb \<noteq> None" and "pb_From pb = bytes_of_string p"
    and "pb_Key pb = None" and "length (pb_Seqno pb) \<le> 8"
    and "pb_From pb' = pb_From pb" and "pb_Seqno pb' = pb_Seqno pb" and "pb_Topic pb' \<noteq> None" and "pb_Key pb' = None"
  shows "fst (processReceivedDirectMessage E (snd (processReceivedDirectMessage E ds (Some pb) p)) (Some pb') p) =
    Inl ErrAlreadySeenMessage"
proof -
  obtain topic topic' where t: "pb_Topic pb = Some topic" "pb_Topic pb' = Some topic'" using assms(3,9) by blast
  let ?ds = "snd (processReceivedDirectMessage E ds (Some pb) p)"
  note first = process_eq [OF assms(2) t(1) assms(4-6), of E]
  have ds1: "hasMessageHandler ?ds" using assms(2) by (simp add: first)
  have ds2: "tc_Has (e_timecache E) (seenMessages ?ds) (messageId pb)" using assms(1) by (simp add: first)
  have "messageId pb' = messageId pb" using assms(7,8) by (simp add: messageId_def)
  then show ?thesis
    using process_eq [OF ds1 t(2), of p E] assms(4-8,10) ds2 by simp
qed

section \<open>From a sender to a receiver\<close>

lemma Send_created:
  assumes "Send E ds topic buff conns streamsOf newStream localPeer write = (Inr (st, pb), ds1)"
  shows "\<exists>conn. getConnection conns = Inr (Some conn) \<and> length buff < maxSendBuffSize \<and>
    createMessage E ds topic buff (localPeer conn) = (Inr pb, ds1) \<and> write st pb = None"
  using assms by (auto simp: Send_def split: if_splits sum.splits option.splits prod.splits)

lemma createMessage_fields:
  assumes "createMessage E ds topic buff self = (Inr pb, ds1)"
  shows "pb_From pb = bytes_of_string self \<and> pb_Data pb = buff \<and> pb_Seqno pb = PutUint64 (counter ds + 1) \<and>
    pb_Topic pb = Some topic \<and> pb_Key pb = None \<and>
    (\<exists>d. ps_Marshal (e_pubsub E) (pb\<lparr>pb_Signature := [], pb_Key := None\<rparr>) = Inr d \<and>
      signer_Sign (e_crypto E) (e_privateKey E) (withSignPrefix (e_pubsub E) d) = Inr (pb_Signature pb))"
  using assms
  by (auto simp: createMessage_def NextSequenceNumber_def Let_def split: sum.splits)

text \<open>
  A message that \<^verbatim>\<open>Send\<close> has written is delivered by the receiving side: with the payload and the timestamp
  of the envelope that was sent, the topic and the sender's id. The receiver has the sender's public key for
  its id (signatures verify), uses the same codecs, and has not seen the sequence number of this sender.
\<close>

theorem direct_send_received:
  assumes "marshaller (e_marshaller E) encodable" and "encodable env" and "m_Marshal (e_marshaller E) env = Inr buff"
    and "tm_Version env = 1" and "tm_Pk env = []" and "tm_SignatureOnPid env = []"
    and "Send E ds topic buff conns streamsOf newStream localPeer write = (Inr (st, pb), ds1)"
    and "\<forall>conn. localPeer conn = self"
    and "cr_ConvertPeerIDToPublicKey (e_crypto E) self = Inr pk"
    and "\<forall>h s. cr_Sign (e_crypto E) (e_privateKey E) h = Inr s \<longrightarrow> cr_Verify (e_crypto E) pk h s = None"
    and "e_idFromBytes E (bytes_of_string self) = Inr self"
    and "hasMessageHandler dr" and "\<not> tc_Has (e_timecache E) (seenMessages dr) (messageId pb)"
  shows "\<exists>m dr'. processReceivedDirectMessage (E\<lparr>e_privateKey := sk\<rparr>) dr (Some pb) self = (Inr m, dr') \<and>
    DataField m = tm_Payload env \<and> TimestampField m = tm_Timestamp env \<and> TopicField m = topic \<and> PeerField m = self"
proof -
  from Send_created [OF assms(7)] assms(8) have "createMessage E ds topic buff self = (Inr pb, ds1)" by auto
  note f = createMessage_fields [OF this]
  then have sig: "checkSig (E\<lparr>e_privateKey := sk\<rparr>) pb = None"
    using assms(9,10) by (auto simp: checkSig_def signer_Verify_def signer_Sign_def)
  have "m_Unmarshal (e_marshaller E) (pb_Data pb) = Inr env"
    using marshaller.unmarshal_marshalled [OF assms(1-3)] f by simp
  then have "\<exists>m. NewMessage (e_idFromBytes E) (Some (e_marshaller E)) (Some pb) Direct = Inr m \<and>
      DataField m = tm_Payload env \<and> TimestampField m = tm_Timestamp env \<and> TopicField m = topic \<and> PeerField m = self"
    using f assms(4-6,11) by (simp add: NewMessage_def currentTopicMessageVersion_def)
  then show ?thesis
    using process_eq [of dr pb topic self "E\<lparr>e_privateKey := sk\<rparr>"] f assms(12,13) sig by auto
qed

section \<open>An example\<close>

text \<open>One peer \<^verbatim>\<open>A\<close> with toy cryptography, and a cache that is a set.\<close>

definition ex_crypto :: "(unit, unit) crypto_ops" where
  "ex_crypto = \<lparr>cr_sha256 = (\<lambda>b. b), cr_Sign = (\<lambda>_ h. Inr (7 # h)),
     cr_Verify = (\<lambda>_ h s. if s = 7 # h then None else Some ''bad signature''),
     cr_ConvertPeerIDToPublicKey = (\<lambda>_. Inr ()), cr_PrivateKeyFromByteArray = (\<lambda>_. Inr ())\<rparr>"

definition ex_env :: "(unit, unit, string set) ds_env" where
  "ex_env = \<lparr>e_crypto = ex_crypto, e_privateKey = (), e_pubsub = example_ops, e_marshaller = protoMarshaller,
     e_idFromBytes = (\<lambda>b. Inr (string_of_bytes b)),
     e_timecache = \<lparr>tc_Has = (\<lambda>s k. k \<in> s), tc_Add = (\<lambda>s k. insert k s)\<rparr>\<rparr>"

definition ex_ds :: "string set directSender" where
  "ex_ds = \<lparr>counter = 0, hasMessageHandler = True, seenMessages = {}\<rparr>"

definition ex_sent :: pubsubMessage where
  "ex_sent = \<lparr>pb_From = bytes_of_string ''A'', pb_Data = TopicMessage_enc example_envelope,
     pb_Seqno = PutUint64 1, pb_Topic = Some ''t'',
     pb_Signature = 7 # 1 # TopicMessage_enc example_envelope, pb_Key = None\<rparr>"

lemma ex_send:
  "Send ex_env ex_ds ''t'' (TopicMessage_enc example_envelope) [((), 2)] (\<lambda>_. []) (\<lambda>_. Inr ()) (\<lambda>_. ''A'')
     (\<lambda>_ _. None) = (Inr ((), ex_sent), ex_ds\<lparr>counter := 1\<rparr>)"
proof -
  have "length (TopicMessage_enc example_envelope) < maxSendBuffSize"
    by (simp add: TopicMessage_enc_def example_envelope_def enc_varint_field_def
      enc_bytes_field_def enc_nat.simps maxSendBuffSize_def)
  then show ?thesis
    by (simp add: Send_def getConnection_def getOrCreateStream_def createMessage_def NextSequenceNumber_def
        ex_env_def ex_ds_def ex_sent_def ex_crypto_def signer_Sign_def withSignPrefix_def example_ops_def Let_def)
qed

lemma ex_env_sel [simp]:
  "e_crypto ex_env = ex_crypto" "e_privateKey ex_env = ()" "e_pubsub ex_env = example_ops"
  "e_marshaller ex_env = protoMarshaller" "e_idFromBytes ex_env = (\<lambda>b. Inr (string_of_bytes b))"
  "tc_Has (e_timecache ex_env) = (\<lambda>s k. k \<in> s)" "tc_Add (e_timecache ex_env) = (\<lambda>s k. insert k s)"
  by (simp_all add: ex_env_def)

lemma example_envelope_sel [simp]:
  "tm_Version example_envelope = 1" "tm_Payload example_envelope = [104, 105]"
  "tm_Timestamp example_envelope = 100" "tm_Pk example_envelope = []" "tm_SignatureOnPid example_envelope = []"
  by (simp_all add: example_envelope_def)

lemma ex_marshal: "m_Marshal protoMarshaller example_envelope = Inr (TopicMessage_enc example_envelope)"
  by (simp add: protoMarshaller_def TopicMessage_Marshal_enc example_envelope_sized)

theorem direct_send_received_witness:
  "\<exists>m dr'. processReceivedDirectMessage (ex_env\<lparr>e_privateKey := ()\<rparr>) ex_ds (Some ex_sent) ''A'' = (Inr m, dr') \<and>
    DataField m = [104, 105] \<and> TimestampField m = 100 \<and> TopicField m = ''t'' \<and> PeerField m = ''A''"
proof -
  have M: "marshaller (e_marshaller ex_env) TopicMessage_sized"
    using proto.marshaller_axioms by simp
  have "m_Marshal (e_marshaller ex_env) example_envelope = Inr (TopicMessage_enc example_envelope)"
    by (simp add: ex_marshal)
  from direct_send_received [OF M example_envelope_sized this _ _ _ ex_send, of "''A''" "()" ex_ds "()"]
  show ?thesis by (simp add: ex_crypto_def ex_ds_def)
qed

text \<open>The receiver's state after the message of the example.\<close>

lemma ex_delivered:
  "\<exists>m. processReceivedDirectMessage ex_env ex_ds (Some ex_sent) ''A'' =
    (Inr m, ex_ds\<lparr>seenMessages := {messageId ex_sent}\<rparr>)"
proof -
  have f: "hasMessageHandler ex_ds" "pb_Topic ex_sent = Some ''t''" "pb_From ex_sent = bytes_of_string ''A''"
    "pb_Key ex_sent = None" "length (pb_Seqno ex_sent) \<le> 8" by (simp_all add: ex_ds_def ex_sent_def)
  have "m_Unmarshal protoMarshaller (pb_Data ex_sent) = Inr example_envelope"
    using proto.unmarshal_marshalled [OF example_envelope_sized ex_marshal] by (simp add: ex_sent_def)
  then have "\<exists>m. NewMessage (e_idFromBytes ex_env) (Some (e_marshaller ex_env)) (Some ex_sent) Direct = Inr m"
    by (simp add: NewMessage_def f currentTopicMessageVersion_def)
  moreover have "checkSig ex_env ex_sent = None"
    by (simp add: checkSig_def ex_sent_def signer_Verify_def ex_crypto_def withSignPrefix_def example_ops_def)
  ultimately show ?thesis
    using process_eq [OF f, of ex_env] by (auto simp: ex_ds_def)
qed

theorem direct_message_checked_witness:
  "\<exists>m ds'. processReceivedDirectMessage ex_env ex_ds (Some ex_sent) ''A'' = (Inr m, ds') \<and>
    FromField m = bytes_of_string ''A'' \<and> BroadcastMethodField m = Direct"
  using ex_delivered direct_message_checked by metis

theorem direct_replay_rejected_witness:
  "fst (processReceivedDirectMessage ex_env (snd (processReceivedDirectMessage ex_env ex_ds (Some ex_sent) ''A''))
     (Some ex_sent) ''A'') = Inl ErrAlreadySeenMessage"
  by (rule direct_replay_rejected) (simp_all add: ex_ds_def ex_sent_def)

end
