(* ===== verification/Messages_Handler.thy ===== *)
theory Messages_Handler
  imports Direct_Sender Channel_Balancer Peers_Rating
begin

text \<open>
  \<^verbatim>\<open>p2p/libp2p/messagesHandler.go\<close> and \<^verbatim>\<open>p2p/libp2p/topicProcessors.go\<close>: topics, message processors, what is sent
  and which received messages are accepted.

  The handler calls the direct sender, the channel load balancer, the rating handler and \<^verbatim>\<open>NewMessage\<close> of the
  theories imported here. Arguments for code outside of the repository: libp2p's pubsub (registering and
  unregistering a validator, joining and closing a topic), the peer denial evaluator, the message processors
  of the node (functions that give an error or none), the throttler, and the constant
  \<^verbatim>\<open>core.TopicRequestSuffix\<close>. The current time is an argument, in seconds.
\<close>

section \<open>Topic processors\<close>

type_synonym processor = "Message \<Rightarrow> peer_id \<Rightarrow> p2p_error option"

text \<open>
  The map from identifiers to processors of a topic, as the list of its entries. \<^verbatim>\<open>GetList\<close> goes through a Go map, in
  no particular order; what depends on it is shown not to depend on the order.
\<close>

type_synonym topicProcessors = "(string \<times> processor) list"

definition AddTopicProcessor ::
    "topicProcessors \<Rightarrow> string \<Rightarrow> processor \<Rightarrow> p2p_error option \<times> topicProcessors" where
  "AddTopicProcessor tp identifier proc =
     (if map_of tp identifier \<noteq> None then (Some ErrMessageProcessorAlreadyDefined, tp)
      else (None, tp @ [(identifier, proc)]))"

definition RemoveTopicProcessor :: "topicProcessors \<Rightarrow> string \<Rightarrow> p2p_error option \<times> topicProcessors" where
  "RemoveTopicProcessor tp identifier =
     (if map_of tp identifier = None then (Some ErrMessageProcessorDoesNotExists, tp)
      else (None, filter (\<lambda>e. fst e \<noteq> identifier) tp))"

definition GetList :: "topicProcessors \<Rightarrow> string list \<times> processor list" where
  "GetList tp = (map fst tp, map snd tp)"

section \<open>State\<close>

record 'ev denial_ops =
  pd_IsDenied :: "'ev \<Rightarrow> peer_id \<Rightarrow> bool"
  pd_UpsertPeerID :: "'ev \<Rightarrow> peer_id \<Rightarrow> 'ev"

record 'ps validator_ops =
  v_Register :: "'ps \<Rightarrow> string \<Rightarrow> p2p_error option \<times> 'ps"
  v_Unregister :: "'ps \<Rightarrow> string \<Rightarrow> p2p_error option \<times> 'ps"

record ('ps, 'ev, 'c) mh_env =
  h_marshaller :: marshaller_ops
  h_idFromBytes :: "bytes \<Rightarrow> string + peer_id"
  h_denial :: "'ev denial_ops"
  h_validators :: "'ps validator_ops"
  h_cacher :: "'c cacher_ops"
  h_TopicRequestSuffix :: string
  h_peerID :: peer_id

text \<open>\<^verbatim>\<open>processors\<close> keeps keys whose value was set to \<^verbatim>\<open>nil\<close>, hence the inner option.\<close>

record ('ps, 'ev, 'c) messagesHandler =
  processors :: "string \<rightharpoonup> topicProcessors option"
  topics :: "string set"
  subscriptions :: "string set"
  mh_pubSub :: 'ps
  mh_evaluator :: 'ev
  mh_ratings :: "'c peersRatingHandler"
  mh_outgoingCLB :: balancer

definition topicProcs_at :: "('ps, 'ev, 'c) messagesHandler \<Rightarrow> string \<Rightarrow> topicProcessors option" where
  "topicProcs_at h topic = (case processors h topic of None \<Rightarrow> None | Some v \<Rightarrow> v)"

section \<open>The constructor\<close>

text \<open>
  The arguments, with \<^const>\<open>None\<close> or \<^const>\<open>False\<close> for a nil one; of the connection monitor the handler uses the evaluator of denied
  peers only. The marshaller and the node's own id are the fields \<^const>\<open>h_marshaller\<close> and \<^const>\<open>h_peerID\<close> of the environment.
\<close>

record ('ps, 'ev, 'c, 'tc) ArgMessagesHandler =
  a_PubSub :: "'ps option"
  a_DirectSender :: "'tc directSender option"
  a_Throttler :: bool
  a_OutgoingCLB :: "balancer option"
  a_Marshaller :: bool
  a_ConnMonitor :: "'ev option"
  a_PeersRatingHandler :: "'c peersRatingHandler option"
  a_SyncTimer :: bool
  a_Logger :: bool

definition checkArgMessagesHandler :: "('ps, 'ev, 'c, 'tc) ArgMessagesHandler \<Rightarrow> p2p_error option" where
  "checkArgMessagesHandler args =
     (if a_PubSub args = None then Some ErrNilPubSub
      else if a_DirectSender args = None then Some ErrNilDirectSender
      else if \<not> a_Throttler args then Some ErrNilThrottler
      else if a_OutgoingCLB args = None then Some ErrNilChannelLoadBalancer
      else if \<not> a_Marshaller args then Some ErrNilMarshaller
      else if a_ConnMonitor args = None then Some ErrNilConnectionMonitor
      else if a_PeersRatingHandler args = None then Some ErrNilPeersRatingHandler
      else if \<not> a_SyncTimer args then Some ErrNilSyncTimer
      else if \<not> a_Logger args then Some ErrNilLogger
      else None)"

text \<open>The new handler and the direct sender, with which it has registered itself.\<close>

definition NewMessagesHandler ::
    "('ps, 'ev, 'c, 'tc) ArgMessagesHandler \<Rightarrow> p2p_error + (('ps, 'ev, 'c) messagesHandler \<times> 'tc directSender)" where
  "NewMessagesHandler args =
     (case checkArgMessagesHandler args of Some e \<Rightarrow> Inl e
      | None \<Rightarrow>
        (case RegisterDirectMessageProcessor (the (a_DirectSender args)) True of
           (Some e, _) \<Rightarrow> Inl e
         | (None, ds) \<Rightarrow> Inr
             (\<lparr>processors = Map.empty, topics = {}, subscriptions = {}, mh_pubSub = the (a_PubSub args),
               mh_evaluator = the (a_ConnMonitor args), mh_ratings = the (a_PeersRatingHandler args),
               mh_outgoingCLB = the (a_OutgoingCLB args)\<rparr>, ds)))"

section \<open>Registering processors\<close>

definition RegisterMessageProcessor ::
    "('ps, 'ev, 'c) mh_env \<Rightarrow> ('ps, 'ev, 'c) messagesHandler \<Rightarrow> string \<Rightarrow> string \<Rightarrow> processor option
     \<Rightarrow> p2p_error option \<times> ('ps, 'ev, 'c) messagesHandler" where
  "RegisterMessageProcessor E h topic identifier msgProcessor =
     (case msgProcessor of None \<Rightarrow> (Some ErrNilValidator, h)
      | Some proc \<Rightarrow>
        let (err, h1, tp) =
          (case topicProcs_at h topic of Some tp \<Rightarrow> (None, h, tp)
           | None \<Rightarrow>
             (let h' = h\<lparr>processors := (processors h)(topic \<mapsto> Some [])\<rparr> in
              case v_Register (h_validators E) (mh_pubSub h') topic of
                (err, ps) \<Rightarrow> (err, h'\<lparr>mh_pubSub := ps\<rparr>, [])))
        in if err \<noteq> None then (err, h1)
           else (case AddTopicProcessor tp identifier proc of (err2, tp2) \<Rightarrow>
             (err2, h1\<lparr>processors := (processors h1)(topic \<mapsto> Some tp2)\<rparr>)))"

definition UnregisterMessageProcessor ::
    "('ps, 'ev, 'c) mh_env \<Rightarrow> ('ps, 'ev, 'c) messagesHandler \<Rightarrow> string \<Rightarrow> string
     \<Rightarrow> p2p_error option \<times> ('ps, 'ev, 'c) messagesHandler" where
  "UnregisterMessageProcessor E h topic identifier =
     (case topicProcs_at h topic of None \<Rightarrow> (None, h)
      | Some tp \<Rightarrow>
        (case RemoveTopicProcessor tp identifier of
           (Some e, _) \<Rightarrow> (Some e, h)
         | (None, tp1) \<Rightarrow>
           let h1 = h\<lparr>processors := (processors h)(topic \<mapsto> Some tp1)\<rparr> in
           if fst (GetList tp1) = [] then
             (let h2 = h1\<lparr>processors := (processors h1)(topic \<mapsto> None)\<rparr> in
              case v_Unregister (h_validators E) (mh_pubSub h2) topic of
                (err, ps) \<Rightarrow> (err, h2\<lparr>mh_pubSub := ps\<rparr>))
           else (None, h1)))"

text \<open>The loop over the keys of \<^verbatim>\<open>processors\<close>, for one order of the keys.\<close>

fun UnregisterAllMessageProcessors ::
    "('ps, 'ev, 'c) mh_env \<Rightarrow> ('ps, 'ev, 'c) messagesHandler \<Rightarrow> string list
     \<Rightarrow> p2p_error option \<times> ('ps, 'ev, 'c) messagesHandler" where
  "UnregisterAllMessageProcessors E h [] = (None, h)"
| "UnregisterAllMessageProcessors E h (topic # ts) =
     (case v_Unregister (h_validators E) (mh_pubSub h) topic of
        (Some e, ps) \<Rightarrow> (Some e, h\<lparr>mh_pubSub := ps\<rparr>)
      | (None, ps) \<Rightarrow> UnregisterAllMessageProcessors E
          (h\<lparr>mh_pubSub := ps, processors := (processors h)(topic := None)\<rparr>) ts)"

section \<open>Topics\<close>

text \<open>\<open>joined\<close> and \<open>subscribed\<close> are the answers of \<^verbatim>\<open>pubSub.Join\<close> and \<^verbatim>\<open>topic.Subscribe\<close>.\<close>

definition CreateTopic ::
    "('ps, 'ev, 'c) messagesHandler \<Rightarrow> string \<Rightarrow> bool \<Rightarrow> p2p_error option \<Rightarrow> p2p_error option
     \<Rightarrow> p2p_error option \<times> ('ps, 'ev, 'c) messagesHandler" where
  "CreateTopic h name createChannelForTopic joined subscribed =
     (if name \<in> topics h then (None, h)
      else (case joined of Some e \<Rightarrow> (Some e, h)
        | None \<Rightarrow>
          let h1 = h\<lparr>topics := insert name (topics h)\<rparr> in
          (case subscribed of Some e \<Rightarrow> (Some e, h1)
           | None \<Rightarrow>
             let h2 = h1\<lparr>subscriptions := insert name (subscriptions h1)\<rparr> in
             if createChannelForTopic then
               (case AddChannel (mh_outgoingCLB h2) name of (err, clb) \<Rightarrow> (err, h2\<lparr>mh_outgoingCLB := clb\<rparr>))
             else (None, h2))))"

definition HasTopic :: "('ps, 'ev, 'c) messagesHandler \<Rightarrow> string \<Rightarrow> bool" where
  "HasTopic h name = (name \<in> topics h)"

text \<open>The loop over the topics, for one order of them; \<open>closeErr\<close> is the answer of \<^verbatim>\<open>t.Close()\<close>.\<close>

fun UnJoinAllTopics ::
    "('ps, 'ev, 'c) messagesHandler \<Rightarrow> string list \<Rightarrow> (string \<Rightarrow> p2p_error option) \<Rightarrow> p2p_error option
     \<Rightarrow> p2p_error option \<times> ('ps, 'ev, 'c) messagesHandler" where
  "UnJoinAllTopics h [] closeErr errFound = (errFound, h)"
| "UnJoinAllTopics h (t # ts) closeErr errFound =
     UnJoinAllTopics (h\<lparr>topics := topics h - {t}\<rparr>) ts closeErr
       (case closeErr t of Some e \<Rightarrow> Some e | None \<Rightarrow> errFound)"

section \<open>Sending\<close>

definition checkSendableData :: "bytes \<Rightarrow> p2p_error option" where
  "checkSendableData buff =
     (if length buff > maxSendBuffSize then Some ErrMessageTooLarge
      else if length buff = 0 then Some ErrEmptyBufferToSend
      else None)"

text \<open>The empty slice stands for \<^verbatim>\<open>nil\<close>, which the callers test with \<^verbatim>\<open>len\<close>.\<close>

definition createMessageBytes :: "marshaller_ops \<Rightarrow> int64 \<Rightarrow> bytes \<Rightarrow> bytes" where
  "createMessageBytes M now buff =
     (case m_Marshal M \<lparr>tm_Version = currentTopicMessageVersion, tm_Payload = buff, tm_Timestamp = now,
        tm_Pk = [], tm_SignatureOnPid = []\<rparr> of Inl _ \<Rightarrow> [] | Inr d \<Rightarrow> d)"

record SendableData =
  sd_Buff :: bytes
  sd_Topic :: string
  sd_Sk :: "bytes option"
  sd_ID :: peer_id

text \<open>
  \<^verbatim>\<open>broadcastOnChannelBlocking\<close> up to the send on the channel: the channel and the value that is sent on it. The
  outer option is the panic of \<^verbatim>\<open>GetChannelOrDefault\<close>.
\<close>

definition broadcastOnChannelBlocking ::
    "('ps, 'ev, 'c) mh_env \<Rightarrow> ('ps, 'ev, 'c) messagesHandler \<Rightarrow> bool \<Rightarrow> string \<Rightarrow> string \<Rightarrow> bytes
     \<Rightarrow> (p2p_error + (chan \<times> SendableData)) option" where
  "broadcastOnChannelBlocking E h canProcess channel topic buff =
     (case checkSendableData buff of Some e \<Rightarrow> Some (Inl e)
      | None \<Rightarrow>
        if \<not> canProcess then Some (Inl ErrTooManyGoroutines)
        else do {
          ch \<leftarrow> GetChannelOrDefault (mh_outgoingCLB h) channel;
          Some (Inr (ch, \<lparr>sd_Buff = buff, sd_Topic = topic, sd_Sk = None, sd_ID = h_peerID E\<rparr>))
        })"

definition broadcastOnChannelBlockingUsingPrivateKey ::
    "(bytes \<Rightarrow> string option) \<Rightarrow> ('ps, 'ev, 'c) messagesHandler \<Rightarrow> bool \<Rightarrow> string \<Rightarrow> string \<Rightarrow> bytes
     \<Rightarrow> peer_id \<Rightarrow> bytes \<Rightarrow> (p2p_error + (chan \<times> SendableData)) option" where
  "broadcastOnChannelBlockingUsingPrivateKey keyError h canProcess channel topic buff p skBytes =
     (case keyError skBytes of Some e \<Rightarrow> Some (Inl (ErrOther e))
      | None \<Rightarrow> (case checkSendableData buff of Some e \<Rightarrow> Some (Inl e)
        | None \<Rightarrow>
          if \<not> canProcess then Some (Inl ErrTooManyGoroutines)
          else do {
            ch \<leftarrow> GetChannelOrDefault (mh_outgoingCLB h) channel;
            Some (Inr (ch, \<lparr>sd_Buff = buff, sd_Topic = topic, sd_Sk = Some skBytes, sd_ID = p\<rparr>))
          }))"

text \<open>
  The exported calls start a goroutine that only logs the error. \<^const>\<open>None\<close> is the panic, \<open>Some None\<close> that nothing is sent.
\<close>

definition sent_on :: "(p2p_error + 'x) option \<Rightarrow> 'x option option" where
  "sent_on r = map_option (\<lambda>s. case s of Inl _ \<Rightarrow> None | Inr x \<Rightarrow> Some x) r"

definition BroadcastOnChannel ::
    "('ps, 'ev, 'c) mh_env \<Rightarrow> ('ps, 'ev, 'c) messagesHandler \<Rightarrow> bool \<Rightarrow> string \<Rightarrow> string \<Rightarrow> bytes
     \<Rightarrow> (chan \<times> SendableData) option option" where
  "BroadcastOnChannel E h canProcess channel topic buff =
     sent_on (broadcastOnChannelBlocking E h canProcess channel topic buff)"

definition Broadcast_topic ::
    "('ps, 'ev, 'c) mh_env \<Rightarrow> ('ps, 'ev, 'c) messagesHandler \<Rightarrow> bool \<Rightarrow> string \<Rightarrow> bytes
     \<Rightarrow> (chan \<times> SendableData) option option" where
  "Broadcast_topic E h canProcess topic buff = BroadcastOnChannel E h canProcess topic topic buff"

definition BroadcastOnChannelUsingPrivateKey ::
    "(bytes \<Rightarrow> string option) \<Rightarrow> ('ps, 'ev, 'c) messagesHandler \<Rightarrow> bool \<Rightarrow> string \<Rightarrow> string \<Rightarrow> bytes
     \<Rightarrow> peer_id \<Rightarrow> bytes \<Rightarrow> (chan \<times> SendableData) option option" where
  "BroadcastOnChannelUsingPrivateKey keyError h canProcess channel topic buff p skBytes =
     sent_on (broadcastOnChannelBlockingUsingPrivateKey keyError h canProcess channel topic buff p skBytes)"

definition BroadcastUsingPrivateKey ::
    "(bytes \<Rightarrow> string option) \<Rightarrow> ('ps, 'ev, 'c) messagesHandler \<Rightarrow> bool \<Rightarrow> string \<Rightarrow> bytes
     \<Rightarrow> peer_id \<Rightarrow> bytes \<Rightarrow> (chan \<times> SendableData) option option" where
  "BroadcastUsingPrivateKey keyError h canProcess topic buff p skBytes =
     BroadcastOnChannelUsingPrivateKey keyError h canProcess topic topic buff p skBytes"

text \<open>What is published: the topic, the packed data and the options, the secret key with its peer id.\<close>

definition publish :: "SendableData \<Rightarrow> bytes \<Rightarrow> string \<times> bytes \<times> (bytes \<times> peer_id) option" where
  "publish d packed = (sd_Topic d, packed, map_option (\<lambda>sk. (sk, sd_ID d)) (sd_Sk d))"

text \<open>
  One turn of the loop of \<^verbatim>\<open>processChannelLoadBalancer\<close> after an element was collected: what is published, with the
  signing options.
\<close>

definition processCollected ::
    "('ps, 'ev, 'c) mh_env \<Rightarrow> ('ps, 'ev, 'c) messagesHandler \<Rightarrow> int64 \<Rightarrow> SendableData option
     \<Rightarrow> (string \<times> bytes \<times> (bytes \<times> peer_id) option) option" where
  "processCollected E h now sendable =
     (case sendable of None \<Rightarrow> None
      | Some sd \<Rightarrow>
        if sd_Topic sd \<notin> topics h then None
        else
          let packed = createMessageBytes (h_marshaller E) now (sd_Buff sd) in
          if length packed = 0 then None
          else Some (publish sd packed))"

section \<open>Receiving\<close>

definition acceptMessagesInAdvance :: int64 where "acceptMessagesInAdvance = 20"
definition pubsubTimeCacheSeconds :: int64 where "pubsubTimeCacheSeconds = 600"

definition validateMessageByTimestamp :: "int64 \<Rightarrow> Message \<Rightarrow> p2p_error option" where
  "validateMessageByTimestamp now msg =
     (if sint (now + acceptMessagesInAdvance) < sint (TimestampField msg) then Some ErrMessageTooNew
      else
        let past = now - pubsubTimeCacheSeconds in
        if sint (TimestampField msg) < sint past then Some ErrMessageTooOld
        else None)"

text \<open>\<^verbatim>\<open>checkMessage\<close> without the debugger, to which the rejected message is reported.\<close>

definition checkMessage :: "int64 \<Rightarrow> Message \<Rightarrow> p2p_error option" where
  "checkMessage now msg = (case validateMessageByTimestamp now msg of Some e \<Rightarrow> Some e | None \<Rightarrow> None)"

lemma checkMessage_eq [simp]: "checkMessage now msg = validateMessageByTimestamp now msg"
  by (simp add: checkMessage_def split: option.splits)

definition blacklistPid :: "'ev denial_ops \<Rightarrow> 'ev \<Rightarrow> peer_id \<Rightarrow> 'ev" where
  "blacklistPid D ev p =
     (if pd_IsDenied D ev p then ev
      else if length p = 0 then ev
      else pd_UpsertPeerID D ev p)"

definition transformAndCheckMessage ::
    "('ps, 'ev, 'c) mh_env \<Rightarrow> ('ps, 'ev, 'c) messagesHandler \<Rightarrow> int64 \<Rightarrow> pubsubMessage option \<Rightarrow> peer_id
     \<Rightarrow> (p2p_error + Message) \<times> ('ps, 'ev, 'c) messagesHandler" where
  "transformAndCheckMessage E h now pbMsg p =
     (case NewMessage (h_idFromBytes E) (Some (h_marshaller E)) pbMsg Broadcast of
        Inl e \<Rightarrow>
          let ev1 = blacklistPid (h_denial E) (mh_evaluator h) p;
              ev2 = (case pbMsg of Some pb \<Rightarrow>
                        if length (pb_From pb) > 0
                        then blacklistPid (h_denial E) ev1 (string_of_bytes (pb_From pb)) else ev1
                     | None \<Rightarrow> ev1)
          in (Inl e, h\<lparr>mh_evaluator := ev2\<rparr>)
      | Inr msg \<Rightarrow>
          (case checkMessage now msg of Some e \<Rightarrow> (Inl e, h) | None \<Rightarrow> (Inr msg, h)))"

text \<open>The loop over the processors: all of them are called, none may fail.\<close>

definition runProcessors :: "processor list \<Rightarrow> Message \<Rightarrow> peer_id \<Rightarrow> bool" where
  "runProcessors ps msg p = foldl (\<lambda>messageOk proc. if proc msg p \<noteq> None then False else messageOk) True ps"

definition pubsubCallback ::
    "('ps, 'ev, 'c) mh_env \<Rightarrow> topicProcessors \<Rightarrow> ('ps, 'ev, 'c) messagesHandler \<Rightarrow> int64 \<Rightarrow> peer_id
     \<Rightarrow> pubsubMessage option \<Rightarrow> bool \<times> ('ps, 'ev, 'c) messagesHandler" where
  "pubsubCallback E topicProcs h now p message =
     (case transformAndCheckMessage E h now message p of
        (Inl _, h1) \<Rightarrow> (False, h1)
      | (Inr msg, h1) \<Rightarrow> (runProcessors (snd (GetList topicProcs)) msg p, h1))"

definition increaseRatingIfNeeded ::
    "('ps, 'ev, 'c) mh_env \<Rightarrow> ('ps, 'ev, 'c) messagesHandler \<Rightarrow> Message \<Rightarrow> peer_id \<Rightarrow> ('ps, 'ev, 'c) messagesHandler" where
  "increaseRatingIfNeeded E h msg p =
     (let isDirectMessage = BroadcastMethodField msg = Direct;
          isRequestMessage = str_contains (TopicField msg) (h_TopicRequestSuffix E)
      in if isDirectMessage \<and> \<not> isRequestMessage
         then h\<lparr>mh_ratings := IncreaseRating (h_cacher E) (mh_ratings h) p\<rparr> else h)"

text \<open>
  \<^verbatim>\<open>ProcessReceivedMessage\<close> with the goroutine that it starts run to its end. The flag is whether a source was
  given.
\<close>

definition ProcessReceivedMessage ::
    "('ps, 'ev, 'c) mh_env \<Rightarrow> ('ps, 'ev, 'c) messagesHandler \<Rightarrow> int64 \<Rightarrow> Message option \<Rightarrow> peer_id \<Rightarrow> bool
     \<Rightarrow> p2p_error option \<times> ('ps, 'ev, 'c) messagesHandler" where
  "ProcessReceivedMessage E h now message p hasSource =
     (case message of None \<Rightarrow> (None, h)
      | Some msg \<Rightarrow>
        if \<not> hasSource then (None, h)
        else (case checkMessage now msg of Some e \<Rightarrow> (Some e, h)
          | None \<Rightarrow> (case topicProcs_at h (TopicField msg) of None \<Rightarrow> (Some ErrNilValidator, h)
            | Some tp \<Rightarrow>
              (None, if runProcessors (snd (GetList tp)) msg p then increaseRatingIfNeeded E h msg p else h))))"

definition sendDirectToSelf ::
    "('ps, 'ev, 'c) mh_env \<Rightarrow> ('ps, 'ev, 'c) messagesHandler \<Rightarrow> 'tc directSender \<Rightarrow> int64 \<Rightarrow> string \<Rightarrow> bytes
     \<Rightarrow> (p2p_error option \<times> ('ps, 'ev, 'c) messagesHandler) \<times> 'tc directSender" where
  "sendDirectToSelf E h ds now topic buff =
     (let (seqno, ds1) = NextSequenceNumber ds;
          pubSubMsg = \<lparr>pb_From = bytes_of_string (h_peerID E), pb_Data = buff, pb_Seqno = seqno,
            pb_Topic = Some topic, pb_Signature = bytes_of_string (h_peerID E), pb_Key = None\<rparr>
      in (case NewMessage (h_idFromBytes E) (Some (h_marshaller E)) (Some pubSubMsg) Direct of
            Inl e \<Rightarrow> ((Some e, h), ds1)
          | Inr msg \<Rightarrow> (ProcessReceivedMessage E h now (Some msg) (h_peerID E) True, ds1)))"

text \<open>\<^verbatim>\<open>SendToConnectedPeer\<close>; \<open>send\<close> is the call of the direct sender.\<close>

definition SendToConnectedPeer ::
    "('ps, 'ev, 'c) mh_env \<Rightarrow> ('ps, 'ev, 'c) messagesHandler \<Rightarrow> 'tc directSender
     \<Rightarrow> (string \<Rightarrow> bytes \<Rightarrow> peer_id \<Rightarrow> p2p_error option \<times> 'tc directSender) \<Rightarrow> int64 \<Rightarrow> string \<Rightarrow> bytes \<Rightarrow> peer_id
     \<Rightarrow> (p2p_error option \<times> ('ps, 'ev, 'c) messagesHandler) \<times> 'tc directSender" where
  "SendToConnectedPeer E h ds send now topic buff p =
     (case checkSendableData buff of Some e \<Rightarrow> ((Some e, h), ds)
      | None \<Rightarrow>
        let buffToSend = createMessageBytes (h_marshaller E) now buff in
        if length buffToSend = 0 then ((None, h), ds)
        else if p = h_peerID E then sendDirectToSelf E h ds now topic buffToSend
        else (case send topic buffToSend p of (err, ds1) \<Rightarrow> ((err, h), ds1)))"

section \<open>Debugger and closing\<close>

text \<open>The debugger is an object of the node: its presence, and what closing it answers. Closing the load balancer never fails.\<close>

definition SetDebugger :: "bool \<Rightarrow> p2p_error option" where
  "SetDebugger hasDebugger = (if \<not> hasDebugger then Some ErrNilDebugger else None)"

definition clb_Close :: "p2p_error option" where
  "clb_Close = None"

definition mh_Close :: "p2p_error option \<Rightarrow> p2p_error option" where
  "mh_Close errDebugger =
     (let err = (case clb_Close of Some e \<Rightarrow> Some e | None \<Rightarrow> None)
      in (case errDebugger of Some e \<Rightarrow> Some e | None \<Rightarrow> err))"

section \<open>The time window\<close>

text \<open>A clock that is not within ten minutes of the end of the range of \<^verbatim>\<open>int64\<close>.\<close>

definition clock_ok :: "int64 \<Rightarrow> bool" where
  "clock_ok now \<longleftrightarrow> - (2 ^ 63) + 600 \<le> sint now \<and> sint now < 2 ^ 63 - 20"

lemma window_edges:
  assumes "clock_ok now"
  shows "sint (now + acceptMessagesInAdvance) = sint now + 20"
    and "sint (now - pubsubTimeCacheSeconds) = sint now - 600"
proof -
  have "sint (20 :: int64) = 20" "sint (600 :: int64) = 600" by simp_all
  then show "sint (now + acceptMessagesInAdvance) = sint now + 20"
    "sint (now - pubsubTimeCacheSeconds) = sint now - 600"
    using assms unfolding clock_ok_def acceptMessagesInAdvance_def pubsubTimeCacheSeconds_def
    by (simp_all add: sint_word_ariths signed_take_bit_int_eq_self)
qed

lemma validate_window:
  assumes "clock_ok now"
  shows "validateMessageByTimestamp now msg = None \<longleftrightarrow>
    sint now - 600 \<le> sint (TimestampField msg) \<and> sint (TimestampField msg) \<le> sint now + 20"
  by (auto simp: validateMessageByTimestamp_def window_edges [OF assms] Let_def)

text \<open>
  The time window of received messages: a message is accepted exactly when its timestamp is at most
  20 seconds ahead of and at most 600 seconds behind the node's clock, both ends included; it is too new above and too old below.
\<close>

theorem timestamp_window:
  assumes "clock_ok now"
  shows "validateMessageByTimestamp now msg =
    (if sint now + 20 < sint (TimestampField msg) then Some ErrMessageTooNew
     else if sint (TimestampField msg) < sint now - 600 then Some ErrMessageTooOld else None)"
  by (simp add: validateMessageByTimestamp_def window_edges [OF assms] Let_def)

theorem timestamp_window_witness:
  "validateMessageByTimestamp 1000 (example_msg\<lparr>TimestampField := 400\<rparr>) = None \<and>
   validateMessageByTimestamp 1000 (example_msg\<lparr>TimestampField := 399\<rparr>) = Some ErrMessageTooOld"
proof -
  have "clock_ok 1000" by (simp add: clock_ok_def)
  from timestamp_window [OF this] show ?thesis by simp
qed

section \<open>Accepting broadcasts\<close>

lemma runProcessors_all: "runProcessors ps msg p \<longleftrightarrow> (\<forall>proc \<in> set ps. proc msg p = None)"
proof -
  have "foldl (\<lambda>ok proc. if proc msg p \<noteq> None then False else ok) b ps \<longleftrightarrow>
      b \<and> (\<forall>proc \<in> set ps. proc msg p = None)" for b
    by (induction ps arbitrary: b) auto
  then show ?thesis by (simp add: runProcessors_def)
qed

lemma pubsubCallback_iff:
  "fst (pubsubCallback E tp h now p pb) \<longleftrightarrow>
   (\<exists>msg. NewMessage (h_idFromBytes E) (Some (h_marshaller E)) pb Broadcast = Inr msg \<and>
     validateMessageByTimestamp now msg = None \<and> (\<forall>e \<in> set tp. snd e msg p = None))"
  by (auto simp: pubsubCallback_def transformAndCheckMessage_def runProcessors_all GetList_def Let_def
      split: sum.splits option.splits)


text \<open>An environment for examples: a set of denied peers, a set of topics with a validator.\<close>

definition ex_validators :: "string set validator_ops" where
  "ex_validators =
     \<lparr>v_Register = (\<lambda>s t. if t \<in> s then (Some (ErrOther ''duplicate validator''), s) else (None, insert t s)),
      v_Unregister = (\<lambda>s t. if t \<in> s then (None, s - {t}) else (Some (ErrOther ''no validator''), s))\<rparr>"

definition ex_mh_env :: "(string set, peer_id set, peer_id \<rightharpoonup> cache_val) mh_env" where
  "ex_mh_env = \<lparr>h_marshaller = protoMarshaller, h_idFromBytes = (\<lambda>b. Inr (string_of_bytes b)),
     h_denial = \<lparr>pd_IsDenied = (\<lambda>s p. p \<in> s), pd_UpsertPeerID = (\<lambda>s p. insert p s)\<rparr>,
     h_validators = ex_validators, h_cacher = cacherMock, h_TopicRequestSuffix = ''_REQUEST'', h_peerID = ''self''\<rparr>"

lemma ex_mh_env_sel [simp]:
  "h_marshaller ex_mh_env = protoMarshaller" "h_idFromBytes ex_mh_env = (\<lambda>b. Inr (string_of_bytes b))"
  "pd_IsDenied (h_denial ex_mh_env) = (\<lambda>s p. p \<in> s)" "pd_UpsertPeerID (h_denial ex_mh_env) = (\<lambda>s p. insert p s)"
  "h_validators ex_mh_env = ex_validators" "h_cacher ex_mh_env = cacherMock" "h_peerID ex_mh_env = ''self''"
  "h_TopicRequestSuffix ex_mh_env = ''_REQUEST''"
  by (simp_all add: ex_mh_env_def)

definition ex_mh :: "(string set, peer_id set, peer_id \<rightharpoonup> cache_val) messagesHandler" where
  "ex_mh = \<lparr>processors = Map.empty, topics = {''t''}, subscriptions = {''t''}, mh_pubSub = {}, mh_evaluator = {},
     mh_ratings = two_tiers, mh_outgoingCLB = bal0\<rparr>"


lemma blacklistPid_denies:
  assumes "\<forall>ev q. pd_IsDenied D (pd_UpsertPeerID D ev q) q"
    and "\<forall>ev q r. pd_IsDenied D ev r \<longrightarrow> pd_IsDenied D (pd_UpsertPeerID D ev q) r" and "p \<noteq> []"
  shows "pd_IsDenied D (blacklistPid D ev p) p" and "pd_IsDenied D ev r \<Longrightarrow> pd_IsDenied D (blacklistPid D ev q) r"
  using assms by (auto simp: blacklistPid_def)

text \<open>
  A pubsub message that is not a well-formed envelope is rejected and both the connected peer that relayed it
  and the peer that it names as its origin are denied afterwards; nothing else of the handler changes.
\<close>

theorem malformed_blacklisted:
  assumes "\<forall>ev q. pd_IsDenied (h_denial E) (pd_UpsertPeerID (h_denial E) ev q) q"
    and "\<forall>ev q r. pd_IsDenied (h_denial E) ev r \<longrightarrow> pd_IsDenied (h_denial E) (pd_UpsertPeerID (h_denial E) ev q) r"
    and "NewMessage (h_idFromBytes E) (Some (h_marshaller E)) (Some pb) Broadcast = Inl e"
    and "p \<noteq> []" and "pb_From pb \<noteq> []"
  shows "\<exists>ev. pubsubCallback E tp h now p (Some pb) = (False, h\<lparr>mh_evaluator := ev\<rparr>) \<and>
    pd_IsDenied (h_denial E) ev p \<and> pd_IsDenied (h_denial E) ev (string_of_bytes (pb_From pb))"
proof -
  have "string_of_bytes (pb_From pb) \<noteq> []" using assms(5) by (simp add: string_of_bytes_def)
  then show ?thesis
    using assms(3,5) blacklistPid_denies [OF assms(1,2,4)] blacklistPid_denies [OF assms(1,2), of "string_of_bytes (pb_From pb)"]
    by (intro exI [of _ "blacklistPid (h_denial E) (blacklistPid (h_denial E) (mh_evaluator h) p)
          (string_of_bytes (pb_From pb))"])
       (simp add: pubsubCallback_def transformAndCheckMessage_def Let_def)
qed

theorem malformed_blacklisted_witness:
  "\<exists>ev. pubsubCallback ex_mh_env [] ex_mh 110 ''B'' (Some (example_pb\<lparr>pb_Topic := None\<rparr>)) =
      (False, ex_mh\<lparr>mh_evaluator := ev\<rparr>) \<and> ''B'' \<in> ev \<and> string_of_bytes [65] \<in> ev"
  using malformed_blacklisted [of ex_mh_env "example_pb\<lparr>pb_Topic := None\<rparr>" ErrNilTopic "''B''" "[]" ex_mh 110]
  by (simp add: NewMessage_def example_pb_def)



section \<open>From a created topic to pubsub\<close>

lemma new_handler:
  assumes "NewMessagesHandler args = Inr (h, ds)"
  shows "mh_outgoingCLB h = the (a_OutgoingCLB args)" "topics h = {}" "processors h = Map.empty" "hasMessageHandler ds"
    "counter ds = counter (the (a_DirectSender args))" "a_DirectSender args \<noteq> None" "a_OutgoingCLB args \<noteq> None"
    "mh_evaluator h = the (a_ConnMonitor args)"
  using assms
  by (auto simp: NewMessagesHandler_def checkArgMessagesHandler_def RegisterDirectMessageProcessor_def
      split: if_splits option.splits)

lemma AddChannel_lookup:
  assumes "balancer_ok b" "channel \<noteq> defaultSendChannel"
  shows "\<exists>c b1. AddChannel b channel = (None, b1) \<and> balancer_ok b1 \<and> GetChannelOrDefault b1 channel = Some c \<and>
    c \<in> set (chans b1) \<and> c \<notin> closedChans b1 \<and> c \<noteq> hd (chans b1)"
proof -
  obtain b1 where b1: "AddChannel b channel = (None, b1)"
    using assms(2) by (cases "namesChans b channel") (auto simp: AddChannel_def)
  have ok: "balancer_ok b1"
    using b1 assms appendChannel_ok by (auto simp: AddChannel_def split: option.splits)
  have "namesChans b1 channel \<noteq> None"
    using b1 assms(2) by (auto simp: AddChannel_def appendChannel_def split: option.splits)
  then obtain c where c: "namesChans b1 channel = Some c" by blast
  have nc: "namesChans b1 = map_of (zip (names b1) (chans b1))" and d: "distinct (chans b1)"
    and len: "length (names b1) = length (chans b1)" and hd: "names b1 \<noteq> []" "hd (names b1) = defaultSendChannel"
    using ok by (auto simp: balancer_ok_def)
  have "(channel, c) \<in> set (zip (names b1) (chans b1))" using c nc by (auto dest: map_of_SomeD)
  then obtain i where i: "i < length (chans b1)" "names b1 ! i = channel" "chans b1 ! i = c"
    using len by (auto simp: set_zip)
  have "i \<noteq> 0" using i(2) hd assms(2) by (metis hd_conv_nth)
  then have "c \<noteq> hd (chans b1)"
    using i d by (metis hd_conv_nth length_greater_0_conv not_less_zero nth_eq_iff_index_eq list.size(3))
  then show ?thesis
    using b1 ok c i by (auto simp: GetChannelOrDefault_def balancer_ok_def intro!: exI [of _ c])
qed

text \<open>
  From a new handler to pubsub: once a topic was created with its channel, a broadcast on it goes to the open channel of that
  name, never to the default one, and what the collector gets from there is published under the topic as the packed
  envelope with the sender's time, without a foreign key; a broadcast on a topic that was not created goes to the default channel and
  is dropped. Buffers that are empty or too long are not sent at all.
\<close>

theorem created_topic_published:
  assumes "NewMessagesHandler args = Inr (h, ds)" and "NewOutgoingChannelLoadBalancer True = Inr b0" and "a_OutgoingCLB args = Some b0"
    and "name \<noteq> defaultSendChannel" and "topic \<noteq> name"
    and "m_Marshal (h_marshaller E) \<lparr>tm_Version = 1, tm_Payload = buff, tm_Timestamp = now, tm_Pk = [], tm_SignatureOnPid = []\<rparr>
      = Inr packed" and "packed \<noteq> []"
  shows "\<exists>h1 c. CreateTopic h name True None None = (None, h1) \<and> c \<noteq> hd (chans (mh_outgoingCLB h1)) \<and>
    c \<notin> closedChans (mh_outgoingCLB h1) \<and>
    (let sd = \<lparr>sd_Buff = buff, sd_Topic = name, sd_Sk = None, sd_ID = h_peerID E\<rparr>;
         ok = (0 < length buff \<and> length buff \<le> maxSendBuffSize)
     in Broadcast_topic E h1 True name buff = Some (if ok then Some (c, sd) else None) \<and>
        Broadcast_topic E h1 True topic buff =
          Some (if ok then Some (hd (chans (mh_outgoingCLB h1)), sd\<lparr>sd_Topic := topic\<rparr>) else None) \<and>
        processCollected E h1 now (Some sd) = Some (name, packed, None) \<and>
        processCollected E h1 now (Some (sd\<lparr>sd_Topic := topic\<rparr>)) = None)"
proof -
  have h: "mh_outgoingCLB h = b0" "topics h = {}" using new_handler [OF assms(1)] assms(3) by auto
  obtain c b1 where c: "AddChannel b0 name = (None, b1)" "balancer_ok b1" "GetChannelOrDefault b1 name = Some c"
    "c \<notin> closedChans b1" "c \<noteq> hd (chans b1)"
    using AddChannel_lookup [OF new_ok [OF assms(2)] assms(4)] by blast
  let ?h = "h\<lparr>topics := {name}, subscriptions := insert name (subscriptions h), mh_outgoingCLB := b1\<rparr>"
  have crt: "CreateTopic h name True None None = (None, ?h)" using c(1) h by (simp add: CreateTopic_def Let_def)
  have nm: "set (names b1) = {defaultSendChannel, name}"
    using c(1) assms(2,4) by (auto simp: AddChannel_def NewOutgoingChannelLoadBalancer_def appendChannel_def)
  have def_ch: "GetChannelOrDefault b1 topic = Some (hd (chans b1))"
  proof (cases "topic = defaultSendChannel")
    case True
    with c(2) show ?thesis
      by (cases "names b1"; cases "chans b1") (auto simp: balancer_ok_def GetChannelOrDefault_def)
  next
    case False
    then have "topic \<notin> set (names b1)" using nm assms(5) by simp
    with c(2) show ?thesis
      by (cases "chans b1") (auto simp: balancer_ok_def GetChannelOrDefault_def map_of_zip_is_None split: option.splits
          dest: map_of_SomeD set_zip_leftD)
  qed
  show ?thesis
    using crt c def_ch assms(5-7)
    by (intro exI [of _ ?h] exI [of _ c])
      (simp add: Let_def Broadcast_topic_def BroadcastOnChannel_def sent_on_def broadcastOnChannelBlocking_def
        checkSendableData_def processCollected_def publish_def createMessageBytes_def currentTopicMessageVersion_def)
qed

definition ex_mh_args :: "(string set, peer_id set, peer_id \<rightharpoonup> cache_val, string set) ArgMessagesHandler" where
  "ex_mh_args = \<lparr>a_PubSub = Some {}, a_DirectSender = Some \<lparr>counter = 0, hasMessageHandler = False, seenMessages = {}\<rparr>,
     a_Throttler = True, a_OutgoingCLB = Some bal0, a_Marshaller = True, a_ConnMonitor = Some {},
     a_PeersRatingHandler = Some two_tiers, a_SyncTimer = True, a_Logger = True\<rparr>"

theorem created_topic_published_witness:
  "\<exists>h ds h1 c. NewMessagesHandler ex_mh_args = Inr (h, ds) \<and> CreateTopic h ''txs'' True None None = (None, h1) \<and>
     Broadcast_topic ex_mh_env h1 True ''txs'' [104, 105] =
       Some (Some (c, \<lparr>sd_Buff = [104, 105], sd_Topic = ''txs'', sd_Sk = None, sd_ID = ''self''\<rparr>))"
proof -
  obtain h ds where h: "NewMessagesHandler ex_mh_args = Inr (h, ds)"
    by (simp add: NewMessagesHandler_def checkArgMessagesHandler_def ex_mh_args_def RegisterDirectMessageProcessor_def)
  have m: "m_Marshal (h_marshaller ex_mh_env) \<lparr>tm_Version = 1, tm_Payload = [104, 105], tm_Timestamp = 100, tm_Pk = [],
      tm_SignatureOnPid = []\<rparr> = Inr (TopicMessage_enc example_envelope)"
    using ex_marshal by (simp add: example_envelope_def)
  have ne: "TopicMessage_enc example_envelope \<noteq> []" by (simp add: TopicMessage_enc_def enc_varint_field_def)
  show ?thesis
    using created_topic_published [OF h bal0_new _ _ _ m ne, of "''txs''" "''x''"] h
    by (fastforce simp: ex_mh_args_def defaultSendChannel_def Let_def maxSendBuffSize_def)
qed

section \<open>Direct messages and ratings\<close>

lemma ProcessReceivedMessage_ratings:
  "mh_ratings (snd (ProcessReceivedMessage E h now (Some msg) p True)) =
   (if validateMessageByTimestamp now msg = None \<and>
       (\<exists>tp. topicProcs_at h (TopicField msg) = Some tp \<and> (\<forall>e \<in> set tp. snd e msg p = None)) \<and>
       BroadcastMethodField msg = Direct \<and> \<not> str_contains (TopicField msg) (h_TopicRequestSuffix E)
    then IncreaseRating (h_cacher E) (mh_ratings h) p else mh_ratings h)"
  by (auto simp: ProcessReceivedMessage_def increaseRatingIfNeeded_def runProcessors_all GetList_def Let_def
      split: option.splits)

text \<open>
  How a message that reaches the handler directly changes the ratings: the connected peer's rating goes up
  by two, capped at 100 (a peer without rating gets 0), exactly when the message is a direct one, within the
  time window, on a topic with processors that all accept it, and the topic is not one of requests; in
  every other case, and for every other peer that the cache keeps, the ratings stay as they are.
\<close>

theorem direct_message_rating:
  assumes "cacher (h_cacher E)" and "ratings_ok (h_cacher E) (mh_ratings h)" and "clock_ok now"
  shows "rating_of (h_cacher E) (mh_ratings (snd (ProcessReceivedMessage E h now (Some msg) p True))) p =
    (if sint now - 600 \<le> sint (TimestampField msg) \<and> sint (TimestampField msg) \<le> sint now + 20 \<and>
        (\<exists>tp. topicProcs_at h (TopicField msg) = Some tp \<and> (\<forall>e \<in> set tp. snd e msg p = None)) \<and>
        BroadcastMethodField msg = Direct \<and> \<not> str_contains (TopicField msg) (h_TopicRequestSuffix E)
     then Some (next_rating (rating_of (h_cacher E) (mh_ratings h) p) 2)
     else rating_of (h_cacher E) (mh_ratings h) p) \<and>
    (q \<noteq> p \<longrightarrow> rating_of (h_cacher E) (mh_ratings (snd (ProcessReceivedMessage E h now (Some msg) p True))) q
       \<in> {None, rating_of (h_cacher E) (mh_ratings h) q})"
  using cacher.updateRating_ok(2) [OF assms(1,2), of 2 p] cacher.updateRating_other [OF assms(1,2), of q p 2]
  by (auto simp: ProcessReceivedMessage_ratings validate_window [OF assms(3)] IncreaseRating_def increaseFactor_def)

theorem direct_message_rating_witness:
  "let h = ex_mh\<lparr>processors := [''t'' \<mapsto> Some [(''i'', \<lambda>m p. None)]]\<rparr>;
       m = example_msg\<lparr>BroadcastMethodField := Direct\<rparr>
   in rating_of cacherMock (mh_ratings (snd (ProcessReceivedMessage ex_mh_env h 110 (Some m) ''a'' True))) ''a'' = Some 6 \<and>
      rating_of cacherMock (mh_ratings (snd (ProcessReceivedMessage ex_mh_env h 110 (Some example_msg) ''a'' True))) ''a''
        = Some 4"
proof -
  let ?h = "ex_mh\<lparr>processors := [''t'' \<mapsto> Some [(''i'', \<lambda>m p. None)]]\<rparr>"
  have hyp: "cacher (h_cacher ex_mh_env)" "ratings_ok (h_cacher ex_mh_env) (mh_ratings ?h)" "clock_ok 110"
    using mock.cacher_axioms two_tiers_ok by (simp_all add: ex_mh_def clock_ok_def)
  have r: "rating_of cacherMock two_tiers ''a'' = Some 4"
    by (simp add: rating_of_def two_tiers_def cacherMock_def assert_int32_def)
  show ?thesis
    using direct_message_rating [OF hyp, of "example_msg\<lparr>BroadcastMethodField := Direct\<rparr>" "''a''"]
      direct_message_rating [OF hyp, of example_msg "''a''"] r
    by (simp add: Let_def example_msg_def ex_mh_def topicProcs_at_def next_rating_def)
qed

section \<open>Registering and unregistering\<close>

text \<open>
  Unregistering the last processor of a topic leaves the topic's key in \<^verbatim>\<open>processors\<close>, with a \<^verbatim>\<open>nil\<close> value: with a
  pubsub that refuses to unregister a validator that is not there, a later \<^verbatim>\<open>UnregisterAllMessageProcessors\<close>
  returns that error, although nothing is left to unregister.
\<close>

theorem unregister_leaves_key:
  assumes "processors h topic = None" and "v_Register (h_validators E) (mh_pubSub h) topic = (None, ps1)"
    and "v_Unregister (h_validators E) ps1 topic = (None, ps2)"
    and "v_Unregister (h_validators E) ps2 topic = (Some e, ps3)"
  shows "let h1 = snd (RegisterMessageProcessor E h topic identifier (Some proc));
             (err, h2) = UnregisterMessageProcessor E h1 topic identifier
    in err = None \<and> processors h2 topic = Some None \<and>
       fst (UnregisterAllMessageProcessors E h2 [topic]) = Some e"
proof -
  have reg: "RegisterMessageProcessor E h topic identifier (Some proc) =
      (None, h\<lparr>processors := (processors h)(topic \<mapsto> Some [(identifier, proc)]), mh_pubSub := ps1\<rparr>)"
    using assms(1,2) by (simp add: RegisterMessageProcessor_def topicProcs_at_def AddTopicProcessor_def Let_def)
  show ?thesis
    using assms(3,4)
    by (simp add: reg UnregisterMessageProcessor_def topicProcs_at_def RemoveTopicProcessor_def GetList_def Let_def)
qed

theorem unregister_leaves_key_witness:
  "let h1 = snd (RegisterMessageProcessor ex_mh_env ex_mh ''t'' ''i'' (Some (\<lambda>m p. None)));
       (err, h2) = UnregisterMessageProcessor ex_mh_env h1 ''t'' ''i''
   in err = None \<and> processors h2 ''t'' = Some None \<and>
      fst (UnregisterAllMessageProcessors ex_mh_env h2 [''t'']) = Some (ErrOther ''no validator'')"
  by (rule unregister_leaves_key [where ?ps1.0 = "{''t''}" and ?ps2.0 = "{}" and ?ps3.0 = "{}"])
     (simp_all add: ex_mh_def ex_validators_def)

end
