(* ===== verification/Ws_Message.thy ===== *)
theory Ws_Message
  imports Proto_Wire
begin

text \<open>
  \<^verbatim>\<open>websocket/data/wsMessage.pb.go\<close>: the message that the websocket hosts exchange and its generated
  codec. Marshalling writes the reference encoding in place and unmarshalling inverts it, for
  payload messages and for acknowledges.
\<close>

record WsMessage =
  wm_WithAcknowledge :: bool
  wm_Counter :: uint64
  wm_Type :: "32 word"
  wm_Payload :: bytes
  wm_Topic :: string
  wm_Version :: uint32

definition WsMessage_zero :: WsMessage where
  "WsMessage_zero = \<lparr>wm_WithAcknowledge = False, wm_Counter = 0, wm_Type = 0, wm_Payload = [],
     wm_Topic = [], wm_Version = 0\<rparr>"

definition WsMessage_Size :: "WsMessage \<Rightarrow> nat" where
  "WsMessage_Size m =
     (if wm_WithAcknowledge m then 2 else 0) + varint_field_size (wm_Counter m) +
     varint_field_size (scast (wm_Type m)) + bytes_field_size (length (wm_Payload m)) +
     bytes_field_size (length (wm_Topic m)) + varint_field_size (ucast (wm_Version m))"

text \<open>The field of type \<^verbatim>\<open>bool\<close>: the code tests the flag a second time for the byte that it writes.\<close>

definition put_bool_field :: "byte \<Rightarrow> bool \<Rightarrow> bytes \<times> nat \<Rightarrow> (bytes \<times> nat) option" where
  "put_bool_field tag b s =
     (if b then do { s1 \<leftarrow> put_byte s (if b then 1 else 0); put_byte s1 tag } else Some s)"

definition WsMessage_MarshalToSizedBuffer :: "WsMessage \<Rightarrow> bytes \<Rightarrow> (bytes \<times> nat) option" where
  "WsMessage_MarshalToSizedBuffer m dAtA = do {
     s6 \<leftarrow> put_varint_field 0x30 (ucast (wm_Version m)) (dAtA, length dAtA);
     s5 \<leftarrow> put_bytes_field 0x2a (bytes_of_string (wm_Topic m)) s6;
     s4 \<leftarrow> put_bytes_field 0x22 (wm_Payload m) s5;
     s3 \<leftarrow> put_varint_field 0x18 (scast (wm_Type m)) s4;
     s2 \<leftarrow> put_varint_field 0x10 (wm_Counter m) s3;
     s1 \<leftarrow> put_bool_field 0x8 (wm_WithAcknowledge m) s2;
     Some (fst s1, length dAtA - snd s1)
   }"

definition WsMessage_Marshal :: "WsMessage \<Rightarrow> bytes option" where
  "WsMessage_Marshal m = do {
     (dAtA, n) \<leftarrow> WsMessage_MarshalToSizedBuffer m (replicate (WsMessage_Size m) 0);
     Some (take n dAtA)
   }"

text \<open>One turn of the loop of \<^verbatim>\<open>Unmarshal\<close>; the flag is read into an \<^verbatim>\<open>int\<close> and compared with 0.\<close>

definition WsMessage_field :: "bytes \<Rightarrow> nat \<Rightarrow> WsMessage \<Rightarrow> proto_error + (WsMessage \<times> nat)" where
  "WsMessage_field d i m =
     (case decodeTag d i of Inl e \<Rightarrow> Inl e
      | Inr (fieldNum, wireType, j) \<Rightarrow>
          if fieldNum = 1 then
            get_varint_field wireType ''WithAcknowledge'' d j
              (\<lambda>v :: int64. m\<lparr>wm_WithAcknowledge := v \<noteq> 0\<rparr>)
          else if fieldNum = 2 then
            get_varint_field wireType ''Counter'' d j (\<lambda>v. m\<lparr>wm_Counter := v\<rparr>)
          else if fieldNum = 3 then
            get_varint_field wireType ''Type'' d j (\<lambda>v. m\<lparr>wm_Type := v\<rparr>)
          else if fieldNum = 4 then
            get_bytes_field wireType ''Payload'' d j (\<lambda>v. m\<lparr>wm_Payload := v\<rparr>)
          else if fieldNum = 5 then
            get_bytes_field wireType ''Topic'' d j (\<lambda>v. m\<lparr>wm_Topic := string_of_bytes v\<rparr>)
          else if fieldNum = 6 then
            get_varint_field wireType ''Version'' d j (\<lambda>v. m\<lparr>wm_Version := v\<rparr>)
          else get_unknown_field d i m)"

lemma WsMessage_field_progress: "WsMessage_field d i m = Inr (m', j) \<Longrightarrow> i < j \<and> j \<le> length d"
  by (auto simp: WsMessage_field_def split: sum.splits if_splits
      dest!: get_field_progress decodeTag_progress)

function WsMessage_loop :: "bytes \<Rightarrow> nat \<Rightarrow> WsMessage \<Rightarrow> proto_error + WsMessage" where
  "WsMessage_loop d i m =
     (if i < length d then
        (case WsMessage_field d i m of Inl e \<Rightarrow> Inl e | Inr (m', j) \<Rightarrow> WsMessage_loop d j m')
      else if length d < i then Inl ErrUnexpectedEOF
      else Inr m)"
  by pat_completeness auto
termination
  by (relation "measure (\<lambda>(d, i, m). length d - i)") (auto dest!: WsMessage_field_progress)

declare WsMessage_loop.simps [simp del]

definition WsMessage_Unmarshal :: "bytes \<Rightarrow> WsMessage \<Rightarrow> proto_error + WsMessage" where
  "WsMessage_Unmarshal d m = WsMessage_loop d 0 m"

section \<open>Marshalling\<close>

definition bool_word :: "bool \<Rightarrow> uint64" where
  "bool_word b = (if b then 1 else 0)"

definition WsMessage_enc :: "WsMessage \<Rightarrow> bytes" where
  "WsMessage_enc m =
     enc_varint_field 0x8 (bool_word (wm_WithAcknowledge m)) @
     enc_varint_field 0x10 (wm_Counter m) @ enc_varint_field 0x18 (scast (wm_Type m)) @
     enc_bytes_field 0x22 (wm_Payload m) @ enc_bytes_field 0x2a (bytes_of_string (wm_Topic m)) @
     enc_varint_field 0x30 (ucast (wm_Version m))"

definition WsMessage_sized :: "WsMessage \<Rightarrow> bool" where
  "WsMessage_sized m \<longleftrightarrow> fits_int (length (WsMessage_enc m))"

lemma sov_1 [simp]: "sov 1 = 1"
  by (simp add: sov_def bits_Len64_def bit_len.simps)

lemma put_bool_field_varint:
  "put_bool_field tag b s = put_varint_field tag (bool_word b) s" if "snd s \<noteq> 0"
proof (cases s)
  case (Pair d i)
  with that have "0 < i" by simp
  then show ?thesis
    by (auto simp: Pair put_bool_field_def put_varint_field_def bool_word_def put_varint_def
        encodeVarint_def put_byte_def varint_loop.simps bind_assoc word_le_nat_alt)
qed

lemma put_bool_field_buf:
  assumes "varint_field_size (bool_word b) \<le> r"
  shows "put_bool_field tag b (buf_state r out) =
    Some (buf_state (r - varint_field_size (bool_word b)) (enc_varint_field tag (bool_word b) @ out))"
proof (cases b)
  case True
  with assms have "snd (buf_state r out) \<noteq> 0"
    by (simp add: bool_word_def varint_field_size_def buf_state_def)
  from put_bool_field_varint [OF this] put_varint_field_buf [OF assms] show ?thesis by simp
next
  case False
  then show ?thesis by (simp add: put_bool_field_def bool_word_def varint_field_size_def enc_varint_field_def)
qed

lemma bool_field_size: "(if b then 2 else 0) = varint_field_size (bool_word b)"
  by (simp add: varint_field_size_def bool_word_def)

lemma WsMessage_sized_fields:
  assumes "WsMessage_sized m"
  shows "fits_int (length (wm_Payload m))" "fits_int (length (bytes_of_string (wm_Topic m)))"
  using assms unfolding WsMessage_sized_def WsMessage_enc_def
  by (auto dest!: fits_int_add enc_bytes_field_fits simp del: length_enc_varint_field)

lemma length_WsMessage_enc: "WsMessage_sized m \<Longrightarrow> length (WsMessage_enc m) = WsMessage_Size m"
  using WsMessage_sized_fields [of m]
  by (simp add: WsMessage_enc_def WsMessage_Size_def length_enc_bytes_field bool_field_size)

lemma WsMessage_Marshal_enc:
  assumes "WsMessage_sized m"
  shows "WsMessage_Marshal m = Some (WsMessage_enc m)"
proof -
  have start: "(replicate n 0, n) = buf_state n []" for n by (simp add: buf_state_def)
  show ?thesis
    using length_WsMessage_enc [OF assms] WsMessage_sized_fields [OF assms]
    by (simp add: WsMessage_Marshal_def WsMessage_MarshalToSizedBuffer_def start put_bool_field_buf
        put_bytes_field_buf put_varint_field_buf WsMessage_Size_def WsMessage_enc_def bool_field_size)
       (simp add: buf_state_def)
qed

section \<open>Unmarshalling\<close>

interpretation ws_msg: proto_message WsMessage_field WsMessage_loop
  by unfold_locales (auto simp: WsMessage_loop.simps dest: WsMessage_field_progress)

lemma WsMessage_field_cases:
  "drop i d = 0x8 # rest \<Longrightarrow> WsMessage_field d i m =
     get_varint_field 0 ''WithAcknowledge'' d (Suc i) (\<lambda>v :: int64. m\<lparr>wm_WithAcknowledge := v \<noteq> 0\<rparr>)"
  "drop i d = 0x10 # rest \<Longrightarrow> WsMessage_field d i m =
     get_varint_field 0 ''Counter'' d (Suc i) (\<lambda>v. m\<lparr>wm_Counter := v\<rparr>)"
  "drop i d = 0x18 # rest \<Longrightarrow> WsMessage_field d i m =
     get_varint_field 0 ''Type'' d (Suc i) (\<lambda>v. m\<lparr>wm_Type := v\<rparr>)"
  "drop i d = 0x22 # rest \<Longrightarrow> WsMessage_field d i m =
     get_bytes_field 2 ''Payload'' d (Suc i) (\<lambda>v. m\<lparr>wm_Payload := v\<rparr>)"
  "drop i d = 0x2a # rest \<Longrightarrow> WsMessage_field d i m =
     get_bytes_field 2 ''Topic'' d (Suc i) (\<lambda>v. m\<lparr>wm_Topic := string_of_bytes v\<rparr>)"
  "drop i d = 0x30 # rest \<Longrightarrow> WsMessage_field d i m =
     get_varint_field 0 ''Version'' d (Suc i) (\<lambda>v. m\<lparr>wm_Version := v\<rparr>)"
  by (simp_all add: WsMessage_field_def decodeTag_byte)

lemma WsMessage_loop_enc:
  assumes "drop i d = WsMessage_enc m @ rest" and fits: "fits_int (length d)"
  shows "WsMessage_loop d i WsMessage_zero = WsMessage_loop d (i + length (WsMessage_enc m)) m"
proof -
  let ?f1 = "enc_varint_field 0x8 (bool_word (wm_WithAcknowledge m))"
  let ?f2 = "enc_varint_field 0x10 (wm_Counter m)"
  let ?f3 = "enc_varint_field 0x18 (scast (wm_Type m))"
  let ?f4 = "enc_bytes_field 0x22 (wm_Payload m)"
  let ?f5 = "enc_bytes_field 0x2a (bytes_of_string (wm_Topic m))"
  let ?f6 = "enc_varint_field 0x30 (ucast (wm_Version m))"
  let ?m1 = "WsMessage_zero\<lparr>wm_WithAcknowledge := ucast (bool_word (wm_WithAcknowledge m)) \<noteq> (0 :: int64)\<rparr>"
  let ?m2 = "?m1\<lparr>wm_Counter := ucast (wm_Counter m)\<rparr>"
  let ?m3 = "?m2\<lparr>wm_Type := ucast (scast (wm_Type m) :: uint64)\<rparr>"
  let ?m4 = "?m3\<lparr>wm_Payload := wm_Payload m\<rparr>"
  let ?m5 = "?m4\<lparr>wm_Topic := string_of_bytes (bytes_of_string (wm_Topic m))\<rparr>"
  let ?m6 = "?m5\<lparr>wm_Version := ucast (ucast (wm_Version m) :: uint64)\<rparr>"
  have d0: "drop i d = ?f1 @ ?f2 @ ?f3 @ ?f4 @ ?f5 @ ?f6 @ rest"
    using assms(1) by (simp add: WsMessage_enc_def)
  note d1 = drop_appendD [OF d0]
  note d2 = drop_appendD [OF d1]
  note d3 = drop_appendD [OF d2]
  note d4 = drop_appendD [OF d3]
  note d5 = drop_appendD [OF d4]
  note zero = WsMessage_zero_def string_of_bytes_def
  have "WsMessage_loop d i WsMessage_zero = WsMessage_loop d (i + length ?f1) ?m1"
    by (rule ws_msg.loop_varint [OF d0, OF WsMessage_field_cases(1)]) (simp_all add: zero)
  also have "\<dots> = WsMessage_loop d (i + length ?f1 + length ?f2) ?m2"
    by (rule ws_msg.loop_varint [OF d1, OF WsMessage_field_cases(2)]) (simp_all add: zero)
  also have "\<dots> = WsMessage_loop d (i + length ?f1 + length ?f2 + length ?f3) ?m3"
    by (rule ws_msg.loop_varint [OF d2, OF WsMessage_field_cases(3)]) (simp_all add: zero)
  also have "\<dots> = WsMessage_loop d (i + length ?f1 + length ?f2 + length ?f3 + length ?f4) ?m4"
    by (rule ws_msg.loop_bytes [OF d3 fits, OF WsMessage_field_cases(4)]) (simp_all add: zero)
  also have "\<dots> =
      WsMessage_loop d (i + length ?f1 + length ?f2 + length ?f3 + length ?f4 + length ?f5) ?m5"
    by (rule ws_msg.loop_bytes [OF d4 fits, OF WsMessage_field_cases(5)]) (simp_all add: zero)
  also have "\<dots> = WsMessage_loop d
      (i + length ?f1 + length ?f2 + length ?f3 + length ?f4 + length ?f5 + length ?f6) ?m6"
    by (rule ws_msg.loop_varint [OF d5, OF WsMessage_field_cases(6)]) (simp_all add: zero)
  also have "?m6 = m"
    by (cases m) (simp add: WsMessage_zero_def ucast_ucast_uint32 ucast_scast_int32 bool_word_def)
  finally show ?thesis by (simp add: WsMessage_enc_def add.assoc)
qed

text \<open>
  For every websocket message that fits in memory, \<^verbatim>\<open>Marshal\<close> returns without indexing out of range and
  unmarshalling the result into a fresh message gives the message back (the type may be negative: it is
  sign-extended to ten bytes and truncated again).
\<close>

theorem WsMessage_roundtrip:
  assumes "WsMessage_sized m"
  shows "WsMessage_Marshal m = Some (WsMessage_enc m) \<and>
    WsMessage_Unmarshal (WsMessage_enc m) WsMessage_zero = Inr m"
proof -
  have "fits_int (length (WsMessage_enc m))" using assms by (simp add: WsMessage_sized_def)
  then have "WsMessage_loop (WsMessage_enc m) 0 WsMessage_zero =
      WsMessage_loop (WsMessage_enc m) (length (WsMessage_enc m)) m"
    using WsMessage_loop_enc [of 0 "WsMessage_enc m" m "[]"] by simp
  then show ?thesis
    using assms by (simp add: WsMessage_Unmarshal_def WsMessage_Marshal_enc ws_msg.loop_end)
qed

definition ws_example :: WsMessage where
  "ws_example = \<lparr>wm_WithAcknowledge = True, wm_Counter = 2, wm_Type = 1, wm_Payload = [9],
     wm_Topic = ''t'', wm_Version = 1\<rparr>"

theorem WsMessage_roundtrip_witness:
  "WsMessage_Marshal ws_example = Some [8, 1, 16, 2, 24, 1, 34, 1, 9, 42, 1, 116, 48, 1] \<and>
   WsMessage_Unmarshal [8, 1, 16, 2, 24, 1, 34, 1, 9, 42, 1, 116, 48, 1] WsMessage_zero = Inr ws_example"
proof -
  have enc: "WsMessage_enc ws_example = [8, 1, 16, 2, 24, 1, 34, 1, 9, 42, 1, 116, 48, 1]"
    by (simp add: ws_example_def WsMessage_enc_def enc_varint_field_def enc_bytes_field_def
        enc_nat.simps bool_word_def bytes_of_string_def)
  then have "WsMessage_sized ws_example" by (simp add: WsMessage_sized_def fits_int_def)
  from WsMessage_roundtrip [OF this] show ?thesis by (simp add: enc)
qed

end
