(* ===== verification/Ws_Transceiver.thy ===== *)
theory Ws_Transceiver
  imports Ws_Message
begin

text \<open>
  \<^verbatim>\<open>websocket/transceiver/transceiver.go\<close> and \<^verbatim>\<open>websocket/payloadConverter.go\<close>: messages over one websocket
  connection, with acknowledges.

  Arguments for code outside of the repository: the marshaller behind the payload converter (the record
  \<open>converter_ops\<close>, with the contract of the locale \<open>ws_converter\<close>, interpreted on the generated codec),
  the payload handler, and what the connection answers to a write. A Go channel is a number; the calls of \<^verbatim>\<open>Send\<close> that
  wait for an acknowledge run concurrently, so the protocol is a step relation.
\<close>

section \<open>The payload converter\<close>

datatype ws_error =
    WsErrNilLogger | ErrNilPayloadConverter | ErrZeroValueRetryDuration | ErrZeroValueAckTimeout
  | ErrNilPayloadProcessor | ErrAckTimeout | ErrExpectedAckWasNotReceivedOnClose | ErrEmptyUrl
  | ErrConnectionAlreadyOpen | ErrConnectionNotOpen | ErrInvalidWebSocketHostMode | ErrNoClientsConnected
  | WsErrNilMarshaller | WsErrOther string

record converter_ops =
  ConstructPayload :: "WsMessage \<Rightarrow> string + bytes"
  ExtractWsMessage :: "bytes \<Rightarrow> string + WsMessage"

locale ws_converter =
  fixes C :: converter_ops and encodable :: "WsMessage \<Rightarrow> bool"
  assumes extract_constructed: "encodable m \<Longrightarrow> ConstructPayload C m = Inr d \<Longrightarrow> ExtractWsMessage C d = Inr m"
    and constructed_nonempty: "encodable m \<Longrightarrow> ConstructPayload C m = Inr d \<Longrightarrow> wm_Type m \<noteq> 0 \<Longrightarrow> d \<noteq> []"

definition protoConverter :: converter_ops where
  "protoConverter =
     \<lparr>ConstructPayload = (\<lambda>m. case WsMessage_Marshal m of None \<Rightarrow> Inl ''panic'' | Some d \<Rightarrow> Inr d),
      ExtractWsMessage = (\<lambda>d. case WsMessage_Unmarshal d WsMessage_zero of
         Inl _ \<Rightarrow> Inl ''unmarshal error'' | Inr m \<Rightarrow> Inr m)\<rparr>"

lemma WsMessage_decode_enc:
  assumes "WsMessage_sized m"
  shows "WsMessage_Unmarshal (WsMessage_enc m) WsMessage_zero = Inr m"
proof -
  have "WsMessage_loop (WsMessage_enc m) 0 WsMessage_zero =
      WsMessage_loop (WsMessage_enc m) (length (WsMessage_enc m)) m"
    using WsMessage_loop_enc [of 0 "WsMessage_enc m" m "[]"] assms by (simp add: WsMessage_sized_def)
  then show ?thesis by (simp add: WsMessage_Unmarshal_def ws_msg.loop_end)
qed

lemma WsMessage_enc_nonempty: "wm_Type m \<noteq> 0 \<Longrightarrow> WsMessage_enc m \<noteq> []"
proof -
  assume "wm_Type m \<noteq> 0"
  then have "(scast (wm_Type m) :: uint64) \<noteq> 0" by (metis ucast_scast_int32 unsigned_0)
  then show ?thesis by (simp add: WsMessage_enc_def enc_varint_field_def)
qed

interpretation proto_ws: ws_converter protoConverter WsMessage_sized
  by unfold_locales
     (auto simp: protoConverter_def WsMessage_Marshal_enc WsMessage_decode_enc WsMessage_enc_nonempty)

section \<open>State\<close>

definition AckMessage :: "32 word" where "AckMessage = 1"
definition PayloadMessage :: "32 word" where "PayloadMessage = 2"

text \<open>\<^verbatim>\<open>nextCh\<close> is the next channel to be made, \<^verbatim>\<open>closedCh\<close> the channels that were closed.\<close>

record wsTransceiver =
  mapAck :: "uint64 \<rightharpoonup> nat"
  ws_counter :: uint64
  blockingAckOnError :: bool
  withAcknowledge :: bool
  payloadVersion :: uint32
  nextCh :: nat
  closedCh :: "nat set"

record ArgsTransceiver =
  ta_hasPayloadConverter :: bool
  ta_hasLog :: bool
  ta_RetryDurationInSec :: int
  ta_AckTimeoutInSec :: int
  ta_BlockingAckOnError :: bool
  ta_WithAcknowledge :: bool
  ta_PayloadVersion :: uint32

definition transceiver_checkArgs :: "ArgsTransceiver \<Rightarrow> ws_error option" where
  "transceiver_checkArgs args =
     (if \<not> ta_hasLog args then Some WsErrNilLogger
      else if \<not> ta_hasPayloadConverter args then Some ErrNilPayloadConverter
      else if ta_RetryDurationInSec args = 0 then Some ErrZeroValueRetryDuration
      else if ta_WithAcknowledge args \<and> ta_AckTimeoutInSec args = 0 then Some ErrZeroValueAckTimeout
      else None)"

definition NewTransceiver :: "ArgsTransceiver \<Rightarrow> ws_error + wsTransceiver" where
  "NewTransceiver args =
     (case transceiver_checkArgs args of Some e \<Rightarrow> Inl e
      | None \<Rightarrow> Inr \<lparr>mapAck = Map.empty, ws_counter = 0, blockingAckOnError = ta_BlockingAckOnError args,
          withAcknowledge = ta_WithAcknowledge args, payloadVersion = ta_PayloadVersion args,
          nextCh = 0, closedCh = {}\<rparr>)"

section \<open>Sending\<close>

definition prepareChanAndCounter :: "wsTransceiver \<Rightarrow> (nat \<times> uint64) \<times> wsTransceiver" where
  "prepareChanAndCounter wt =
     (let localCounter = ws_counter wt + 1; ch = nextCh wt in
      ((ch, localCounter),
       wt\<lparr>ws_counter := localCounter, nextCh := Suc ch,
          mapAck := (if withAcknowledge wt then (mapAck wt)(localCounter \<mapsto> ch) else mapAck wt)\<rparr>))"

definition outgoing :: "wsTransceiver \<Rightarrow> uint64 \<Rightarrow> bytes \<Rightarrow> string \<Rightarrow> WsMessage" where
  "outgoing wt localCounter payload topic =
     \<lparr>wm_WithAcknowledge = withAcknowledge wt, wm_Counter = localCounter, wm_Type = PayloadMessage,
      wm_Payload = payload, wm_Topic = topic, wm_Version = payloadVersion wt\<rparr>"

text \<open>What \<^verbatim>\<open>Send\<close> does until it returns or waits on its channel.\<close>

datatype send_result = Returned "ws_error option" | WaitsFor nat

definition sendPayload ::
    "converter_ops \<Rightarrow> (bytes \<Rightarrow> ws_error option) \<Rightarrow> wsTransceiver \<Rightarrow> nat \<Rightarrow> uint64 \<Rightarrow> bytes \<Rightarrow> string
     \<Rightarrow> send_result" where
  "sendPayload C write wt ch localCounter payload topic =
     (case ConstructPayload C (outgoing wt localCounter payload topic) of
        Inl e \<Rightarrow> Returned (Some (WsErrOther e))
      | Inr newPayload \<Rightarrow>
        (case write newPayload of Some e \<Rightarrow> Returned (Some e)
         | None \<Rightarrow> if \<not> withAcknowledge wt then Returned None else WaitsFor ch))"

definition ws_Send ::
    "converter_ops \<Rightarrow> (bytes \<Rightarrow> ws_error option) \<Rightarrow> wsTransceiver \<Rightarrow> bytes \<Rightarrow> string
     \<Rightarrow> send_result \<times> wsTransceiver" where
  "ws_Send C write wt payload topic =
     (case prepareChanAndCounter wt of ((ch, localCounter), wt1) \<Rightarrow>
        (sendPayload C write wt1 ch localCounter payload topic, wt1))"

text \<open>The \<^verbatim>\<open>select\<close> of \<^verbatim>\<open>waitForAck\<close>: which of its cases are ready.\<close>

datatype wait_event = ChanClosed | TimerFired | SafeCloserClosed

definition waitForAck :: "wsTransceiver \<Rightarrow> nat \<Rightarrow> wait_event \<Rightarrow> ws_error option option" where
  "waitForAck wt ch ev =
     (case ev of ChanClosed \<Rightarrow> if ch \<in> closedCh wt then Some None else None
      | TimerFired \<Rightarrow> Some (Some ErrAckTimeout)
      | SafeCloserClosed \<Rightarrow> Some (Some ErrExpectedAckWasNotReceivedOnClose))"

section \<open>Receiving\<close>

text \<open>Closing a channel twice is a panic.\<close>

definition handleAckMessage :: "wsTransceiver \<Rightarrow> uint64 \<Rightarrow> wsTransceiver option" where
  "handleAckMessage wt c =
     (case mapAck wt c of None \<Rightarrow> Some wt
      | Some ch \<Rightarrow>
        if ch \<in> closedCh wt then None
        else Some (wt\<lparr>closedCh := insert ch (closedCh wt), mapAck := (mapAck wt)(c := None)\<rparr>))"

text \<open>The acknowledge that \<^verbatim>\<open>sendAckIfNeeded\<close> constructs, if any.\<close>

definition ackPayload :: "converter_ops \<Rightarrow> WsMessage \<Rightarrow> bytes option" where
  "ackPayload C m =
     (if \<not> wm_WithAcknowledge m then None
      else (case ConstructPayload C (WsMessage_zero\<lparr>wm_Counter := wm_Counter m, wm_Type := AckMessage\<rparr>) of
              Inl _ \<Rightarrow> None | Inr d \<Rightarrow> Some d))"

text \<open>
  Its loop, on the outcomes of the attempts: the number of writes once it ends, and whether the last one went
  through; \<^const>\<open>None\<close> while it is still retrying.
\<close>

datatype attempt = WriteOk | WriteFailed | WriteFailedThenClosed

fun sendAck_loop :: "attempt list \<Rightarrow> nat \<Rightarrow> (bool \<times> nat) option" where
  "sendAck_loop [] n = None"
| "sendAck_loop (WriteOk # as) n = Some (True, Suc n)"
| "sendAck_loop (WriteFailed # as) n = sendAck_loop as (Suc n)"
| "sendAck_loop (WriteFailedThenClosed # as) n = Some (False, Suc n)"

record received =
  r_processed :: "(bytes \<times> string \<times> uint32) option"
  r_ack :: "bytes option"

text \<open>
  \<^verbatim>\<open>verifyPayloadAndSendAckIfNeeded\<close>: what is given to the payload handler and the acknowledge to be written.
\<close>

definition verifyPayloadAndSendAckIfNeeded ::
    "converter_ops \<Rightarrow> (bytes \<Rightarrow> string \<Rightarrow> uint32 \<Rightarrow> string option) \<Rightarrow> wsTransceiver \<Rightarrow> bytes
     \<Rightarrow> (received \<times> wsTransceiver) option" where
  "verifyPayloadAndSendAckIfNeeded C handler wt payload =
     (if length payload = 0 then Some (\<lparr>r_processed = None, r_ack = None\<rparr>, wt)
      else (case ExtractWsMessage C payload of Inl _ \<Rightarrow> Some (\<lparr>r_processed = None, r_ack = None\<rparr>, wt)
        | Inr m \<Rightarrow>
          if wm_Type m = AckMessage then do {
            wt1 \<leftarrow> handleAckMessage wt (wm_Counter m);
            Some (\<lparr>r_processed = None, r_ack = None\<rparr>, wt1)
          }
          else if wm_Type m \<noteq> PayloadMessage then Some (\<lparr>r_processed = None, r_ack = None\<rparr>, wt)
          else
            let proc = (wm_Payload m, wm_Topic m, wm_Version m);
                err = handler (wm_Payload m) (wm_Topic m) (wm_Version m)
            in if err \<noteq> None \<and> blockingAckOnError wt then Some (\<lparr>r_processed = Some proc, r_ack = None\<rparr>, wt)
               else Some (\<lparr>r_processed = Some proc, r_ack = ackPayload C m\<rparr>, wt)))"

text \<open>
  \<^verbatim>\<open>Listen\<close> on what the reads of the connection return: every message is handled in its turn, until a read fails; the
  result says whether the safe closer was still open then.
\<close>

datatype listen_result = Reading | Panicked | Ended bool

fun Listen ::
    "converter_ops \<Rightarrow> (bytes \<Rightarrow> string \<Rightarrow> uint32 \<Rightarrow> string option) \<Rightarrow> bool \<Rightarrow> wsTransceiver \<Rightarrow> (string + bytes) list
     \<Rightarrow> listen_result \<times> received list \<times> wsTransceiver" where
  "Listen C handler closing wt [] = (Reading, [], wt)"
| "Listen C handler closing wt (Inr message # reads) =
     (case verifyPayloadAndSendAckIfNeeded C handler wt message of
        None \<Rightarrow> (Panicked, [], wt)
      | Some (r, wt1) \<Rightarrow> (case Listen C handler closing wt1 reads of (l, rs, wt2) \<Rightarrow> (l, r # rs, wt2)))"
| "Listen C handler closing wt (Inl err # reads) = (Ended (\<not> closing), [], wt)"

section \<open>The acknowledge protocol\<close>

text \<open>
  The system of one transceiver: the calls of \<^verbatim>\<open>Send\<close> in flight, as their channels and counters, those that prepared
  their channel and did not write yet and those that wait on it, the results of the calls that returned, and
  the counters of the acknowledges received so far. Only \<^const>\<open>prepareChanAndCounter\<close> and \<^const>\<open>handleAckMessage\<close> hold the
  mutex, so an acknowledge may arrive between any two of the other steps.
\<close>

record ack_state =
  tr :: wsTransceiver
  prepared :: "(nat \<times> uint64) set"
  waiting :: "(nat \<times> uint64) set"
  results :: "(uint64 \<times> ws_error option) list"
  acked :: "uint64 list"

inductive ack_step :: "ack_state \<Rightarrow> ack_state \<Rightarrow> bool" where
  send_prepares: "prepareChanAndCounter (tr s) = ((ch, c), wt) \<Longrightarrow>
    ack_step s (s\<lparr>tr := wt, prepared := insert (ch, c) (prepared s)\<rparr>)"
| send_returns: "(ch, c) \<in> prepared s \<Longrightarrow> sendPayload C write (tr s) ch c payload topic = Returned r \<Longrightarrow>
    ack_step s (s\<lparr>prepared := prepared s - {(ch, c)}, results := results s @ [(c, r)]\<rparr>)"
| send_waits: "(ch, c) \<in> prepared s \<Longrightarrow> sendPayload C write (tr s) ch c payload topic = WaitsFor ch' \<Longrightarrow>
    ack_step s (s\<lparr>prepared := prepared s - {(ch, c)}, waiting := insert (ch', c) (waiting s)\<rparr>)"
| ack_received: "handleAckMessage (tr s) c = Some wt \<Longrightarrow>
    ack_step s (s\<lparr>tr := wt, acked := acked s @ [c]\<rparr>)"
| wait_ends: "(ch, c) \<in> waiting s \<Longrightarrow> waitForAck (tr s) ch ev = Some r \<Longrightarrow>
    ack_step s (s\<lparr>waiting := waiting s - {(ch, c)}, results := results s @ [(c, r)]\<rparr>)"

inductive ack_reach :: "wsTransceiver \<Rightarrow> ack_state \<Rightarrow> bool" for wt0 :: wsTransceiver where
  ack_init: "ack_reach wt0 \<lparr>tr = wt0, prepared = {}, waiting = {}, results = [], acked = []\<rparr>"
| ack_more: "ack_reach wt0 s \<Longrightarrow> ack_step s s' \<Longrightarrow> ack_reach wt0 s'"

text \<open>
  The invariant: registered channels are open, made and distinct; the channel of a call in flight is registered
  under its own counter at most, and was closed only by an acknowledge of its counter; a call
  of a transceiver with acknowledges succeeded only after an acknowledge of its counter.
\<close>

definition chan_inv :: "wsTransceiver \<Rightarrow> bool" where
  "chan_inv wt \<longleftrightarrow>
     (\<forall>c ch. mapAck wt c = Some ch \<longrightarrow> ch < nextCh wt \<and> ch \<notin> closedCh wt) \<and>
     (\<forall>c c' ch. mapAck wt c = Some ch \<and> mapAck wt c' = Some ch \<longrightarrow> c = c') \<and>
     (\<forall>ch \<in> closedCh wt. ch < nextCh wt)"

definition call_inv :: "wsTransceiver \<Rightarrow> uint64 list \<Rightarrow> nat \<Rightarrow> uint64 \<Rightarrow> bool" where
  "call_inv wt ack ch c \<longleftrightarrow>
     ch < nextCh wt \<and> (ch \<in> closedCh wt \<longrightarrow> c \<in> set ack) \<and> (\<forall>c'. mapAck wt c' = Some ch \<longrightarrow> c' = c)"

definition ack_inv :: "ack_state \<Rightarrow> bool" where
  "ack_inv s \<longleftrightarrow> chan_inv (tr s) \<and>
     (\<forall>ch c. (ch, c) \<in> prepared s \<union> waiting s \<longrightarrow> call_inv (tr s) (acked s) ch c) \<and>
     (withAcknowledge (tr s) \<longrightarrow> (\<forall>c. (c, None) \<in> set (results s) \<longrightarrow> c \<in> set (acked s)))"

lemma prepare_fields:
  assumes "prepareChanAndCounter wt = ((ch, c), wt1)"
  shows "ch = nextCh wt" "nextCh wt1 = Suc (nextCh wt)" "closedCh wt1 = closedCh wt" "c = ws_counter wt1"
    "withAcknowledge wt1 = withAcknowledge wt" "ws_counter wt1 = ws_counter wt + 1"
    "payloadVersion wt1 = payloadVersion wt"
    "mapAck wt1 = (if withAcknowledge wt then (mapAck wt)(c \<mapsto> ch) else mapAck wt)"
  using assms by (auto simp: prepareChanAndCounter_def Let_def)

lemma prepare_chan_inv:
  assumes "chan_inv wt" "prepareChanAndCounter wt = ((ch, c), wt1)"
  shows "chan_inv wt1" "call_inv wt1 ack ch c"
    "call_inv wt ack ch' c' \<Longrightarrow> call_inv wt1 ack ch' c'"
proof -
  note f = prepare_fields [OF assms(2)]
  note i = assms(1) [unfolded chan_inv_def]
  show "chan_inv wt1"
    unfolding chan_inv_def f(2,3,8) f(1) using i
    by (auto simp: less_Suc_eq split: if_splits dest: less_not_refl2)
  show "call_inv wt1 ack ch c"
    unfolding call_inv_def f(2,3,8) f(1) using i by (auto split: if_splits)
  show "call_inv wt1 ack ch' c'" if "call_inv wt ack ch' c'"
    using that unfolding call_inv_def f(2,3,8) f(1) by (auto split: if_splits)
qed

lemma handleAck_chan_inv:
  assumes "chan_inv wt" "handleAckMessage wt a = Some wt1"
  shows "chan_inv wt1" "call_inv wt ack ch c \<Longrightarrow> call_inv wt1 (ack @ [a]) ch c"
    "withAcknowledge wt1 = withAcknowledge wt"
  using assms unfolding handleAckMessage_def chan_inv_def call_inv_def
  by (auto split: option.splits if_splits)

lemma handleAck_no_panic: "chan_inv wt \<Longrightarrow> \<exists>wt1. handleAckMessage wt a = Some wt1"
  by (auto simp: handleAckMessage_def chan_inv_def split: option.splits)

lemma verify_chan_inv:
  assumes "chan_inv wt"
  shows "\<exists>r wt1. verifyPayloadAndSendAckIfNeeded C handler wt d = Some (r, wt1) \<and> chan_inv wt1"
proof (cases "ExtractWsMessage C d")
  case (Inr m)
  obtain wt1 where h: "handleAckMessage wt (wm_Counter m) = Some wt1" using handleAck_no_panic [OF assms] by blast
  show ?thesis
    using assms handleAck_chan_inv(1) [OF assms h]
    by (auto simp: verifyPayloadAndSendAckIfNeeded_def Let_def Inr h)
qed (use assms in \<open>simp add: verifyPayloadAndSendAckIfNeeded_def\<close>)

lemma Listen_no_panic: "chan_inv wt \<Longrightarrow> fst (Listen C handler closing wt reads) \<noteq> Panicked"
proof (induction C handler closing wt reads rule: Listen.induct)
  case (2 C handler closing wt message reads)
  then show ?case using verify_chan_inv [OF 2(2), of C handler message] by (fastforce split: prod.splits)
qed simp_all

lemma sendPayload_result:
  "sendPayload C write wt ch c payload topic = WaitsFor ch' \<Longrightarrow> ch' = ch \<and> withAcknowledge wt"
  "sendPayload C write wt ch c payload topic = Returned None \<Longrightarrow> \<not> withAcknowledge wt"
  by (auto simp: sendPayload_def split: sum.splits option.splits if_splits)

lemma ack_step_inv:
  assumes "ack_step s s'" "ack_inv s"
  shows "ack_inv s'"
  using assms
proof cases
  case (send_prepares ch c wt)
  with assms(2) prepare_chan_inv [OF _ send_prepares(2)] prepare_fields(5) [OF send_prepares(2)]
  show ?thesis unfolding ack_inv_def by auto
next
  case (send_returns ch c C wr payload topic r)
  with assms(2) sendPayload_result(2) show ?thesis unfolding ack_inv_def by fastforce
next
  case (send_waits ch c C wr payload topic ch1)
  with assms(2) sendPayload_result(1) [OF send_waits(3)] show ?thesis unfolding ack_inv_def by auto
next
  case (ack_received c wt)
  with assms(2) handleAck_chan_inv [OF _ ack_received(2)] show ?thesis unfolding ack_inv_def by auto
next
  case (wait_ends ch c ev r)
  then have "r = None \<Longrightarrow> c \<in> set (acked s)"
    using assms(2) unfolding ack_inv_def call_inv_def
    by (auto simp: waitForAck_def split: wait_event.splits if_splits)
  with wait_ends assms(2) show ?thesis unfolding ack_inv_def by auto
qed

lemma NewTransceiver_fields:
  assumes "NewTransceiver args = Inr wt"
  shows "mapAck wt = Map.empty" "closedCh wt = {}" "ws_counter wt = 0"
    "withAcknowledge wt = ta_WithAcknowledge args" "payloadVersion wt = ta_PayloadVersion args"
  using assms by (auto simp: NewTransceiver_def split: option.splits)

lemma ack_reach_inv:
  assumes "ack_reach wt0 s" "NewTransceiver args = Inr wt0"
  shows "ack_inv s"
  using assms(1)
proof induction
  case ack_init
  show ?case by (simp add: ack_inv_def chan_inv_def NewTransceiver_fields [OF assms(2)])
next
  case (ack_more s s')
  then show ?case using ack_step_inv by blast
qed

section \<open>One message and its acknowledge\<close>

definition ack_for :: "uint64 \<Rightarrow> WsMessage" where
  "ack_for c = WsMessage_zero\<lparr>wm_Counter := c, wm_Type := AckMessage\<rparr>"

lemma mapAck_prepared: "withAcknowledge wt \<Longrightarrow> prepareChanAndCounter wt = ((ch, c), wt1) \<Longrightarrow> mapAck wt1 c = Some ch"
  by (simp add: prepare_fields)

context ws_converter
begin

lemma payload_processed:
  assumes "encodable (outgoing wt c payload topic)" "ConstructPayload C (outgoing wt c payload topic) = Inr d"
    and "handler payload topic (payloadVersion wt) = None \<or> \<not> blockingAckOnError B"
  shows "verifyPayloadAndSendAckIfNeeded C handler B d =
      Some (\<lparr>r_processed = Some (payload, topic, payloadVersion wt), r_ack = ackPayload C (outgoing wt c payload topic)\<rparr>, B)"
  using assms extract_constructed [OF assms(1,2)] constructed_nonempty [OF assms(1,2)]
  by (auto simp: verifyPayloadAndSendAckIfNeeded_def outgoing_def AckMessage_def PayloadMessage_def Let_def)

lemma ack_handled:
  assumes "encodable (ack_for c)" "ConstructPayload C (ack_for c) = Inr d" "chan_inv wt" "mapAck wt c = Some ch"
  shows "\<exists>wt1. verifyPayloadAndSendAckIfNeeded C handler wt d = Some (\<lparr>r_processed = None, r_ack = None\<rparr>, wt1) \<and>
      waitForAck wt1 ch ChanClosed = Some None \<and> mapAck wt1 c = None"
  using assms extract_constructed [OF assms(1,2)] constructed_nonempty [OF assms(1,2)]
  by (auto simp: verifyPayloadAndSendAckIfNeeded_def ack_for_def AckMessage_def handleAckMessage_def
      chan_inv_def waitForAck_def)

end

lemma ack_for_sized:
  assumes "WsMessage_sized m" "wm_Counter m = c" "wm_Type m = PayloadMessage"
  shows "WsMessage_sized (ack_for c)"
  using assms unfolding WsMessage_sized_def
  by (elim fits_int_mono)
     (simp add: WsMessage_enc_def ack_for_def WsMessage_zero_def AckMessage_def PayloadMessage_def
        bool_word_def varint_field_size_def enc_bytes_field_def bytes_of_string_def sov_def bits_Len64_def
        bit_len.simps)

lemma protoConverter_construct: "WsMessage_sized m \<Longrightarrow> ConstructPayload protoConverter m = Inr (WsMessage_enc m)"
  by (simp add: protoConverter_def WsMessage_Marshal_enc)

text \<open>
  C20. A message sent by a transceiver with acknowledges, in any state it can reach, is written to the connection and
  given to the payload handler of the receiver with its payload, its topic and the sender's payload version; the receiver answers with an
  acknowledge (unless its handler fails and it blocks acknowledges on errors), and when the sender
  receives it, the waiting call of \<^verbatim>\<open>Send\<close> returns without an error and the counter is not registered any more.
\<close>

theorem ws_send_acknowledged:
  assumes "NewTransceiver args = Inr wt0" "ack_reach wt0 s" "withAcknowledge (tr s)"
    and "WsMessage_sized (outgoing (tr s) (ws_counter (tr s) + 1) payload topic)"
    and "handler payload topic (payloadVersion (tr s)) = None \<or> \<not> blockingAckOnError B"
  shows "\<exists>d a ch wt1 wt2.
    (\<forall>e. ws_Send protoConverter (\<lambda>x. if x = d then None else Some e) (tr s) payload topic = (WaitsFor ch, wt1)) \<and>
    verifyPayloadAndSendAckIfNeeded protoConverter handler B d =
      Some (\<lparr>r_processed = Some (payload, topic, payloadVersion (tr s)), r_ack = Some a\<rparr>, B) \<and>
    verifyPayloadAndSendAckIfNeeded protoConverter handler' wt1 a =
      Some (\<lparr>r_processed = None, r_ack = None\<rparr>, wt2) \<and>
    waitForAck wt2 ch ChanClosed = Some None \<and> mapAck wt2 (ws_counter (tr s) + 1) = None"
proof -
  obtain ch c wt1 where p: "prepareChanAndCounter (tr s) = ((ch, c), wt1)" by (metis surj_pair)
  note f = prepare_fields [OF p]
  let ?m = "outgoing wt1 c payload topic"
  have m: "?m = outgoing (tr s) (ws_counter (tr s) + 1) payload topic"
    by (simp add: outgoing_def f(4,5,6,7))
  have inv: "chan_inv wt1"
    using ack_reach_inv [OF assms(2,1)] prepare_chan_inv(1) [OF _ p] by (simp add: ack_inv_def)
  have sized: "WsMessage_sized ?m" using assms(4) m by simp
  have asized: "WsMessage_sized (ack_for c)" using ack_for_sized [OF sized] by (simp add: outgoing_def)
  note con = protoConverter_construct [OF sized] and acon = protoConverter_construct [OF asized]
  have send: "ws_Send protoConverter (\<lambda>x. if x = WsMessage_enc ?m then None else Some e) (tr s) payload topic =
      (WaitsFor ch, wt1)" for e
    using assms(3) by (simp add: ws_Send_def p sendPayload_def con f(5))
  have ack: "ackPayload protoConverter ?m = Some (WsMessage_enc (ack_for c))"
    using acon assms(3) by (simp add: ackPayload_def outgoing_def ack_for_def f(5))
  have proc: "verifyPayloadAndSendAckIfNeeded protoConverter handler B (WsMessage_enc ?m) =
      Some (\<lparr>r_processed = Some (payload, topic, payloadVersion (tr s)), r_ack = Some (WsMessage_enc (ack_for c))\<rparr>, B)"
    using proto_ws.payload_processed [OF sized con, of handler B] assms(5) by (simp add: f(7) ack)
  obtain wt2 where "verifyPayloadAndSendAckIfNeeded protoConverter handler' wt1 (WsMessage_enc (ack_for c)) =
      Some (\<lparr>r_processed = None, r_ack = None\<rparr>, wt2)" "waitForAck wt2 ch ChanClosed = Some None" "mapAck wt2 c = None"
    using proto_ws.ack_handled [OF asized acon inv mapAck_prepared [OF assms(3) p]] by blast
  with send proc show ?thesis by (metis f(4,6))
qed

definition example_args :: ArgsTransceiver where
  "example_args = \<lparr>ta_hasPayloadConverter = True, ta_hasLog = True, ta_RetryDurationInSec = 1,
     ta_AckTimeoutInSec = 1, ta_BlockingAckOnError = True, ta_WithAcknowledge = True, ta_PayloadVersion = 1\<rparr>"

definition example_tr :: wsTransceiver where
  "example_tr = \<lparr>mapAck = Map.empty, ws_counter = 0, blockingAckOnError = True, withAcknowledge = True,
     payloadVersion = 1, nextCh = 0, closedCh = {}\<rparr>"

lemma example_tr_new: "NewTransceiver example_args = Inr example_tr"
  by (simp add: NewTransceiver_def transceiver_checkArgs_def example_args_def example_tr_def)

theorem ws_send_acknowledged_witness:
  "\<exists>d a ch wt1 wt2.
    (\<forall>e. ws_Send protoConverter (\<lambda>x. if x = d then None else Some e) example_tr [7] ''t'' = (WaitsFor ch, wt1)) \<and>
    verifyPayloadAndSendAckIfNeeded protoConverter (\<lambda>_ _ _. None) example_tr d =
      Some (\<lparr>r_processed = Some ([7], ''t'', 1), r_ack = Some a\<rparr>, example_tr) \<and>
    verifyPayloadAndSendAckIfNeeded protoConverter (\<lambda>_ _ _. None) wt1 a =
      Some (\<lparr>r_processed = None, r_ack = None\<rparr>, wt2) \<and>
    waitForAck wt2 ch ChanClosed = Some None \<and> mapAck wt2 1 = None"
proof -
  have "WsMessage_sized (outgoing example_tr 1 [7] ''t'')"
    by (simp add: WsMessage_sized_def fits_int_def outgoing_def example_tr_def WsMessage_enc_def
        enc_varint_field_def enc_bytes_field_def enc_nat.simps bool_word_def bytes_of_string_def PayloadMessage_def)
  then show ?thesis
    using ws_send_acknowledged [OF example_tr_new ack_init, of "[7]" "''t''" "\<lambda>_ _ _. None" example_tr "\<lambda>_ _ _. None"]
    by (simp add: example_tr_def)
qed

text \<open>
  C21. In every interleaving of sends, acknowledges, timeouts and closing: a call of \<^verbatim>\<open>Send\<close> of a transceiver with
  acknowledges that returned without an error did so after an acknowledge with its counter, and listening,
  whatever bytes and counters the other side sends, never closes a closed channel (which would panic).
\<close>

theorem ws_ack_safety:
  assumes "NewTransceiver args = Inr wt0" "ack_reach wt0 s"
  shows "(withAcknowledge (tr s) \<longrightarrow> (c, None) \<in> set (results s) \<longrightarrow> c \<in> set (acked s)) \<and>
    fst (Listen C handler closing (tr s) reads) \<noteq> Panicked"
  using ack_reach_inv [OF assms(2,1)] Listen_no_panic unfolding ack_inv_def by blast

text \<open>A run with one send, its acknowledge and its return.\<close>

definition example_acked :: ack_state where
  "example_acked = \<lparr>tr = example_tr\<lparr>ws_counter := 1, nextCh := 1, closedCh := {0}\<rparr>, prepared = {}, waiting = {},
     results = [(1, None)], acked = [1]\<rparr>"

lemma example_acked_reached: "ack_reach example_tr example_acked"
proof -
  define t1 where "t1 = example_tr\<lparr>ws_counter := 1, nextCh := 1, mapAck := [1 \<mapsto> 0]\<rparr>"
  have p: "prepareChanAndCounter example_tr = ((0, 1), t1)"
    by (simp add: prepareChanAndCounter_def example_tr_def t1_def)
  have sized: "WsMessage_sized (outgoing t1 1 [7] ''t'')"
    by (simp add: WsMessage_sized_def fits_int_def outgoing_def example_tr_def t1_def WsMessage_enc_def
        enc_varint_field_def enc_bytes_field_def enc_nat.simps bool_word_def bytes_of_string_def PayloadMessage_def)
  have w: "sendPayload protoConverter (\<lambda>_. None) t1 0 1 [7] ''t'' = WaitsFor 0"
    using protoConverter_construct [OF sized] by (simp add: sendPayload_def t1_def example_tr_def)
  have k: "handleAckMessage t1 1 = Some (t1\<lparr>closedCh := {0}, mapAck := Map.empty\<rparr>)"
    by (simp add: handleAckMessage_def t1_def example_tr_def)
  have "ack_reach example_tr \<lparr>tr = t1, prepared = {(0, 1)}, waiting = {}, results = [], acked = []\<rparr>"
    using ack_more [OF ack_init send_prepares [of "\<lparr>tr = example_tr, prepared = {}, waiting = {}, results = [], acked = []\<rparr>"]] p
    by simp
  from ack_more [OF this send_waits [of 0 1 _ protoConverter "\<lambda>_. None" "[7]" "''t''" 0]]
  have "ack_reach example_tr \<lparr>tr = t1, prepared = {}, waiting = {(0, 1)}, results = [], acked = []\<rparr>"
    using w by simp
  from ack_more [OF this ack_received [of _ 1 "t1\<lparr>closedCh := {0}, mapAck := Map.empty\<rparr>"]]
  have "ack_reach example_tr \<lparr>tr = t1\<lparr>closedCh := {0}, mapAck := Map.empty\<rparr>, prepared = {}, waiting = {(0, 1)},
      results = [], acked = [1]\<rparr>"
    using k by simp
  from ack_more [OF this wait_ends [of 0 1 _ ChanClosed None]]
  show ?thesis by (simp add: waitForAck_def example_acked_def t1_def example_tr_def)
qed

theorem ws_ack_safety_witness:
  "(1, None) \<in> set (results example_acked) \<and> (1::uint64) \<in> set (acked example_acked) \<and>
   fst (Listen protoConverter (\<lambda>_ _ _. None) False (tr example_acked) [Inr [16, 1, 24, 1]]) \<noteq> Panicked"
  using ws_ack_safety [OF example_tr_new example_acked_reached, of 1 protoConverter "\<lambda>_ _ _. None" False
      "[Inr [16, 1, 24, 1]]"] by (simp add: example_acked_def example_tr_def)

section \<open>Channels that are never removed\<close>

definition failed_sends :: "wsTransceiver \<Rightarrow> nat \<Rightarrow> ack_state \<Rightarrow> bool" where
  "failed_sends wt0 n s \<longleftrightarrow> ack_reach wt0 s \<and> prepared s = {} \<and> waiting s = {} \<and> withAcknowledge (tr s) \<and>
     ws_counter (tr s) = of_nat n \<and> dom (mapAck (tr s)) = of_nat ` {1..n} \<and> length (results s) = n"

lemma failed_send_more:
  assumes "failed_sends wt0 n s"
  shows "\<exists>s'. failed_sends wt0 (Suc n) s'"
proof -
  note h = assms [unfolded failed_sends_def]
  obtain ch c wt where p: "prepareChanAndCounter (tr s) = ((ch, c), wt)" by (metis surj_pair)
  note f = prepare_fields [OF p]
  let ?s = "s\<lparr>tr := wt, prepared := {(ch, c)}\<rparr>"
  have r1: "ack_reach wt0 ?s" using ack_more [of wt0 s, OF _ send_prepares [OF p]] h by simp
  obtain e where "sendPayload protoConverter (\<lambda>_. Some ErrConnectionNotOpen) (tr ?s) ch c [] [] = Returned e"
    by (cases "ConstructPayload protoConverter (outgoing wt c [] [])") (simp_all add: sendPayload_def)
  from ack_more [OF r1 send_returns [OF _ this]]
  have r2: "ack_reach wt0 (?s\<lparr>prepared := {}, results := results s @ [(c, e)]\<rparr>)" by simp
  have c: "c = of_nat (Suc n)" using h f(4,6) by simp
  have "dom (mapAck wt) = of_nat ` {1..Suc n}"
    unfolding f(8) using h c by (simp add: atLeastAtMostSuc_conv)
  then have "failed_sends wt0 (Suc n) (?s\<lparr>prepared := {}, results := results s @ [(c, e)]\<rparr>)"
    using r2 h f(4,5) c by (simp add: failed_sends_def)
  then show ?thesis by blast
qed

lemma failed_sends_exist:
  assumes "NewTransceiver args = Inr wt0" "ta_WithAcknowledge args"
  shows "\<exists>s. failed_sends wt0 n s"
proof (induction n)
  case 0
  have "failed_sends wt0 0 \<lparr>tr = wt0, prepared = {}, waiting = {}, results = [], acked = []\<rparr>"
    using assms(2) by (simp add: failed_sends_def ack_init NewTransceiver_fields [OF assms(1)])
  then show ?case by blast
next
  case (Suc n)
  then show ?case using failed_send_more by blast
qed

lemma card_counters: "n < 2 ^ 64 \<Longrightarrow> card ((of_nat :: nat \<Rightarrow> uint64) ` {1..n}) = n"
  by (subst card_image) (auto simp: inj_on_def word_of_nat_eq_iff take_bit_eq_mod)

text \<open>
  The channels of calls that failed are not removed from \<^verbatim>\<open>mapAck\<close>: for every \<open>n\<close> below the range of the
  counter, a transceiver with acknowledges can reach a state where \<open>n\<close> calls were made and all of them
  returned, no call is in flight, and \<^verbatim>\<open>mapAck\<close> holds \<open>n\<close> channels.
\<close>

theorem ws_mapAck_leak:
  assumes "NewTransceiver args = Inr wt0" "ta_WithAcknowledge args" "n < 2 ^ 64"
  shows "\<exists>s. ack_reach wt0 s \<and> prepared s = {} \<and> waiting s = {} \<and> length (results s) = n \<and>
    card (dom (mapAck (tr s))) = n"
  using failed_sends_exist [OF assms(1,2), of n] card_counters [OF assms(3)] by (auto simp: failed_sends_def)

theorem ws_mapAck_leak_witness:
  "\<exists>s. ack_reach example_tr s \<and> prepared s = {} \<and> waiting s = {} \<and> length (results s) = 1000 \<and>
    card (dom (mapAck (tr s))) = 1000"
  using ws_mapAck_leak [OF example_tr_new, of 1000] by (simp add: example_args_def)

end
