(* ===== verification/Ws_Host.thy ===== *)
theory Ws_Host
  imports Ws_Transceiver
begin

text \<open>
  The two ends of a websocket host: \<^verbatim>\<open>websocket/connection/wsConnClient.go\<close>, \<^verbatim>\<open>websocket/client/client.go\<close>,
  \<^verbatim>\<open>websocket/server/server.go\<close>, \<^verbatim>\<open>websocket/server/transceiversAndConnHolder.go\<close> and
  \<^verbatim>\<open>websocket/factory/factoryHost.go\<close>.

  The gorilla connection and its dialer, \<^verbatim>\<open>url.Parse\<close> and the ids of connections (printed pointers) are arguments. Go
  visits a map in any order; the order in which the server visits its clients is an argument as well. Durations
  are in seconds.
\<close>

section \<open>One connection\<close>

record 'c wsConnClient =
  wsc_conn :: "'c option"
  clientID :: string

definition NewWSConnClient :: "'c wsConnClient" where
  "NewWSConnClient = \<lparr>wsc_conn = None, clientID = []\<rparr>"

definition NewWSConnClientWithConn :: "string \<Rightarrow> 'c \<Rightarrow> 'c wsConnClient" where
  "NewWSConnClientWithConn ptr conn = \<lparr>wsc_conn = Some conn, clientID = ptr\<rparr>"

definition OpenConnection ::
    "(string \<Rightarrow> string + 'c) \<Rightarrow> 'c wsConnClient \<Rightarrow> string \<Rightarrow> ws_error option \<times> 'c wsConnClient" where
  "OpenConnection dial wsc url =
     (if wsc_conn wsc \<noteq> None then (Some ErrConnectionAlreadyOpen, wsc)
      else (case dial url of Inl e \<Rightarrow> (Some (WsErrOther e), wsc\<lparr>wsc_conn := None\<rparr>)
            | Inr conn \<Rightarrow> (None, wsc\<lparr>wsc_conn := Some conn\<rparr>)))"

definition getConn :: "'c wsConnClient \<Rightarrow> ws_error + 'c" where
  "getConn wsc = (case wsc_conn wsc of None \<Rightarrow> Inl ErrConnectionNotOpen | Some conn \<Rightarrow> Inr conn)"

definition ReadMessage :: "('c \<Rightarrow> string + bytes) \<Rightarrow> 'c wsConnClient \<Rightarrow> ws_error + bytes" where
  "ReadMessage read wsc =
     (case getConn wsc of Inl e \<Rightarrow> Inl e
      | Inr conn \<Rightarrow> (case read conn of Inl e \<Rightarrow> Inl (WsErrOther e) | Inr d \<Rightarrow> Inr d))"

definition WriteMessage :: "('c \<Rightarrow> bytes \<Rightarrow> string option) \<Rightarrow> 'c wsConnClient \<Rightarrow> bytes \<Rightarrow> ws_error option" where
  "WriteMessage write wsc payload =
     (case wsc_conn wsc of None \<Rightarrow> Some ErrConnectionNotOpen
      | Some conn \<Rightarrow> map_option WsErrOther (write conn payload))"

definition IsOpen :: "'c wsConnClient \<Rightarrow> bool" where
  "IsOpen wsc \<longleftrightarrow> wsc_conn wsc \<noteq> None"

text \<open>The failure to write the close message is only logged; a connection that cannot be closed stays.\<close>

definition wsc_Close :: "('c \<Rightarrow> string option) \<Rightarrow> 'c wsConnClient \<Rightarrow> ws_error option \<times> 'c wsConnClient" where
  "wsc_Close close wsc =
     (case wsc_conn wsc of None \<Rightarrow> (Some ErrConnectionNotOpen, wsc)
      | Some conn \<Rightarrow> (case close conn of Some e \<Rightarrow> (Some (WsErrOther e), wsc)
                     | None \<Rightarrow> (None, wsc\<lparr>wsc_conn := None\<rparr>)))"

lemma open_then_close:
  assumes "wsc_conn wsc = None" "dial url = Inr conn" "close conn = None"
  shows "wsc_Close close (snd (OpenConnection dial wsc url)) = (None, wsc)"
  using assms by (simp add: OpenConnection_def wsc_Close_def)

section \<open>A complete send\<close>

text \<open>
  \<^verbatim>\<open>transceiver.Send\<close> to its end: while it waits, the listening goroutine may handle the acknowledge of its counter;
  the event says how the \<^verbatim>\<open>select\<close> of \<^const>\<open>waitForAck\<close> ends.
\<close>

definition transceiver_Send ::
    "converter_ops \<Rightarrow> (bytes \<Rightarrow> ws_error option) \<Rightarrow> wait_event \<Rightarrow> wsTransceiver \<Rightarrow> bytes \<Rightarrow> string
     \<Rightarrow> (ws_error option \<times> wsTransceiver) option" where
  "transceiver_Send C write ev wt payload topic =
     (case ws_Send C write wt payload topic of
        (Returned r, wt1) \<Rightarrow> Some (r, wt1)
      | (WaitsFor ch, wt1) \<Rightarrow> do {
          wt2 \<leftarrow> (if ev = ChanClosed then handleAckMessage wt1 (ws_counter wt1) else Some wt1);
          r \<leftarrow> waitForAck wt2 ch ev;
          Some (r, wt2)
        })"

lemma handleAck_registered:
  assumes "chan_inv wt" "mapAck wt c = Some ch"
  shows "\<exists>wt1. handleAckMessage wt c = Some wt1 \<and> ch \<in> closedCh wt1 \<and> chan_inv wt1 \<and> ws_counter wt1 = ws_counter wt"
  using assms handleAck_chan_inv(1) [OF assms(1)]
  by (auto simp: handleAckMessage_def chan_inv_def split: if_splits)

lemma transceiver_Send_total:
  assumes "chan_inv wt"
  shows "\<exists>r wt1. transceiver_Send C write ev wt payload topic = Some (r, wt1) \<and> chan_inv wt1 \<and>
    ws_counter wt1 = ws_counter wt + 1"
proof -
  obtain ch c wt1 where p: "prepareChanAndCounter wt = ((ch, c), wt1)" by (metis surj_pair)
  have inv: "chan_inv wt1" using prepare_chan_inv(1) [OF assms p] .
  show ?thesis
  proof (cases "sendPayload C write wt1 ch c payload topic")
    case (Returned r)
    then show ?thesis using inv prepare_fields(6) [OF p] by (simp add: transceiver_Send_def ws_Send_def p)
  next
    case (WaitsFor ch')
    then have w: "ch' = ch" "mapAck wt1 (ws_counter wt1) = Some ch"
      using sendPayload_result(1) [OF WaitsFor] mapAck_prepared [OF _ p] prepare_fields(4,5) [OF p] by auto
    obtain wt2 where "handleAckMessage wt1 (ws_counter wt1) = Some wt2" "ch \<in> closedCh wt2" "chan_inv wt2"
      "ws_counter wt2 = ws_counter wt1"
      using handleAck_registered [OF inv w(2)] by blast
    then show ?thesis using WaitsFor w inv prepare_fields(6) [OF p]
      by (cases ev) (simp_all add: transceiver_Send_def ws_Send_def p waitForAck_def)
  qed
qed

section \<open>The client\<close>

record ArgsWebSocketClient =
  ca_RetryDurationInSeconds :: int
  ca_AckTimeoutInSeconds :: int
  ca_WithAcknowledge :: bool
  ca_BlockingAckOnError :: bool
  ca_DropMessagesIfNoConnection :: bool
  ca_URL :: string
  ca_hasPayloadConverter :: bool
  ca_hasLog :: bool
  ca_PayloadVersion :: uint32

record 'c client =
  cl_url :: string
  cl_retryDuration :: int
  cl_closed :: bool
  cl_transceiverClosed :: bool
  cl_wsConn :: "'c wsConnClient"
  cl_transceiver :: wsTransceiver
  cl_dropMessagesIfNoConnection :: bool

definition client_checkArgs :: "ArgsWebSocketClient \<Rightarrow> ws_error option" where
  "client_checkArgs args =
     (if \<not> ca_hasLog args then Some WsErrNilLogger
      else if \<not> ca_hasPayloadConverter args then Some ErrNilPayloadConverter
      else if ca_URL args = [] then Some ErrEmptyUrl
      else if ca_RetryDurationInSeconds args = 0 then Some ErrZeroValueRetryDuration
      else None)"

text \<open>
  \<open>parse\<close> is \<^verbatim>\<open>url.Parse\<close>: the scheme, and the text of the url once its path is set.
\<close>

definition NewWebSocketClient ::
    "(string \<Rightarrow> string + (string \<times> (string \<Rightarrow> string))) \<Rightarrow> ArgsWebSocketClient \<Rightarrow> ws_error + 'c client" where
  "NewWebSocketClient parse args =
     (case client_checkArgs args of Some e \<Rightarrow> Inl e
      | None \<Rightarrow>
        (case NewTransceiver \<lparr>ta_hasPayloadConverter = ca_hasPayloadConverter args, ta_hasLog = ca_hasLog args,
             ta_RetryDurationInSec = ca_RetryDurationInSeconds args, ta_AckTimeoutInSec = ca_AckTimeoutInSeconds args,
             ta_BlockingAckOnError = ca_BlockingAckOnError args, ta_WithAcknowledge = ca_WithAcknowledge args,
             ta_PayloadVersion = ca_PayloadVersion args\<rparr> of
           Inl e \<Rightarrow> Inl e
         | Inr wt \<Rightarrow>
           (case parse (ca_URL args) of Inl e \<Rightarrow> Inl (WsErrOther e)
            | Inr (scheme, withPath) \<Rightarrow>
              if scheme \<noteq> ''ws'' \<and> scheme \<noteq> ''wss'' then Inl (WsErrOther ''invalid WebSocket URL'')
              else Inr \<lparr>cl_url = withPath ''/save'', cl_retryDuration = ca_RetryDurationInSeconds args,
                cl_closed = False, cl_transceiverClosed = False, cl_wsConn = NewWSConnClient, cl_transceiver = wt,
                cl_dropMessagesIfNoConnection = ca_DropMessagesIfNoConnection args\<rparr>)))"

text \<open>One turn of each of the two goroutines of \<^verbatim>\<open>start\<close>.\<close>

definition openTurn :: "(string \<Rightarrow> string + 'c) \<Rightarrow> 'c client \<Rightarrow> 'c client" where
  "openTurn dial c = c\<lparr>cl_wsConn := snd (OpenConnection dial (cl_wsConn c) (cl_url c))\<rparr>"

definition listenTurn ::
    "converter_ops \<Rightarrow> (bytes \<Rightarrow> string \<Rightarrow> uint32 \<Rightarrow> string option) \<Rightarrow> ('c \<Rightarrow> string option) \<Rightarrow> (string + bytes) list
     \<Rightarrow> 'c client \<Rightarrow> received list \<times> 'c client" where
  "listenTurn C handler close reads c =
     (case Listen C handler (cl_transceiverClosed c) (cl_transceiver c)
        (if IsOpen (cl_wsConn c) then reads else [Inl ''connection not open'']) of
        (l, rs, wt) \<Rightarrow>
          (rs, c\<lparr>cl_transceiver := wt,
             cl_wsConn := (if l = Ended True then snd (wsc_Close close (cl_wsConn c)) else cl_wsConn c)\<rparr>))"

definition client_Send ::
    "converter_ops \<Rightarrow> ('c \<Rightarrow> bytes \<Rightarrow> string option) \<Rightarrow> wait_event \<Rightarrow> 'c client \<Rightarrow> bytes \<Rightarrow> string
     \<Rightarrow> (ws_error option \<times> 'c client) option" where
  "client_Send C write ev c payload topic =
     (let dropMessage = cl_dropMessagesIfNoConnection c \<and> \<not> IsOpen (cl_wsConn c)
      in if dropMessage then Some (None, c)
         else do {
           (r, wt) \<leftarrow> transceiver_Send C (WriteMessage write (cl_wsConn c)) ev (cl_transceiver c) payload topic;
           Some (r, c\<lparr>cl_transceiver := wt\<rparr>)
         })"

text \<open>
  \<open>handlerClose\<close> is what the payload handler answers when \<^verbatim>\<open>transceiver.Close\<close> closes it. The closer of the client is
  deferred: it is closed last.
\<close>

definition closeConnection ::
    "string option \<Rightarrow> ('c \<Rightarrow> string option) \<Rightarrow> 'c client \<Rightarrow> ws_error option \<times> 'c client" where
  "closeConnection handlerClose close c =
     (let lastErr = map_option WsErrOther handlerClose in
      case wsc_Close close (cl_wsConn c) of (err, conn) \<Rightarrow>
        (if err \<noteq> None then err else lastErr, c\<lparr>cl_wsConn := conn, cl_transceiverClosed := True\<rparr>))"

definition client_Close :: "string option \<Rightarrow> ('c \<Rightarrow> string option) \<Rightarrow> 'c client \<Rightarrow> ws_error option \<times> 'c client" where
  "client_Close handlerClose close c =
     (case closeConnection handlerClose close c of (err, c1) \<Rightarrow> (err, c1\<lparr>cl_closed := True\<rparr>))"

text \<open>
  A client whose connection breaks gets a new one: the turn of the listener whose read fails closes the connection,
  and the next turn of the opener opens it again.
\<close>

lemma client_reconnects:
  assumes "\<not> cl_transceiverClosed c" "wsc_conn (cl_wsConn c) = Some conn" "close conn = None"
    and "dial (cl_url c) = Inr conn'"
  shows "IsOpen (cl_wsConn (openTurn dial (snd (listenTurn C handler close (Inl err # reads) c)))) \<and>
    \<not> IsOpen (cl_wsConn (snd (listenTurn C handler close (Inl err # reads) c)))"
  using assms by (simp add: openTurn_def listenTurn_def IsOpen_def wsc_Close_def OpenConnection_def)

text \<open>
  The goroutines of a client and one call of \<^verbatim>\<open>Close\<close>: the opener runs while the closer of the client is open, the
  listener until its last read returns.
\<close>

inductive client_step :: "(string \<Rightarrow> string + 'c) \<Rightarrow> ('c \<Rightarrow> string option) \<Rightarrow> 'c client \<Rightarrow> 'c client \<Rightarrow> bool"
  for dial :: "string \<Rightarrow> string + 'c" and close :: "'c \<Rightarrow> string option" where
  opener: "\<not> cl_closed c \<Longrightarrow> client_step dial close c (openTurn dial c)"
| listener: "client_step dial close c (snd (listenTurn C handler close reads c))"
| close_connection: "\<not> cl_transceiverClosed c \<Longrightarrow>
    client_step dial close c (snd (closeConnection handlerClose close c))"
| close_closer: "cl_transceiverClosed c \<Longrightarrow> client_step dial close c (c\<lparr>cl_closed := True\<rparr>)"

definition abandoned :: "'c client \<Rightarrow> bool" where
  "abandoned c \<longleftrightarrow> cl_closed c \<and> cl_transceiverClosed c \<and> IsOpen (cl_wsConn c)"

lemma Listen_closing: "fst (Listen C handler True wt reads) \<noteq> Ended True"
proof (induction reads arbitrary: wt)
  case (Cons r reads)
  show ?case
  proof (cases r)
    case (Inr m)
    show ?thesis using Cons Inr
      by (cases "verifyPayloadAndSendAckIfNeeded C handler wt m") (auto split: prod.splits, metis fst_conv)
  qed simp
qed simp

lemma listenTurn_closing:
  "cl_transceiverClosed c \<Longrightarrow> cl_wsConn (snd (listenTurn C handler close reads c)) = cl_wsConn c"
  using Listen_closing [of C handler "cl_transceiver c"]
  by (auto simp: listenTurn_def split: prod.splits) (metis fst_conv)+

lemma listenTurn_flags [simp]:
  "cl_closed (snd (listenTurn C handler close reads c)) = cl_closed c"
  "cl_transceiverClosed (snd (listenTurn C handler close reads c)) = cl_transceiverClosed c"
  by (simp_all add: listenTurn_def split: prod.splits)

lemma abandoned_step: "client_step dial close c c' \<Longrightarrow> abandoned c \<Longrightarrow> abandoned c'"
  by (induction rule: client_step.induct) (simp_all add: abandoned_def listenTurn_closing)

lemma abandoned_steps: "(client_step dial close)\<^sup>*\<^sup>* c c' \<Longrightarrow> abandoned c \<Longrightarrow> abandoned c'"
  by (induction rule: rtranclp_induct) (auto intro: abandoned_step)

text \<open>
  Closing a client can leave its connection open for good: \<^verbatim>\<open>Close\<close> closes the connection first and tells the opening
  goroutine to stop only when it returns, so a turn of the opener in between opens the connection again;
  from then on no goroutine closes it. (Here \<^verbatim>\<open>Close\<close> reports no error.)
\<close>

theorem client_close_race:
  assumes "\<not> cl_closed c" "\<not> cl_transceiverClosed c" "wsc_conn (cl_wsConn c) = Some conn"
    and "close conn = None" "dial (cl_url c) = Inr conn'"
  shows "\<exists>c1 c2. closeConnection None close c = (None, c1) \<and> client_step dial close c c1 \<and>
    (client_step dial close)\<^sup>*\<^sup>* c1 c2 \<and> cl_closed c2 \<and>
    {c3. (client_step dial close)\<^sup>*\<^sup>* c2 c3} \<subseteq> {c3. IsOpen (cl_wsConn c3)}"
proof -
  define c1 where "c1 = c\<lparr>cl_wsConn := (cl_wsConn c)\<lparr>wsc_conn := None\<rparr>, cl_transceiverClosed := True\<rparr>"
  define c2 where "c2 = (openTurn dial c1)\<lparr>cl_closed := True\<rparr>"
  have one: "closeConnection None close c = (None, c1)"
    using assms(3,4) by (simp add: closeConnection_def wsc_Close_def c1_def)
  have "client_step dial close c c1" using close_connection [OF assms(2), of dial close None] one by simp
  moreover have "client_step dial close c1 (openTurn dial c1)" by (rule opener) (simp add: assms(1) c1_def)
  then have "(client_step dial close)\<^sup>*\<^sup>* c1 c2"
  proof (rule converse_rtranclp_into_rtranclp, intro r_into_rtranclp)
    show "client_step dial close (openTurn dial c1) c2"
      unfolding c2_def by (rule close_closer) (simp add: c1_def openTurn_def)
  qed
  moreover have "abandoned c2"
    using assms(5) by (simp add: abandoned_def c2_def c1_def openTurn_def OpenConnection_def IsOpen_def)
  then have "cl_closed c2" "{c3. (client_step dial close)\<^sup>*\<^sup>* c2 c3} \<subseteq> {c3. IsOpen (cl_wsConn c3)}"
    using abandoned_steps [of dial close c2] by (auto simp: abandoned_def)
  ultimately show ?thesis using one by blast
qed

definition example_client :: "nat client" where
  "example_client = \<lparr>cl_url = ''ws://a/save'', cl_retryDuration = 1, cl_closed = False, cl_transceiverClosed = False,
     cl_wsConn = \<lparr>wsc_conn = Some 1, clientID = []\<rparr>, cl_transceiver = example_tr,
     cl_dropMessagesIfNoConnection = False\<rparr>"

theorem client_close_race_witness:
  "\<exists>c1 c2. closeConnection None (\<lambda>_. None) example_client = (None, c1) \<and>
    client_step (\<lambda>_. Inr 2) (\<lambda>_. None) example_client c1 \<and>
    (client_step (\<lambda>_. Inr 2) (\<lambda>_. None))\<^sup>*\<^sup>* c1 c2 \<and> cl_closed c2 \<and>
    {c3. (client_step (\<lambda>_. Inr 2) (\<lambda>_. None))\<^sup>*\<^sup>* c2 c3} \<subseteq> {c3. IsOpen (cl_wsConn c3)}"
  by (rule client_close_race [where conn = 1 and conn' = 2]) (simp_all add: example_client_def)

section \<open>The server\<close>

record 'c tupleTransceiverAndConn =
  tc_transceiver :: wsTransceiver
  tc_conn :: "'c wsConnClient"

type_synonym 'c transceiversAndConnHolder = "string \<rightharpoonup> 'c tupleTransceiverAndConn"

definition addTransceiverAndConn ::
    "'c transceiversAndConnHolder \<Rightarrow> wsTransceiver \<Rightarrow> 'c wsConnClient \<Rightarrow> 'c transceiversAndConnHolder" where
  "addTransceiverAndConn th wt conn = th(clientID conn \<mapsto> \<lparr>tc_transceiver = wt, tc_conn = conn\<rparr>)"

definition th_remove :: "'c transceiversAndConnHolder \<Rightarrow> string \<Rightarrow> 'c transceiversAndConnHolder" where
  "th_remove th i = th(i := None)"

record ArgsWebSocketServer =
  sa_RetryDurationInSeconds :: int
  sa_AckTimeoutInSeconds :: int
  sa_BlockingAckOnError :: bool
  sa_WithAcknowledge :: bool
  sa_DropMessagesIfNoConnection :: bool
  sa_URL :: string
  sa_hasPayloadConverter :: bool
  sa_hasLog :: bool
  sa_PayloadVersion :: uint32

record 'c server =
  sv_blockingAckOnError :: bool
  sv_withAcknowledge :: bool
  sv_dropMessagesIfNoConnection :: bool
  sv_ackTimeoutInSec :: int
  sv_retryDuration :: int
  sv_transceiversAndConn :: "'c transceiversAndConnHolder"
  sv_payloadVersion :: uint32

definition server_checkArgs :: "ArgsWebSocketServer \<Rightarrow> ws_error option" where
  "server_checkArgs args =
     (if \<not> sa_hasLog args then Some WsErrNilLogger
      else if \<not> sa_hasPayloadConverter args then Some ErrNilPayloadConverter
      else if sa_URL args = [] then Some ErrEmptyUrl
      else if sa_RetryDurationInSeconds args = 0 then Some ErrZeroValueRetryDuration
      else None)"

definition NewWebSocketServer :: "ArgsWebSocketServer \<Rightarrow> ws_error + 'c server" where
  "NewWebSocketServer args =
     (case server_checkArgs args of Some e \<Rightarrow> Inl e
      | None \<Rightarrow> Inr \<lparr>sv_blockingAckOnError = sa_BlockingAckOnError args, sv_withAcknowledge = sa_WithAcknowledge args,
          sv_dropMessagesIfNoConnection = sa_DropMessagesIfNoConnection args,
          sv_ackTimeoutInSec = sa_AckTimeoutInSeconds args, sv_retryDuration = sa_RetryDurationInSeconds args,
          sv_transceiversAndConn = Map.empty, sv_payloadVersion = sa_PayloadVersion args\<rparr>)"

text \<open>
  \<^verbatim>\<open>connectionHandler\<close> up to the blocking \<^verbatim>\<open>Listen\<close>; the failure to make a transceiver is only logged. When
  \<^verbatim>\<open>Listen\<close> returns, the connection is removed (\<^const>\<open>th_remove\<close>).
\<close>

definition connectionHandler :: "'c server \<Rightarrow> 'c wsConnClient \<Rightarrow> 'c server" where
  "connectionHandler s connection =
     (case NewTransceiver \<lparr>ta_hasPayloadConverter = True, ta_hasLog = True,
          ta_RetryDurationInSec = sv_retryDuration s, ta_AckTimeoutInSec = sv_ackTimeoutInSec s,
          ta_BlockingAckOnError = sv_blockingAckOnError s, ta_WithAcknowledge = sv_withAcknowledge s,
          ta_PayloadVersion = sv_payloadVersion s\<rparr> of
        Inl _ \<Rightarrow> s
      | Inr wt \<Rightarrow> s\<lparr>sv_transceiversAndConn := addTransceiverAndConn (sv_transceiversAndConn s) wt connection\<rparr>)"

definition connectionEnded :: "'c server \<Rightarrow> 'c wsConnClient \<Rightarrow> 'c server" where
  "connectionEnded s connection =
     s\<lparr>sv_transceiversAndConn := th_remove (sv_transceiversAndConn s) (clientID connection)\<rparr>"

text \<open>The loop of \<^verbatim>\<open>Send\<close> over the clients; the error of one of them is only logged.\<close>

fun sendAll ::
    "converter_ops \<Rightarrow> ('c \<Rightarrow> bytes \<Rightarrow> string option) \<Rightarrow> (string \<Rightarrow> wait_event) \<Rightarrow> bytes \<Rightarrow> string \<Rightarrow> string list
     \<Rightarrow> 'c transceiversAndConnHolder \<Rightarrow> 'c transceiversAndConnHolder option" where
  "sendAll C write ev payload topic [] th = Some th"
| "sendAll C write ev payload topic (i # order) th =
     (case th i of None \<Rightarrow> sendAll C write ev payload topic order th
      | Some t \<Rightarrow> do {
          (err, wt) \<leftarrow> transceiver_Send C (WriteMessage write (tc_conn t)) (ev i) (tc_transceiver t) payload topic;
          sendAll C write ev payload topic order (th(i \<mapsto> t\<lparr>tc_transceiver := wt\<rparr>))
        })"

definition server_Send ::
    "converter_ops \<Rightarrow> ('c \<Rightarrow> bytes \<Rightarrow> string option) \<Rightarrow> (string \<Rightarrow> wait_event) \<Rightarrow> string list \<Rightarrow> 'c server \<Rightarrow> bytes \<Rightarrow> string
     \<Rightarrow> (ws_error option \<times> 'c server) option" where
  "server_Send C write ev order s payload topic =
     (let noClients = (length order = 0)
      in if noClients \<and> \<not> sv_dropMessagesIfNoConnection s then Some (Some ErrNoClientsConnected, s)
         else do {
           th \<leftarrow> sendAll C write ev payload topic order (sv_transceiversAndConn s);
           Some (None, s\<lparr>sv_transceiversAndConn := th\<rparr>)
         })"

text \<open>\<^verbatim>\<open>Close\<close>: what shutting the http server down and closing the payload handlers answer are arguments.\<close>

fun closeAll ::
    "(string \<Rightarrow> string option) \<Rightarrow> ('c \<Rightarrow> string option) \<Rightarrow> string list \<Rightarrow> ws_error option
     \<Rightarrow> 'c transceiversAndConnHolder \<Rightarrow> ws_error option \<times> 'c transceiversAndConnHolder" where
  "closeAll handlerClose close [] lastError th = (lastError, th)"
| "closeAll handlerClose close (i # order) lastError th =
     (case th i of None \<Rightarrow> closeAll handlerClose close order lastError th
      | Some t \<Rightarrow>
        let e1 = (case handlerClose i of None \<Rightarrow> lastError | Some e \<Rightarrow> Some (WsErrOther e))
        in (case wsc_Close close (tc_conn t) of (err, conn) \<Rightarrow>
              closeAll handlerClose close order (if err = None then e1 else err) (th(i \<mapsto> t\<lparr>tc_conn := conn\<rparr>))))"

definition server_Close ::
    "string option \<Rightarrow> (string \<Rightarrow> string option) \<Rightarrow> ('c \<Rightarrow> string option) \<Rightarrow> string list \<Rightarrow> 'c server
     \<Rightarrow> ws_error option \<times> 'c server" where
  "server_Close shutdown handlerClose close order s =
     (case closeAll handlerClose close order (map_option WsErrOther shutdown) (sv_transceiversAndConn s) of
        (err, th) \<Rightarrow> (err, s\<lparr>sv_transceiversAndConn := th\<rparr>))"

text \<open>The invariant of the server: the acknowledge channels of every client are as their transceiver left them.\<close>

definition clients_inv :: "'c transceiversAndConnHolder \<Rightarrow> bool" where
  "clients_inv th \<longleftrightarrow> (\<forall>i t. th i = Some t \<longrightarrow> chan_inv (tc_transceiver t) \<and> clientID (tc_conn t) = i)"

lemma NewTransceiver_chan_inv: "NewTransceiver args = Inr wt \<Longrightarrow> chan_inv wt"
  by (simp add: chan_inv_def NewTransceiver_fields)

lemma connectionHandler_inv:
  "clients_inv (sv_transceiversAndConn s) \<Longrightarrow> clients_inv (sv_transceiversAndConn (connectionHandler s conn))"
  by (auto simp: connectionHandler_def clients_inv_def addTransceiverAndConn_def NewTransceiver_chan_inv split: sum.split)

lemma connectionEnded_inv:
  "clients_inv (sv_transceiversAndConn s) \<Longrightarrow> clients_inv (sv_transceiversAndConn (connectionEnded s conn))"
  by (simp add: connectionEnded_def clients_inv_def th_remove_def)

text \<open>What the loop leaves of each client: the transceiver after its own send, whatever the other sends did.\<close>

definition client_sent ::
    "converter_ops \<Rightarrow> ('c \<Rightarrow> bytes \<Rightarrow> string option) \<Rightarrow> (string \<Rightarrow> wait_event) \<Rightarrow> bytes \<Rightarrow> string
     \<Rightarrow> 'c transceiversAndConnHolder \<Rightarrow> string \<Rightarrow> 'c tupleTransceiverAndConn option" where
  "client_sent C write ev payload topic th i =
     (case th i of None \<Rightarrow> None
      | Some t \<Rightarrow> map_option (\<lambda>(err, wt). t\<lparr>tc_transceiver := wt\<rparr>)
          (transceiver_Send C (WriteMessage write (tc_conn t)) (ev i) (tc_transceiver t) payload topic))"

lemma sendAll_each:
  assumes "distinct order" "clients_inv th"
  shows "\<exists>th1. sendAll C write ev payload topic order th = Some th1 \<and> clients_inv th1 \<and>
    (\<forall>i. th1 i = (if i \<in> set order then client_sent C write ev payload topic th i else th i))"
  using assms
proof (induction order arbitrary: th)
  case (Cons i order)
  show ?case
  proof (cases "th i")
    case None
    then have "client_sent C write ev payload topic th i = None" by (simp add: client_sent_def)
    moreover obtain th1 where "sendAll C write ev payload topic order th = Some th1" "clients_inv th1"
      "\<And>j. th1 j = (if j \<in> set order then client_sent C write ev payload topic th j else th j)"
      using Cons by fastforce
    ultimately show ?thesis using None Cons(2) by auto
  next
    case (Some t)
    then have "chan_inv (tc_transceiver t)" "clientID (tc_conn t) = i" using Cons(3) by (auto simp: clients_inv_def)
    then obtain r wt where w: "transceiver_Send C (WriteMessage write (tc_conn t)) (ev i) (tc_transceiver t) payload topic =
        Some (r, wt)" "chan_inv wt"
      using transceiver_Send_total by blast
    let ?th = "th(i \<mapsto> t\<lparr>tc_transceiver := wt\<rparr>)"
    have "clients_inv ?th" using Cons(3) w(2) Some by (auto simp: clients_inv_def)
    with Cons obtain th1 where "sendAll C write ev payload topic order ?th = Some th1" "clients_inv th1"
      "\<And>j. th1 j = (if j \<in> set order then client_sent C write ev payload topic ?th j else ?th j)" by fastforce
    moreover have "client_sent C write ev payload topic ?th j = client_sent C write ev payload topic th j"
      if "j \<in> set order" for j
      using that Cons(2) by (auto simp: client_sent_def)
    ultimately show ?thesis using Some w(1) Cons(2) by (auto simp: client_sent_def)
  qed
qed simp

text \<open>
  \<^verbatim>\<open>Send\<close> of the server, for the clients it has in whatever order they are visited, always returns; it fails only when
  there is no client and messages are not dropped, and then changes nothing; otherwise each client's transceiver
  is as after its own send of the payload, whether the sends to the other clients failed or not, no client
  is added or removed, and the invariant holds again.
\<close>

theorem server_send_each:
  assumes "distinct order" "set order = dom (sv_transceiversAndConn s)" "clients_inv (sv_transceiversAndConn s)"
  shows "\<exists>r s1. server_Send C write ev order s payload topic = Some (r, s1) \<and>
    (r = Some ErrNoClientsConnected \<and> order = [] \<and> \<not> sv_dropMessagesIfNoConnection s \<and> s1 = s \<or>
     r = None \<and> (order \<noteq> [] \<or> sv_dropMessagesIfNoConnection s) \<and>
     s1 = s\<lparr>sv_transceiversAndConn := client_sent C write ev payload topic (sv_transceiversAndConn s)\<rparr> \<and>
     dom (sv_transceiversAndConn s1) = dom (sv_transceiversAndConn s) \<and> clients_inv (sv_transceiversAndConn s1))"
proof -
  let ?th = "sv_transceiversAndConn s"
  obtain th1 where th1: "sendAll C write ev payload topic order ?th = Some th1" "clients_inv th1"
    "\<And>i. th1 i = (if i \<in> set order then client_sent C write ev payload topic ?th i else ?th i)"
    using sendAll_each [OF assms(1,3), of C "write" ev payload topic] by blast
  have eq: "th1 = client_sent C write ev payload topic ?th"
  proof
    fix i show "th1 i = client_sent C write ev payload topic ?th i"
      using th1(3) [of i] assms(2) by (auto simp: client_sent_def domIff)
  qed
  have "i \<in> dom th1 \<longleftrightarrow> i \<in> dom ?th" for i
    using transceiver_Send_total [of _ C _ "ev i" payload topic] assms(3)
    unfolding eq client_sent_def clients_inv_def dom_def
    by (cases "?th i") (fastforce split: option.splits)+
  then show ?thesis using th1(1,2) eq by (auto simp: server_Send_def)
qed

definition example_server :: "nat server" where
  "example_server = \<lparr>sv_blockingAckOnError = False, sv_withAcknowledge = True, sv_dropMessagesIfNoConnection = False,
     sv_ackTimeoutInSec = 1, sv_retryDuration = 1,
     sv_transceiversAndConn = [''a'' \<mapsto> \<lparr>tc_transceiver = example_tr, tc_conn = \<lparr>wsc_conn = None, clientID = ''a''\<rparr>\<rparr>,
       ''b'' \<mapsto> \<lparr>tc_transceiver = example_tr, tc_conn = \<lparr>wsc_conn = Some 1, clientID = ''b''\<rparr>\<rparr>],
     sv_payloadVersion = 1\<rparr>"

theorem server_send_each_witness:
  "\<exists>r s1. server_Send protoConverter (\<lambda>_ _. None) (\<lambda>_. ChanClosed) [''b'', ''a''] example_server [1] ''t'' = Some (r, s1) \<and>
    r = None \<and>
    s1 = example_server\<lparr>sv_transceiversAndConn := client_sent protoConverter (\<lambda>_ _. None) (\<lambda>_. ChanClosed) [1] ''t''
      (sv_transceiversAndConn example_server)\<rparr> \<and>
    dom (sv_transceiversAndConn s1) = {''a'', ''b''} \<and> clients_inv (sv_transceiversAndConn s1)"
proof -
  have "chan_inv example_tr" by (simp add: chan_inv_def example_tr_def)
  then have "clients_inv (sv_transceiversAndConn example_server)" by (simp add: clients_inv_def example_server_def)
  moreover have "dom (sv_transceiversAndConn example_server) = {''a'', ''b''}" by (auto simp: example_server_def)
  ultimately show ?thesis
    using server_send_each [of "[''b'', ''a'']" example_server protoConverter "\<lambda>_ _. None" "\<lambda>_. ChanClosed" "[1]" "''t''"]
    by auto
qed

section \<open>The factory\<close>

record WebSocketConfig =
  wc_URL :: string
  wc_Mode :: string
  wc_RetryDurationInSec :: int
  wc_WithAcknowledge :: bool
  wc_AcknowledgeTimeoutInSec :: int
  wc_BlockingAckOnError :: bool
  wc_DropMessagesIfNoConnection :: bool
  wc_Version :: uint32

record ArgsWebSocketHost =
  ha_WebSocketConfig :: WebSocketConfig
  ha_hasMarshaller :: bool
  ha_hasLog :: bool

datatype 'c FullDuplexHost = ServerHost "'c server" | ClientHost "'c client"

definition createWebSocketClient ::
    "(string \<Rightarrow> string + (string \<times> (string \<Rightarrow> string))) \<Rightarrow> ArgsWebSocketHost \<Rightarrow> ws_error + 'c FullDuplexHost" where
  "createWebSocketClient parse args =
     (let cfg = ha_WebSocketConfig args in
      if \<not> ha_hasMarshaller args then Inl WsErrNilMarshaller
      else map_sum id ClientHost (NewWebSocketClient parse
        \<lparr>ca_RetryDurationInSeconds = wc_RetryDurationInSec cfg, ca_AckTimeoutInSeconds = wc_AcknowledgeTimeoutInSec cfg,
         ca_WithAcknowledge = wc_WithAcknowledge cfg, ca_BlockingAckOnError = wc_BlockingAckOnError cfg,
         ca_DropMessagesIfNoConnection = wc_DropMessagesIfNoConnection cfg, ca_URL = wc_URL cfg,
         ca_hasPayloadConverter = True, ca_hasLog = ha_hasLog args, ca_PayloadVersion = wc_Version cfg\<rparr>))"

definition createWebSocketServer :: "ArgsWebSocketHost \<Rightarrow> ws_error + 'c FullDuplexHost" where
  "createWebSocketServer args =
     (let cfg = ha_WebSocketConfig args in
      if \<not> ha_hasMarshaller args then Inl WsErrNilMarshaller
      else map_sum id ServerHost (NewWebSocketServer
        \<lparr>sa_RetryDurationInSeconds = wc_RetryDurationInSec cfg, sa_AckTimeoutInSeconds = wc_AcknowledgeTimeoutInSec cfg,
         sa_BlockingAckOnError = wc_BlockingAckOnError cfg, sa_WithAcknowledge = wc_WithAcknowledge cfg,
         sa_DropMessagesIfNoConnection = wc_DropMessagesIfNoConnection cfg, sa_URL = wc_URL cfg,
         sa_hasPayloadConverter = True, sa_hasLog = ha_hasLog args, sa_PayloadVersion = wc_Version cfg\<rparr>))"

definition CreateWebSocketHost ::
    "(string \<Rightarrow> string + (string \<times> (string \<Rightarrow> string))) \<Rightarrow> ArgsWebSocketHost \<Rightarrow> ws_error + 'c FullDuplexHost" where
  "CreateWebSocketHost parse args =
     (let mode = wc_Mode (ha_WebSocketConfig args) in
      if mode = ''server'' then createWebSocketServer args
      else if mode = ''client'' then createWebSocketClient parse args
      else Inl ErrInvalidWebSocketHostMode)"

lemma connectionHandler_refuses:
  "sv_withAcknowledge s \<Longrightarrow> sv_ackTimeoutInSec s = 0 \<Longrightarrow> connectionHandler s conn = s"
  by (simp add: connectionHandler_def NewTransceiver_def transceiver_checkArgs_def)

lemma connectionHandlers_refuse:
  "sv_withAcknowledge s \<Longrightarrow> sv_ackTimeoutInSec s = 0 \<Longrightarrow> foldl connectionHandler s conns = s"
  by (induction conns) (simp_all add: connectionHandler_refuses)

text \<open>
  A configuration with acknowledges and an acknowledge timeout of zero is refused for a client and accepted for a
  server; the server it gives never registers a connection, whoever connects, so that no message is ever
  sent: every \<^verbatim>\<open>Send\<close> fails for the lack of clients, or drops the message.
\<close>

theorem server_zero_ack_timeout:
  assumes "ha_hasMarshaller args" "ha_hasLog args" "wc_WithAcknowledge (ha_WebSocketConfig args)"
    and "wc_AcknowledgeTimeoutInSec (ha_WebSocketConfig args) = 0" "wc_URL (ha_WebSocketConfig args) \<noteq> []"
    and "wc_RetryDurationInSec (ha_WebSocketConfig args) \<noteq> 0"
  shows "createWebSocketClient parse args = Inl ErrZeroValueAckTimeout \<and>
    (\<exists>s :: 'c server. createWebSocketServer args = Inr (ServerHost s) \<and>
      (\<forall>conns. let s1 = foldl connectionHandler s conns in
         dom (sv_transceiversAndConn s1) = {} \<and>
         server_Send C write ev [] s1 payload topic =
           Some (if sv_dropMessagesIfNoConnection s then None else Some ErrNoClientsConnected, s1)))"
proof -
  let ?cfg = "ha_WebSocketConfig args"
  define s :: "'c server" where "s = \<lparr>sv_blockingAckOnError = wc_BlockingAckOnError ?cfg, sv_withAcknowledge = wc_WithAcknowledge ?cfg,
    sv_dropMessagesIfNoConnection = wc_DropMessagesIfNoConnection ?cfg,
    sv_ackTimeoutInSec = wc_AcknowledgeTimeoutInSec ?cfg, sv_retryDuration = wc_RetryDurationInSec ?cfg,
    sv_transceiversAndConn = Map.empty, sv_payloadVersion = wc_Version ?cfg\<rparr>"
  have "createWebSocketServer args = Inr (ServerHost s)"
    using assms by (simp add: createWebSocketServer_def Let_def NewWebSocketServer_def server_checkArgs_def s_def)
  moreover have "foldl connectionHandler s conns = s" for conns
    by (rule connectionHandlers_refuse) (simp_all add: s_def assms)
  moreover have "dom (sv_transceiversAndConn s) = {}" "sv_transceiversAndConn s = Map.empty" by (simp_all add: s_def)
  ultimately show ?thesis
    using assms by (auto simp: server_Send_def createWebSocketClient_def Let_def NewWebSocketClient_def
        client_checkArgs_def NewTransceiver_def transceiver_checkArgs_def)
qed

definition example_host :: ArgsWebSocketHost where
  "example_host = \<lparr>ha_WebSocketConfig = \<lparr>wc_URL = ''localhost:9'', wc_Mode = ''server'', wc_RetryDurationInSec = 5,
     wc_WithAcknowledge = True, wc_AcknowledgeTimeoutInSec = 0, wc_BlockingAckOnError = False,
     wc_DropMessagesIfNoConnection = False, wc_Version = 1\<rparr>, ha_hasMarshaller = True, ha_hasLog = True\<rparr>"

theorem server_zero_ack_timeout_witness:
  "createWebSocketClient (\<lambda>_. Inr (''ws'', \<lambda>p. p)) example_host = Inl ErrZeroValueAckTimeout \<and>
    (\<exists>s. createWebSocketServer example_host = Inr (ServerHost (s :: nat server)) \<and>
      (\<forall>conns. let s1 = foldl connectionHandler s conns in
         dom (sv_transceiversAndConn s1) = {} \<and>
         server_Send protoConverter (\<lambda>_ _. None) (\<lambda>_. ChanClosed) [] s1 [1] ''t'' =
           Some (if sv_dropMessagesIfNoConnection s then None else Some ErrNoClientsConnected, s1)))"
  by (rule server_zero_ack_timeout) (simp_all add: example_host_def)

end
