(* ===== verification/Peers_On_Channel.thy ===== *)
theory Peers_On_Channel
  imports Prelude
begin

text \<open>
  \<^verbatim>\<open>libp2p/peersOnChannel.go\<close>: a cache of the peers of each topic, refreshed in the background. What the fetch handler
  returns and the readings of the clock are arguments of the operations; times are integers.
\<close>

record peersOnChannel =
  poc_peers :: "string \<rightharpoonup> peer_id list"
  lastUpdated :: "string \<rightharpoonup> int"
  refreshInterval :: int
  ttlInterval :: int

definition newPeersOnChannel :: "bool \<Rightarrow> int \<Rightarrow> int \<Rightarrow> bool \<Rightarrow> p2p_error + peersOnChannel" where
  "newPeersOnChannel hasFetchPeersHandler refresh ttl hasLogger =
     (if \<not> hasFetchPeersHandler then Inl ErrNilFetchPeersOnTopicHandler
      else if refresh = 0 then Inl ErrInvalidDurationProvided
      else if ttl = 0 then Inl ErrInvalidDurationProvided
      else if \<not> hasLogger then Inl ErrNilLogger
      else Inr \<lparr>poc_peers = Map.empty, lastUpdated = Map.empty, refreshInterval = refresh, ttlInterval = ttl\<rparr>)"

definition updateConnectedPeersOnTopic :: "int \<Rightarrow> peersOnChannel \<Rightarrow> string \<Rightarrow> peer_id list \<Rightarrow> peersOnChannel" where
  "updateConnectedPeersOnTopic now poc topic connectedPeers =
     poc\<lparr>poc_peers := (poc_peers poc)(topic \<mapsto> connectedPeers), lastUpdated := (lastUpdated poc)(topic \<mapsto> now)\<rparr>"

text \<open>\<open>fetched\<close> is what the handler returned for the topic, \<open>now\<close> the clock when the table is updated.\<close>

definition refreshPeersOnTopic :: "peer_id list \<Rightarrow> int \<Rightarrow> peersOnChannel \<Rightarrow> string \<Rightarrow> peer_id list \<times> peersOnChannel" where
  "refreshPeersOnTopic fetched now poc topic = (fetched, updateConnectedPeersOnTopic now poc topic fetched)"

definition ConnectedPeersOnChannel ::
    "peer_id list \<Rightarrow> int \<Rightarrow> peersOnChannel \<Rightarrow> string \<Rightarrow> peer_id list \<times> peersOnChannel" where
  "ConnectedPeersOnChannel fetched now poc topic =
     (case poc_peers poc topic of Some peers \<Rightarrow> (peers, poc) | None \<Rightarrow> refreshPeersOnTopic fetched now poc topic)"

text \<open>
  One turn of \<^verbatim>\<open>refreshPeersOnAllKnownTopics\<close>: the topics that are older than the time to live, in the order in which the
  map is visited, then a refresh of each of them.
\<close>

definition topicsToBeRefreshed :: "int \<Rightarrow> string list \<Rightarrow> peersOnChannel \<Rightarrow> string list" where
  "topicsToBeRefreshed now order poc =
     filter (\<lambda>t. case lastUpdated poc t of None \<Rightarrow> False | Some l \<Rightarrow> now - l > ttlInterval poc) order"

fun refreshAll :: "(string \<Rightarrow> peer_id list \<times> int) \<Rightarrow> string list \<Rightarrow> peersOnChannel \<Rightarrow> peersOnChannel" where
  "refreshAll env [] poc = poc"
| "refreshAll env (t # ts) poc =
     (case env t of (fetched, now) \<Rightarrow> refreshAll env ts (snd (refreshPeersOnTopic fetched now poc t)))"

definition refreshPeersOnAllKnownTopics ::
    "int \<Rightarrow> (string \<Rightarrow> peer_id list \<times> int) \<Rightarrow> string list \<Rightarrow> peersOnChannel \<Rightarrow> peersOnChannel" where
  "refreshPeersOnAllKnownTopics now env order poc = refreshAll env (topicsToBeRefreshed now order poc) poc"

section \<open>Executions\<close>

text \<open>
  A run of the cache: the lists fetched so far with their topics and times, the clock, and the time of the last
  background turn.
\<close>

record poc_state =
  cache :: peersOnChannel
  fetches :: "(string \<times> peer_id list \<times> int) list"
  clock :: int
  lastTurn :: int

definition poc_init :: "peersOnChannel \<Rightarrow> int \<Rightarrow> poc_state" where
  "poc_init poc t0 = \<lparr>cache = poc, fetches = [], clock = t0, lastTurn = t0\<rparr>"

inductive poc_step :: "poc_state \<Rightarrow> poc_state \<Rightarrow> bool" where
  asked: "clock s \<le> now \<Longrightarrow> ConnectedPeersOnChannel fetched now (cache s) topic = (answer, poc) \<Longrightarrow>
    poc_step s (s\<lparr>cache := poc, clock := now,
      fetches := fetches s @ (if poc_peers (cache s) topic = None then [(topic, fetched, now)] else [])\<rparr>)"
| background: "clock s \<le> now \<Longrightarrow> distinct order \<Longrightarrow> set order = dom (lastUpdated (cache s)) \<Longrightarrow>
    \<forall>t. now \<le> snd (env t) \<and> snd (env t) \<le> later \<Longrightarrow>
    poc_step s (s\<lparr>cache := refreshPeersOnAllKnownTopics now env order (cache s), clock := later, lastTurn := now,
      fetches := fetches s @ map (\<lambda>t. (t, env t)) (topicsToBeRefreshed now order (cache s))\<rparr>)"

abbreviation latest :: "(string \<times> peer_id list \<times> int) list \<Rightarrow> string \<Rightarrow> (peer_id list \<times> int) option" where
  "latest fs \<equiv> map_of (rev fs)"

definition topic_ok :: "poc_state \<Rightarrow> string \<Rightarrow> bool" where
  "topic_ok s t =
     (case latest (fetches s) t of
        None \<Rightarrow> poc_peers (cache s) t = None \<and> lastUpdated (cache s) t = None
      | Some (peers, u) \<Rightarrow> poc_peers (cache s) t = Some peers \<and> lastUpdated (cache s) t = Some u \<and>
          lastTurn s - ttlInterval (cache s) \<le> u \<and> u \<le> clock s)"

definition poc_inv :: "poc_state \<Rightarrow> bool" where
  "poc_inv s \<longleftrightarrow> lastTurn s \<le> clock s \<and> (\<forall>t. topic_ok s t)"

lemma refreshAll_fields:
  "ttlInterval (refreshAll env ts poc) = ttlInterval poc"
  "poc_peers (refreshAll env ts poc) t = (if t \<in> set ts then Some (fst (env t)) else poc_peers poc t)"
  "lastUpdated (refreshAll env ts poc) t = (if t \<in> set ts then Some (snd (env t)) else lastUpdated poc t)"
  by (induction env ts poc rule: refreshAll.induct)
     (auto simp: refreshPeersOnTopic_def updateConnectedPeersOnTopic_def split: prod.splits)

lemma latest_append_env:
  "latest (fs @ map (\<lambda>t. (t, env t)) ts) t = (if t \<in> set ts then Some (env t) else latest fs t)"
proof -
  have "map_of (rev (map (\<lambda>t. (t, env t)) ts)) t = (if t \<in> set ts then Some (env t) else None)"
    by (induction ts rule: rev_induct) auto
  then show ?thesis by (simp add: map_add_def)
qed

lemma topic_ok_asked:
  assumes "topic_ok s t" "lastTurn s \<le> clock s" "clock s \<le> now" "0 \<le> ttlInterval (cache s)"
    and "ConnectedPeersOnChannel fetched now (cache s) topic = (answer, poc)"
  shows "topic_ok (s\<lparr>cache := poc, clock := now,
      fetches := fetches s @ (if poc_peers (cache s) topic = None then [(topic, fetched, now)] else [])\<rparr>) t"
    "ttlInterval poc = ttlInterval (cache s)"
  using assms
  by (auto simp: topic_ok_def ConnectedPeersOnChannel_def refreshPeersOnTopic_def updateConnectedPeersOnTopic_def
      split: option.splits)

lemma topic_ok_background:
  assumes "topic_ok s t" "clock s \<le> now" "0 \<le> ttlInterval (cache s)" "set order = dom (lastUpdated (cache s))"
    and "now \<le> snd (env t)" "snd (env t) \<le> later"
  shows "topic_ok (s\<lparr>cache := refreshPeersOnAllKnownTopics now env order (cache s), clock := later, lastTurn := now,
      fetches := fetches s @ map (\<lambda>t. (t, env t)) (topicsToBeRefreshed now order (cache s))\<rparr>) t"
proof (cases "t \<in> set (topicsToBeRefreshed now order (cache s))")
  case True
  then show ?thesis using assms(3,5,6)
    by (simp add: topic_ok_def refreshPeersOnAllKnownTopics_def refreshAll_fields latest_append_env
        case_prod_unfold del: rev_append)
next
  case False
  then have "lastUpdated (cache s) t = Some u \<Longrightarrow> now - ttlInterval (cache s) \<le> u" for u
    using assms(4) by (auto simp: topicsToBeRefreshed_def)
  with False show ?thesis using assms
    by (auto simp: topic_ok_def refreshPeersOnAllKnownTopics_def refreshAll_fields latest_append_env
        simp del: rev_append split: option.splits)
qed

lemma poc_step_inv:
  assumes "poc_step s s'" "poc_inv s" "0 \<le> ttlInterval (cache s)"
  shows "poc_inv s' \<and> ttlInterval (cache s') = ttlInterval (cache s)"
  using assms(1)
proof cases
  case (asked now fetched topic answer poc)
  from assms(2) have t: "topic_ok s t" "lastTurn s \<le> clock s" for t by (simp_all add: poc_inv_def)
  show ?thesis
    using t(2) topic_ok_asked [OF t asked(2) assms(3) asked(3)] asked(2) unfolding poc_inv_def asked(1)
    by (intro conjI allI) (simp_all split del: if_split)
next
  case (background now order env later)
  have le: "now \<le> snd (env t)" "snd (env t) \<le> later" for t using background(5) by auto
  from assms(2) have t: "topic_ok s t" for t by (simp add: poc_inv_def)
  have "now \<le> later" using le order_trans by blast
  moreover have "ttlInterval (refreshPeersOnAllKnownTopics now env order (cache s)) = ttlInterval (cache s)"
    by (simp add: refreshPeersOnAllKnownTopics_def refreshAll_fields)
  ultimately show ?thesis
    using topic_ok_background [OF t background(2) assms(3) background(4) le] unfolding poc_inv_def background(1)
    by (intro conjI allI) simp_all
qed

lemma poc_run_inv:
  assumes "poc_step\<^sup>*\<^sup>* (poc_init poc t0) s" "newPeersOnChannel f r ttl l = Inr poc" "0 \<le> ttl"
  shows "poc_inv s \<and> ttlInterval (cache s) = ttl"
  using assms(1)
proof (induction rule: rtranclp_induct)
  case base
  from assms(2) show ?case
    by (auto simp: newPeersOnChannel_def poc_init_def poc_inv_def topic_ok_def split: if_splits)
next
  case (step s s')
  with poc_step_inv [of s s'] assms(3) show ?case by simp
qed


definition poc0 :: peersOnChannel where
  "poc0 = \<lparr>poc_peers = Map.empty, lastUpdated = Map.empty, refreshInterval = 5, ttlInterval = 10\<rparr>"


end
