(* ===== verification/Connections_Handler.thy ===== *)
theory Connections_Handler
  imports Connection_Monitor Peers_On_Channel
begin

text \<open>
  \<^verbatim>\<open>libp2p/connectionsHandler.go\<close>: what the messenger knows of its connections, with the classification of the connected
  peers, and the counters of \<^verbatim>\<open>libp2p/metrics/connections.go\<close>. The network, the peer store and the text of an address are
  arguments; the connections that the network has are a list.
\<close>

section \<open>Counters\<close>

record connectionsMetric =
  numConnections :: uint32
  numDisconnections :: uint32

definition NewConnectionsMetric :: connectionsMetric where
  "NewConnectionsMetric = \<lparr>numConnections = 0, numDisconnections = 0\<rparr>"

definition metric_Connected :: "connectionsMetric \<Rightarrow> connectionsMetric" where
  "metric_Connected cm = cm\<lparr>numConnections := numConnections cm + 1\<rparr>"

definition metric_Disconnected :: "connectionsMetric \<Rightarrow> connectionsMetric" where
  "metric_Disconnected cm = cm\<lparr>numDisconnections := numDisconnections cm + 1\<rparr>"

definition ResetNumConnections :: "connectionsMetric \<Rightarrow> uint32 \<times> connectionsMetric" where
  "ResetNumConnections cm = (numConnections cm, cm\<lparr>numConnections := 0\<rparr>)"

definition ResetNumDisconnections :: "connectionsMetric \<Rightarrow> uint32 \<times> connectionsMetric" where
  "ResetNumDisconnections cm = (numDisconnections cm, cm\<lparr>numDisconnections := 0\<rparr>)"

lemma metric_counts:
  "fst (ResetNumConnections ((metric_Connected ^^ n) (snd (ResetNumConnections cm)))) = of_nat n"
proof -
  have "numConnections ((metric_Connected ^^ n) c) = numConnections c + of_nat n" for c
    by (induction n) (simp_all add: metric_Connected_def)
  then show ?thesis by (simp add: ResetNumConnections_def)
qed

section \<open>State\<close>

record connectionsHandler =
  ch_peersOnChannel :: peersOnChannel
  ch_peerShardResolver :: "peer_id \<Rightarrow> PeerInfo"
  ch_sharder :: sharder
  ch_preferredPeersHolder :: peersHolder
  ch_connMonitor :: connectionMonitor
  ch_numPeerDiscoverers :: nat
  ch_peerID :: peer_id
  ch_connectionsMetric :: connectionsMetric
  protocolIDs :: "string set"

record ArgConnectionsHandler =
  ach_hasP2pHost :: bool
  ach_PeersOnChannel :: "peersOnChannel option"
  ach_PeerShardResolver :: "(peer_id \<Rightarrow> PeerInfo) option"
  ach_Sharder :: "sharder option"
  ach_PreferredPeersHolder :: "peersHolder option"
  ach_ConnMonitor :: "connectionMonitor option"
  ach_PeerDiscoverers :: "bool list"
  ach_PeerID :: peer_id
  ach_ConnectionsMetric :: "connectionsMetric option"
  ach_hasLogger :: bool
  ach_ProtocolIDs :: "string list"

definition checkArgConnectionsHandler :: "ArgConnectionsHandler \<Rightarrow> p2p_error option" where
  "checkArgConnectionsHandler args =
     (if \<not> ach_hasP2pHost args then Some ErrNilHost
      else if ach_PeersOnChannel args = None then Some ErrNilPeersOnChannel
      else if ach_PeerShardResolver args = None then Some ErrNilPeerShardResolver
      else if ach_Sharder args = None then Some ErrNilSharder
      else if ach_PreferredPeersHolder args = None then Some ErrNilPreferredPeersHolder
      else if ach_ConnMonitor args = None then Some ErrNilConnectionMonitor
      else if \<not> list_all (\<lambda>present. present) (ach_PeerDiscoverers args) then Some ErrNilPeerDiscoverer
      else if ach_ConnectionsMetric args = None then Some ErrNilConnectionsMetric
      else if \<not> ach_hasLogger args then Some ErrNilLogger
      else None)"

definition kadProtocol :: string where "kadProtocol = ''/kad/1.0.0''"

definition NewConnectionsHandler :: "ArgConnectionsHandler \<Rightarrow> p2p_error + connectionsHandler" where
  "NewConnectionsHandler args =
     (case checkArgConnectionsHandler args of Some e \<Rightarrow> Inl e
      | None \<Rightarrow> Inr \<lparr>ch_peersOnChannel = the (ach_PeersOnChannel args),
          ch_peerShardResolver = the (ach_PeerShardResolver args), ch_sharder = the (ach_Sharder args),
          ch_preferredPeersHolder = the (ach_PreferredPeersHolder args), ch_connMonitor = the (ach_ConnMonitor args),
          ch_numPeerDiscoverers = length (ach_PeerDiscoverers args), ch_peerID = ach_PeerID args,
          ch_connectionsMetric = the (ach_ConnectionsMetric args),
          protocolIDs = set (map (\<lambda>p. p @ kadProtocol) (ach_ProtocolIDs args))\<rparr>)"

section \<open>Queries\<close>

text \<open>The last error of the discoverers, on the answers of their \<^verbatim>\<open>Bootstrap\<close>.\<close>

definition Bootstrap :: "p2p_error option list \<Rightarrow> p2p_error option" where
  "Bootstrap answers = foldl (\<lambda>lastError err. if err \<noteq> None then err else lastError) None answers"

definition HasCompatibleProtocolID ::
    "(string \<Rightarrow> string + peer_id) \<Rightarrow> (peer_id \<Rightarrow> string + string list) \<Rightarrow> connectionsHandler \<Rightarrow> string \<Rightarrow> bool" where
  "HasCompatibleProtocolID addressToPeer getProtocols h address =
     (case addressToPeer address of Inl _ \<Rightarrow> False
      | Inr p \<Rightarrow>
        (case getProtocols p of Inl _ \<Rightarrow> False
         | Inr protocols \<Rightarrow> list_ex (\<lambda>q. q \<in> protocolIDs h) protocols))"

definition Addresses :: "(peer_id \<Rightarrow> string) \<Rightarrow> connectionsHandler \<Rightarrow> string list \<Rightarrow> string list" where
  "Addresses pretty h addrs = map (\<lambda>a. a @ ''/p2p/'' @ pretty (ch_peerID h)) addrs"

text \<open>The polls of \<^verbatim>\<open>waitForConnections\<close>: either the maximum time is over or the connected peers are counted.\<close>

datatype wait_poll = MaxWaitingTimeOver | Polled nat

fun waitForConnections :: "nat \<Rightarrow> wait_poll list \<Rightarrow> bool" where
  "waitForConnections minNumOfPeers [] = False"
| "waitForConnections minNumOfPeers (MaxWaitingTimeOver # polls) = True"
| "waitForConnections minNumOfPeers (Polled n # polls) =
     (minNumOfPeers \<le> n \<or> waitForConnections minNumOfPeers polls)"

fun ConnectedPeers_loop :: "(peer_id \<Rightarrow> bool) \<Rightarrow> network_conn list \<Rightarrow> peer_id set \<Rightarrow> peer_id list \<Rightarrow> peer_id list" where
  "ConnectedPeers_loop isConnected [] seen result = result"
| "ConnectedPeers_loop isConnected (c # cs) seen result =
     (let p = RemotePeer c in
      if \<not> isConnected p then ConnectedPeers_loop isConnected cs seen result
      else if p \<in> seen then ConnectedPeers_loop isConnected cs seen result
      else ConnectedPeers_loop isConnected cs (insert p seen) (result @ [p]))"

definition ConnectedPeers :: "(peer_id \<Rightarrow> bool) \<Rightarrow> network_conn list \<Rightarrow> peer_id list" where
  "ConnectedPeers isConnected conns = ConnectedPeers_loop isConnected conns {} []"

definition ConnectedAddresses :: "(peer_id \<Rightarrow> string) \<Rightarrow> network_conn list \<Rightarrow> string list" where
  "ConnectedAddresses pretty conns = map (\<lambda>c. RemoteMultiaddr c @ ''/p2p/'' @ pretty (RemotePeer c)) conns"

definition PeerAddresses :: "(peer_id \<Rightarrow> string list) \<Rightarrow> network_conn list \<Rightarrow> peer_id \<Rightarrow> string list" where
  "PeerAddresses peerstoreAddrs conns p =
     (case find (\<lambda>c. RemotePeer c = p) conns of None \<Rightarrow> [] | Some c \<Rightarrow> [RemoteMultiaddr c]) @ peerstoreAddrs p"

definition handler_SetPeerShardResolver ::
    "connectionsHandler \<Rightarrow> (peer_id \<Rightarrow> PeerInfo) option \<Rightarrow> p2p_error option \<times> connectionsHandler" where
  "handler_SetPeerShardResolver h resolver =
     (case resolver of None \<Rightarrow> (Some ErrNilPeerShardResolver, h)
      | Some r \<Rightarrow>
        (case sharder_SetPeerShardResolver (ch_sharder h) resolver of
           (Some e, s) \<Rightarrow> (Some e, h\<lparr>ch_sharder := s\<rparr>)
         | (None, s) \<Rightarrow> (None, h\<lparr>ch_sharder := s, ch_peerShardResolver := r\<rparr>)))"

definition handler_SetThresholdMinConnectedPeers ::
    "connectionsHandler \<Rightarrow> int \<Rightarrow> peer_id list \<Rightarrow> p2p_error option \<times> connectionsHandler" where
  "handler_SetThresholdMinConnectedPeers h minConnectedPeers peers =
     (if minConnectedPeers < 0 then (Some ErrInvalidValue, h)
      else (None, h\<lparr>ch_connMonitor := snd (SetThresholdMinConnectedPeers (ch_connMonitor h) minConnectedPeers (Some peers))\<rparr>))"

definition handler_SetPeerDenialEvaluator ::
    "connectionsHandler \<Rightarrow> (peer_id \<Rightarrow> bool) option \<Rightarrow> p2p_error option \<times> connectionsHandler" where
  "handler_SetPeerDenialEvaluator h evaluator =
     (case SetPeerDenialEvaluator (ch_connMonitor h) evaluator of (e, m) \<Rightarrow> (e, h\<lparr>ch_connMonitor := m\<rparr>))"

definition ConnectedPeersOnTopic ::
    "peer_id list \<Rightarrow> int \<Rightarrow> connectionsHandler \<Rightarrow> string \<Rightarrow> peer_id list \<times> connectionsHandler" where
  "ConnectedPeersOnTopic fetched now h topic =
     (case ConnectedPeersOnChannel fetched now (ch_peersOnChannel h) topic of
        (peers, poc) \<Rightarrow> (peers, h\<lparr>ch_peersOnChannel := poc\<rparr>))"

definition handler_IsConnectedToTheNetwork :: "connectionsHandler \<Rightarrow> peer_id list \<Rightarrow> bool" where
  "handler_IsConnectedToTheNetwork h peers = IsConnectedToTheNetwork (ch_connMonitor h) peers"

text \<open>The last error of the two components that \<^verbatim>\<open>Close\<close> closes.\<close>

definition handler_Close :: "p2p_error option \<Rightarrow> p2p_error option \<Rightarrow> p2p_error option" where
  "handler_Close errPoc errConnMonitor = (if errConnMonitor \<noteq> None then errConnMonitor else errPoc)"

section \<open>The connected peers by shard and type\<close>

record ConnectedPeersInfo =
  SelfShardID :: uint32
  UnknownPeers :: "string list"
  Seeders :: "string list"
  IntraShardValidators :: "uint32 \<rightharpoonup> string list"
  IntraShardObservers :: "uint32 \<rightharpoonup> string list"
  CrossShardValidators :: "uint32 \<rightharpoonup> string list"
  CrossShardObservers :: "uint32 \<rightharpoonup> string list"
  NumValidatorsOnShard :: "uint32 \<rightharpoonup> nat"
  NumObserversOnShard :: "uint32 \<rightharpoonup> nat"
  NumPreferredPeersOnShard :: "uint32 \<rightharpoonup> nat"
  NumIntraShardValidators :: nat
  NumIntraShardObservers :: nat
  NumCrossShardValidators :: nat
  NumCrossShardObservers :: nat

text \<open>\<^verbatim>\<open>m[k]++\<close> and \<^verbatim>\<open>m[k] = append(m[k], x)\<close> on Go maps: a missing key reads as 0 and as nil.\<close>

definition count_at :: "('k \<rightharpoonup> nat) \<Rightarrow> 'k \<Rightarrow> nat" where
  "count_at m k = (case m k of None \<Rightarrow> 0 | Some n \<Rightarrow> n)"

definition bump :: "('k \<rightharpoonup> nat) \<Rightarrow> 'k \<Rightarrow> 'k \<rightharpoonup> nat" where
  "bump m k = m(k \<mapsto> count_at m k + 1)"

definition push :: "('k \<rightharpoonup> 'v list) \<Rightarrow> 'k \<Rightarrow> 'v \<Rightarrow> 'k \<rightharpoonup> 'v list" where
  "push m k x = m(k \<mapsto> slice_at m k @ [x])"

lemma count_at_bump [simp]: "count_at (bump m k) j = (if j = k then Suc (count_at m k) else count_at m j)"
  by (simp add: count_at_def bump_def)

lemma slice_at_push [simp]: "slice_at (push m k x) j = (if j = k then slice_at m k @ [x] else slice_at m j)"
  by (simp add: slice_at_def push_def)

lemma at_empty [simp]: "count_at Map.empty k = 0" "slice_at Map.empty k = []"
  by (simp_all add: count_at_def slice_at_def)

definition appendPeerInfo ::
    "bool \<Rightarrow> PeerInfo \<Rightarrow> PeerInfo \<Rightarrow> ConnectedPeersInfo \<Rightarrow> string \<Rightarrow> ConnectedPeersInfo" where
  "appendPeerInfo isSeeder peerInfo selfPeerInfo info connString =
     (let s = ShardID peerInfo in
      case PeerType peerInfo of
        UnknownPeer \<Rightarrow>
          if isSeeder then info\<lparr>Seeders := Seeders info @ [connString]\<rparr>
          else info\<lparr>UnknownPeers := UnknownPeers info @ [connString]\<rparr>
      | ValidatorPeer \<Rightarrow>
          (let info1 = info\<lparr>NumValidatorsOnShard := bump (NumValidatorsOnShard info) s\<rparr> in
           if ShardID selfPeerInfo \<noteq> s then
             info1\<lparr>CrossShardValidators := push (CrossShardValidators info) s connString,
                   NumCrossShardValidators := NumCrossShardValidators info + 1\<rparr>
           else
             info1\<lparr>IntraShardValidators := push (IntraShardValidators info) s connString,
                   NumIntraShardValidators := NumIntraShardValidators info + 1\<rparr>)
      | ObserverPeer \<Rightarrow>
          (let info1 = info\<lparr>NumObserversOnShard := bump (NumObserversOnShard info) s\<rparr> in
           if ShardID selfPeerInfo \<noteq> s then
             info1\<lparr>CrossShardObservers := push (CrossShardObservers info) s connString,
                   NumCrossShardObservers := NumCrossShardObservers info + 1\<rparr>
           else
             info1\<lparr>IntraShardObservers := push (IntraShardObservers info) s connString,
                   NumIntraShardObservers := NumIntraShardObservers info + 1\<rparr>)
      | OtherPeerType _ \<Rightarrow> info)"

text \<open>\<open>connsToPeer\<close> gives the remote addresses of the connections to a peer.\<close>

definition connString :: "(peer_id \<Rightarrow> string) \<Rightarrow> (peer_id \<Rightarrow> string list) \<Rightarrow> peer_id \<Rightarrow> string" where
  "connString pretty connsToPeer p =
     (case connsToPeer p of [] \<Rightarrow> ''[invalid connection string]'' | a # _ \<Rightarrow> a @ ''/p2p/'' @ pretty p)"

definition peerInfo_turn ::
    "(peer_id \<Rightarrow> string) \<Rightarrow> (peer_id \<Rightarrow> string list) \<Rightarrow> connectionsHandler \<Rightarrow> ConnectedPeersInfo \<Rightarrow> peer_id
     \<Rightarrow> ConnectedPeersInfo" where
  "peerInfo_turn pretty connsToPeer h info p =
     (let peerInfo = ch_peerShardResolver h p;
          selfPeerInfo = ch_peerShardResolver h (ch_peerID h);
          info1 = appendPeerInfo (sharder_IsSeeder pretty (ch_sharder h) p) peerInfo selfPeerInfo info
                    (connString pretty connsToPeer p)
      in if Contains (ch_preferredPeersHolder h) p
         then info1\<lparr>NumPreferredPeersOnShard := bump (NumPreferredPeersOnShard info1) (ShardID peerInfo)\<rparr>
         else info1)"

definition emptyPeersInfo :: "uint32 \<Rightarrow> ConnectedPeersInfo" where
  "emptyPeersInfo s =
     \<lparr>SelfShardID = s, UnknownPeers = [], Seeders = [], IntraShardValidators = Map.empty,
      IntraShardObservers = Map.empty, CrossShardValidators = Map.empty, CrossShardObservers = Map.empty,
      NumValidatorsOnShard = Map.empty, NumObserversOnShard = Map.empty, NumPreferredPeersOnShard = Map.empty,
      NumIntraShardValidators = 0, NumIntraShardObservers = 0, NumCrossShardValidators = 0,
      NumCrossShardObservers = 0\<rparr>"

definition GetConnectedPeersInfo ::
    "(peer_id \<Rightarrow> string) \<Rightarrow> (peer_id \<Rightarrow> string list) \<Rightarrow> connectionsHandler \<Rightarrow> peer_id list \<Rightarrow> ConnectedPeersInfo" where
  "GetConnectedPeersInfo pretty connsToPeer h peers =
     foldl (peerInfo_turn pretty connsToPeer h)
       (emptyPeersInfo (ShardID (ch_peerShardResolver h (ch_peerID h)))) peers"

fun str_join :: "string \<Rightarrow> string list \<Rightarrow> string" where
  "str_join sep [] = []"
| "str_join sep [x] = x"
| "str_join sep (x # y # xs) = x @ sep @ str_join sep (y # xs)"

text \<open>\<open>metachain\<close> is \<^verbatim>\<open>core.MetachainShardId\<close>; the keys of the map are visited in increasing order.\<close>

definition mapHistogram :: "uint32 \<Rightarrow> (uint32 \<times> nat) list \<Rightarrow> string" where
  "mapHistogram metachain input =
     str_join '', ''
       (map (\<lambda>(key, n). (if key = metachain then ''meta'' else ''shard '' @ show_nat (unat key)) @ '': '' @ show_nat n)
          (sort_key fst input))"

section \<open>What the queries return\<close>

lemma ConnectedPeers_loop_spec:
  "ConnectedPeers_loop ok cs seen result = result @ ConnectedPeers_loop ok cs seen []"
proof (induction cs arbitrary: seen result)
  case (Cons c cs)
  let ?S = "insert (RemotePeer c) seen" and ?p = "RemotePeer c"
  show ?case
    using Cons [of seen result] Cons [of ?S "result @ [?p]"] Cons [of ?S "[?p]"] by (simp add: Let_def)
qed simp

lemma ConnectedPeers_loop_set:
  "set (ConnectedPeers_loop ok cs seen []) = {p \<in> RemotePeer ` set cs. ok p} - seen \<and>
   distinct (ConnectedPeers_loop ok cs seen [])"
proof (induction cs arbitrary: seen)
  case (Cons c cs)
  show ?case using Cons [of seen] Cons [of "insert (RemotePeer c) seen"]
    by (subst ConnectedPeers_loop.simps)
       (auto simp: Let_def ConnectedPeers_loop_spec [of ok cs "insert (RemotePeer c) seen" "[RemotePeer c]"])
qed simp

lemma ConnectedPeers_correct:
  "set (ConnectedPeers ok conns) = {p \<in> RemotePeer ` set conns. ok p}" "distinct (ConnectedPeers ok conns)"
  using ConnectedPeers_loop_set [of ok conns "{}"] by (simp_all add: ConnectedPeers_def)

text \<open>The connections of the peers that satisfy a condition, in the order of the network.\<close>

definition peers_where :: "(peer_id \<Rightarrow> string) \<Rightarrow> (peer_id \<Rightarrow> string list) \<Rightarrow> peer_id list \<Rightarrow> (peer_id \<Rightarrow> bool) \<Rightarrow> string list" where
  "peers_where pretty connsToPeer peers P = map (connString pretty connsToPeer) (filter P peers)"

lemma peers_where_snoc [simp]:
  "peers_where pretty C [] P = []"
  "peers_where pretty C (ps @ [p]) P = peers_where pretty C ps P @ (if P p then [connString pretty C p] else [])"
  by (simp_all add: peers_where_def)

lemma GetConnectedPeersInfo_snoc:
  "GetConnectedPeersInfo pretty C h (ps @ [p]) = peerInfo_turn pretty C h (GetConnectedPeersInfo pretty C h ps) p"
  by (simp add: GetConnectedPeersInfo_def)

lemma GetConnectedPeersInfo_Nil:
  "GetConnectedPeersInfo pretty C h [] = emptyPeersInfo (ShardID (ch_peerShardResolver h (ch_peerID h)))"
  by (simp add: GetConnectedPeersInfo_def)

lemmas info_fold = GetConnectedPeersInfo_Nil GetConnectedPeersInfo_snoc peerInfo_turn_def appendPeerInfo_def
  emptyPeersInfo_def Let_def

lemma info_self: "SelfShardID (GetConnectedPeersInfo pretty C h ps) = ShardID (ch_peerShardResolver h (ch_peerID h))"
  by (induction ps rule: rev_induct) (simp_all add: info_fold split: peer_type.split)

lemma info_unknown:
  fixes h pretty C
  defines "R \<equiv> ch_peerShardResolver h" and "seeder \<equiv> sharder_IsSeeder pretty (ch_sharder h)"
  shows "UnknownPeers (GetConnectedPeersInfo pretty C h ps) =
      peers_where pretty C ps (\<lambda>p. PeerType (R p) = UnknownPeer \<and> \<not> seeder p)"
    "Seeders (GetConnectedPeersInfo pretty C h ps) =
      peers_where pretty C ps (\<lambda>p. PeerType (R p) = UnknownPeer \<and> seeder p)"
  unfolding R_def seeder_def
  by (induction ps rule: rev_induct) (simp_all add: info_fold split: peer_type.split)

lemma turn_validators:
  "slice_at (IntraShardValidators (peerInfo_turn pretty C h i p)) s = slice_at (IntraShardValidators i) s @
     (if PeerType (ch_peerShardResolver h p) = ValidatorPeer \<and> ShardID (ch_peerShardResolver h p) = s \<and>
        s = ShardID (ch_peerShardResolver h (ch_peerID h)) then [connString pretty C p] else [])"
  "slice_at (CrossShardValidators (peerInfo_turn pretty C h i p)) s = slice_at (CrossShardValidators i) s @
     (if PeerType (ch_peerShardResolver h p) = ValidatorPeer \<and> ShardID (ch_peerShardResolver h p) = s \<and>
        s \<noteq> ShardID (ch_peerShardResolver h (ch_peerID h)) then [connString pretty C p] else [])"
  "count_at (NumValidatorsOnShard (peerInfo_turn pretty C h i p)) s = count_at (NumValidatorsOnShard i) s +
     (if PeerType (ch_peerShardResolver h p) = ValidatorPeer \<and> ShardID (ch_peerShardResolver h p) = s then 1 else 0)"
  by (cases "PeerType (ch_peerShardResolver h p)"; auto simp: peerInfo_turn_def appendPeerInfo_def Let_def)+

lemma info_validators:
  fixes h pretty C
  defines "R \<equiv> ch_peerShardResolver h" and "self \<equiv> ShardID (ch_peerShardResolver h (ch_peerID h))"
  shows "slice_at (IntraShardValidators (GetConnectedPeersInfo pretty C h ps)) s =
      peers_where pretty C ps (\<lambda>p. PeerType (R p) = ValidatorPeer \<and> ShardID (R p) = s \<and> s = self)"
    "slice_at (CrossShardValidators (GetConnectedPeersInfo pretty C h ps)) s =
      peers_where pretty C ps (\<lambda>p. PeerType (R p) = ValidatorPeer \<and> ShardID (R p) = s \<and> s \<noteq> self)"
    "count_at (NumValidatorsOnShard (GetConnectedPeersInfo pretty C h ps)) s =
      length (filter (\<lambda>p. PeerType (R p) = ValidatorPeer \<and> ShardID (R p) = s) ps)"
  unfolding R_def self_def
  by (induction ps rule: rev_induct)
     (simp_all add: GetConnectedPeersInfo_Nil emptyPeersInfo_def GetConnectedPeersInfo_snoc turn_validators)

lemma turn_observers:
  "slice_at (IntraShardObservers (peerInfo_turn pretty C h i p)) s = slice_at (IntraShardObservers i) s @
     (if PeerType (ch_peerShardResolver h p) = ObserverPeer \<and> ShardID (ch_peerShardResolver h p) = s \<and>
        s = ShardID (ch_peerShardResolver h (ch_peerID h)) then [connString pretty C p] else [])"
  "slice_at (CrossShardObservers (peerInfo_turn pretty C h i p)) s = slice_at (CrossShardObservers i) s @
     (if PeerType (ch_peerShardResolver h p) = ObserverPeer \<and> ShardID (ch_peerShardResolver h p) = s \<and>
        s \<noteq> ShardID (ch_peerShardResolver h (ch_peerID h)) then [connString pretty C p] else [])"
  "count_at (NumObserversOnShard (peerInfo_turn pretty C h i p)) s = count_at (NumObserversOnShard i) s +
     (if PeerType (ch_peerShardResolver h p) = ObserverPeer \<and> ShardID (ch_peerShardResolver h p) = s then 1 else 0)"
  by (cases "PeerType (ch_peerShardResolver h p)"; auto simp: peerInfo_turn_def appendPeerInfo_def Let_def)+

lemma info_observers:
  fixes h pretty C
  defines "R \<equiv> ch_peerShardResolver h" and "self \<equiv> ShardID (ch_peerShardResolver h (ch_peerID h))"
  shows "slice_at (IntraShardObservers (GetConnectedPeersInfo pretty C h ps)) s =
      peers_where pretty C ps (\<lambda>p. PeerType (R p) = ObserverPeer \<and> ShardID (R p) = s \<and> s = self)"
    "slice_at (CrossShardObservers (GetConnectedPeersInfo pretty C h ps)) s =
      peers_where pretty C ps (\<lambda>p. PeerType (R p) = ObserverPeer \<and> ShardID (R p) = s \<and> s \<noteq> self)"
    "count_at (NumObserversOnShard (GetConnectedPeersInfo pretty C h ps)) s =
      length (filter (\<lambda>p. PeerType (R p) = ObserverPeer \<and> ShardID (R p) = s) ps)"
  unfolding R_def self_def
  by (induction ps rule: rev_induct)
     (simp_all add: GetConnectedPeersInfo_Nil emptyPeersInfo_def GetConnectedPeersInfo_snoc turn_observers)

lemma info_totals:
  fixes h pretty C
  defines "I \<equiv> GetConnectedPeersInfo pretty C h"
  shows "length (UnknownPeers (I ps)) + length (Seeders (I ps)) + NumIntraShardValidators (I ps) +
      NumCrossShardValidators (I ps) + NumIntraShardObservers (I ps) + NumCrossShardObservers (I ps) =
      length (filter (\<lambda>p. \<forall>n. PeerType (ch_peerShardResolver h p) \<noteq> OtherPeerType n) ps)"
  unfolding I_def
  by (induction ps rule: rev_induct) (auto simp: info_fold split: peer_type.split)

lemma info_preferred:
  "count_at (NumPreferredPeersOnShard (GetConnectedPeersInfo pretty C h ps)) s =
   length (filter (\<lambda>p. Contains (ch_preferredPeersHolder h) p \<and> ShardID (ch_peerShardResolver h p) = s) ps)"
  by (induction ps rule: rev_induct) (auto simp: info_fold split: peer_type.split)

text \<open>
  The overview of the connected peers is exact: for every shard, the four lists hold the connections of precisely the
  validators and observers of that shard, in the order of the network, under intra shard for the node's own
  shard and under cross shard for any other; peers of an unknown type are seeders or unknown; the numbers per
  shard, of preferred peers too, are the numbers of such peers, and the lists and totals together count every
  connected peer of a known type once.
\<close>

theorem connected_peers_info:
  "let I = GetConnectedPeersInfo pretty C h ps; R = ch_peerShardResolver h;
           self = ShardID (R (ch_peerID h));
           of_type = (\<lambda>T s p. PeerType (R p) = T \<and> ShardID (R p) = s);
           conns = peers_where pretty C ps in
    slice_at (IntraShardValidators I) s = (if s = self then conns (of_type ValidatorPeer s) else []) \<and>
    slice_at (CrossShardValidators I) s = (if s = self then [] else conns (of_type ValidatorPeer s)) \<and>
    slice_at (IntraShardObservers I) s = (if s = self then conns (of_type ObserverPeer s) else []) \<and>
    slice_at (CrossShardObservers I) s = (if s = self then [] else conns (of_type ObserverPeer s)) \<and>
    Seeders I = conns (\<lambda>p. PeerType (R p) = UnknownPeer \<and> sharder_IsSeeder pretty (ch_sharder h) p) \<and>
    UnknownPeers I = conns (\<lambda>p. PeerType (R p) = UnknownPeer \<and> \<not> sharder_IsSeeder pretty (ch_sharder h) p) \<and>
    count_at (NumValidatorsOnShard I) s = length (filter (of_type ValidatorPeer s) ps) \<and>
    count_at (NumObserversOnShard I) s = length (filter (of_type ObserverPeer s) ps) \<and>
    count_at (NumPreferredPeersOnShard I) s =
      length (filter (\<lambda>p. Contains (ch_preferredPeersHolder h) p \<and> ShardID (R p) = s) ps) \<and>
    length (UnknownPeers I) + length (Seeders I) + NumIntraShardValidators I + NumCrossShardValidators I +
      NumIntraShardObservers I + NumCrossShardObservers I =
      length (filter (\<lambda>p. \<forall>n. PeerType (R p) \<noteq> OtherPeerType n) ps)"
  unfolding Let_def
  by (intro conjI info_totals) (auto simp: info_validators info_observers info_unknown info_preferred peers_where_def)

text \<open>
  The overview and the lists sharder agree: of connected peers that are neither preferred nor seeders, the sharder puts into
  its lists of validators and observers as many as the overview reports.
\<close>

lemma info_counts:
  fixes h pretty C
  defines "I \<equiv> GetConnectedPeersInfo pretty C h" and "R \<equiv> ch_peerShardResolver h"
    and "self \<equiv> ShardID (ch_peerShardResolver h (ch_peerID h))"
  shows "NumIntraShardValidators (I ps) = length (filter (\<lambda>p. PeerType (R p) = ValidatorPeer \<and> ShardID (R p) = self) ps)"
    "NumCrossShardValidators (I ps) = length (filter (\<lambda>p. PeerType (R p) = ValidatorPeer \<and> ShardID (R p) \<noteq> self) ps)"
    "NumIntraShardObservers (I ps) = length (filter (\<lambda>p. PeerType (R p) = ObserverPeer \<and> ShardID (R p) = self) ps)"
    "NumCrossShardObservers (I ps) = length (filter (\<lambda>p. PeerType (R p) = ObserverPeer \<and> ShardID (R p) \<noteq> self) ps)"
  unfolding I_def R_def self_def
  by (induction ps rule: rev_induct) (simp_all add: info_fold split: peer_type.split)

lemma info_agrees_with_sharder:
  assumes "ch_sharder h = Lists ls" "peerShardResolver ls = ch_peerShardResolver h" "ls_selfPeerId ls = ch_peerID h"
    and "\<And>p. p \<in> set ps \<Longrightarrow> \<not> IsSeeder pretty ls p \<and> \<not> preferredContains ls p"
  shows "length (members pretty ls crossShardValidators ps) = NumCrossShardValidators (GetConnectedPeersInfo pretty C h ps)"
    "length (members pretty ls intraShardObservers ps) = NumIntraShardObservers (GetConnectedPeersInfo pretty C h ps)"
    "length (members pretty ls unknownList ps) = length (UnknownPeers (GetConnectedPeersInfo pretty C h ps))"
proof -
  note d = members_def info_counts info_unknown peers_where_def length_map
  show "length (members pretty ls crossShardValidators ps) = NumCrossShardValidators (GetConnectedPeersInfo pretty C h ps)"
    unfolding d using assms
    by (intro arg_cong [where f = length] filter_cong refl)
       (auto simp: cat_def categoryOf_def Let_def split: peer_type.splits)
  show "length (members pretty ls intraShardObservers ps) = NumIntraShardObservers (GetConnectedPeersInfo pretty C h ps)"
    unfolding d using assms
    by (intro arg_cong [where f = length] filter_cong refl)
       (auto simp: cat_def categoryOf_def Let_def split: peer_type.splits)
  show "length (members pretty ls unknownList ps) = length (UnknownPeers (GetConnectedPeersInfo pretty C h ps))"
    unfolding d using assms
    by (intro arg_cong [where f = length] filter_cong refl)
       (auto simp: cat_def categoryOf_def Let_def sharder_IsSeeder_def split: peer_type.splits)
qed

end
