(* ===== verification/Connections_Watcher.thy ===== *)
theory Connections_Watcher
  imports Prelude
begin

text \<open>
  \<^verbatim>\<open>libp2p/metrics/printConnectionsWatcher.go\<close>, the disabled watcher and their factory: which of the known connections are
  printed. The time cache is a record of operations, as its library is outside of the repository.
\<close>

record 'tc timecacher_ops =
  t_Has :: "'tc \<Rightarrow> string \<Rightarrow> bool"
  t_Upsert :: "'tc \<Rightarrow> string \<Rightarrow> int \<Rightarrow> string option \<times> 'tc"
  t_Sweep :: "'tc \<Rightarrow> 'tc"

record 'tc printConnectionsWatcher =
  pcw_timeCacher :: 'tc
  pcw_timeToLive :: int

datatype watcher_error = ErrInvalidValueForTimeToLiveParam | WatcherNilLogger | ErrUnknownConnectionWatcherType

text \<open>Durations are in nanoseconds; the shortest time to live is a second.\<close>

definition NewPrintConnectionsWatcher :: "'tc \<Rightarrow> int \<Rightarrow> bool \<Rightarrow> watcher_error + 'tc printConnectionsWatcher" where
  "NewPrintConnectionsWatcher emptyCache ttl hasLogger =
     (if ttl < 1000000000 then Inl ErrInvalidValueForTimeToLiveParam
      else if \<not> hasLogger then Inl WatcherNilLogger
      else Inr \<lparr>pcw_timeCacher = emptyCache, pcw_timeToLive = ttl\<rparr>)"

definition trim_spaces :: "string \<Rightarrow> string" where
  "trim_spaces s = rev (dropWhile (\<lambda>c. c = CHR '' '') (rev (dropWhile (\<lambda>c. c = CHR '' '') s)))"

text \<open>The connection that is printed, if any, and the watcher afterwards.\<close>

definition print_NewKnownConnection ::
    "'tc timecacher_ops \<Rightarrow> (peer_id \<Rightarrow> string) \<Rightarrow> 'tc printConnectionsWatcher \<Rightarrow> peer_id \<Rightarrow> string
     \<Rightarrow> (peer_id \<times> string) option \<times> 'tc printConnectionsWatcher" where
  "print_NewKnownConnection T pretty pcw p connection =
     (let conn = trim_spaces connection in
      if length conn = 0 then (None, pcw)
      else
        let known = t_Has T (pcw_timeCacher pcw) (pretty p) in
        (case t_Upsert T (pcw_timeCacher pcw) (pretty p) (pcw_timeToLive pcw) of
           (Some _, tc) \<Rightarrow> (None, pcw\<lparr>pcw_timeCacher := tc\<rparr>)
         | (None, tc) \<Rightarrow> (if known then None else Some (p, conn), pcw\<lparr>pcw_timeCacher := tc\<rparr>)))"

definition doSweep_turn :: "'tc timecacher_ops \<Rightarrow> 'tc printConnectionsWatcher \<Rightarrow> 'tc printConnectionsWatcher" where
  "doSweep_turn T pcw = pcw\<lparr>pcw_timeCacher := t_Sweep T (pcw_timeCacher pcw)\<rparr>"

datatype 'tc ConnectionsWatcher = Printing "'tc printConnectionsWatcher" | Disabled

definition NewConnectionsWatcher :: "'tc \<Rightarrow> string \<Rightarrow> int \<Rightarrow> bool \<Rightarrow> watcher_error + 'tc ConnectionsWatcher" where
  "NewConnectionsWatcher emptyCache watcherType ttl hasLogger =
     (if watcherType = ''print'' then map_sum id Printing (NewPrintConnectionsWatcher emptyCache ttl hasLogger)
      else if watcherType = ''disabled'' \<or> watcherType = [] then Inr Disabled
      else Inl ErrUnknownConnectionWatcherType)"

definition watcher_NewKnownConnection ::
    "'tc timecacher_ops \<Rightarrow> (peer_id \<Rightarrow> string) \<Rightarrow> 'tc ConnectionsWatcher \<Rightarrow> peer_id \<Rightarrow> string
     \<Rightarrow> (peer_id \<times> string) option \<times> 'tc ConnectionsWatcher" where
  "watcher_NewKnownConnection T pretty w p connection =
     (case w of Disabled \<Rightarrow> (None, w)
      | Printing pcw \<Rightarrow> map_prod id Printing (print_NewKnownConnection T pretty pcw p connection))"

lemma dropWhile_all: "(\<forall>x \<in> set (dropWhile P s). P x) \<longleftrightarrow> (\<forall>x \<in> set s. P x)"
  by (induction s) auto

lemma trim_spaces_empty_iff: "trim_spaces s = [] \<longleftrightarrow> (\<forall>c \<in> set s. c = CHR '' '')"
  unfolding trim_spaces_def rev_is_Nil_conv dropWhile_eq_Nil_conv set_rev by (rule dropWhile_all)

text \<open>
  A peer that is printed is not printed again as long as the cache has it: after any number of other known connections,
  provided the cache keeps what was put.
\<close>

lemma known_connection_printed_once:
  assumes kept: "\<And>tc k d k'. t_Has T tc k \<Longrightarrow> t_Has T (snd (t_Upsert T tc k' d)) k"
    and put: "\<And>tc k d tc'. t_Upsert T tc k d = (None, tc') \<Longrightarrow> t_Has T tc' k"
    and "print_NewKnownConnection T pretty w p c = (Some x, w1)"
  shows "fst (print_NewKnownConnection T pretty (foldl (\<lambda>w (q, d). snd (print_NewKnownConnection T pretty w q d)) w1 others) p c') = None"
proof -
  have step: "t_Has T (pcw_timeCacher (snd (print_NewKnownConnection T pretty v q d))) k"
    if "t_Has T (pcw_timeCacher v) k" for v q d k
  proof -
    obtain e tc where u: "t_Upsert T (pcw_timeCacher v) (pretty q) (pcw_timeToLive v) = (e, tc)" by fastforce
    then have "t_Has T tc k" using kept [OF that, of "pretty q" "pcw_timeToLive v"] by simp
    then show ?thesis using that by (cases e) (auto simp: print_NewKnownConnection_def Let_def u)
  qed
  have "t_Has T (pcw_timeCacher w1) (pretty p)"
    using assms(3) put by (auto simp: print_NewKnownConnection_def Let_def split: if_splits prod.splits option.splits)
  then have "t_Has T (pcw_timeCacher (foldl (\<lambda>w (q, d). snd (print_NewKnownConnection T pretty w q d)) w1 others)) (pretty p)"
    by (induction others arbitrary: w1) (auto simp: step)
  then show ?thesis by (auto simp: print_NewKnownConnection_def Let_def split: prod.splits option.splits)
qed

end
