(* ===== verification/Discovery.thy ===== *)
theory Discovery
  imports Connection_Monitor
begin

text \<open>
  \<^verbatim>\<open>libp2p/discovery\<close>: the host that asks the sharder before it connects (\<^verbatim>\<open>hostWithConnectionManagement.go\<close>), the optimized
  discoverer and its process loop (\<^verbatim>\<open>optimizedKadDhtDiscoverer.go\<close>), the continuous one (\<^verbatim>\<open>continuousKadDhtDiscoverer.go\<close>),
  the nil one and the factory.

  The libp2p host is a record of operations on a network state, the Kademlia table of the library is what creating it and
  bootstrapping it answer. The intervals are in seconds.
\<close>

section \<open>The host with connection management\<close>

record addr_info =
  ai_ID :: peer_id
  ai_Addrs :: "string list"

record 'n host_ops =
  AddressToPeerInfo :: "string \<Rightarrow> string + addr_info"
  net_Peers :: "'n \<Rightarrow> peer_id list"
  net_Connected :: "'n \<Rightarrow> peer_id \<Rightarrow> bool"
  host_Connect :: "'n \<Rightarrow> addr_info \<Rightarrow> string option \<times> 'n"

record hostWithConnectionManagement =
  hwcm_sharder :: sharder

definition NewHostWithConnectionManagement ::
    "bool \<Rightarrow> sharder option \<Rightarrow> bool \<Rightarrow> p2p_error + hostWithConnectionManagement" where
  "NewHostWithConnectionManagement hasHost shd hasWatcher =
     (if \<not> hasHost then Inl ErrNilHost
      else (case shd of None \<Rightarrow> Inl ErrNilSharder
        | Some s \<Rightarrow> if \<not> hasWatcher then Inl ErrNilConnectionsWatcher else Inr \<lparr>hwcm_sharder = s\<rparr>))"

definition concatenateAddresses :: "string list \<Rightarrow> string" where
  "concatenateAddresses addresses = concat (map (\<lambda>ma. ma @ '' '') addresses)"

text \<open>\<^const>\<open>None\<close> when the sharder panics, else the error.\<close>

definition canConnectToPeer ::
    "(PeerDistance list \<Rightarrow> PeerDistance list) \<Rightarrow> (peer_id \<Rightarrow> string) \<Rightarrow> sharder \<Rightarrow> peer_id list \<Rightarrow> peer_id
     \<Rightarrow> p2p_error option option" where
  "canConnectToPeer srt pretty shd peers p = do {
     let allPeers = (if \<not> sharder_Has shd p peers then peers @ [p] else peers);
     evicted \<leftarrow> sharder_ComputeEvictionList srt pretty shd allPeers;
     Some (if sharder_Has shd p evicted then Some ErrUnwantedPeer else None)
   }"

text \<open>\<^verbatim>\<open>Connect\<close>: what is told to the watcher, the error, and the network afterwards.\<close>

definition hwcm_Connect ::
    "'n host_ops \<Rightarrow> (PeerDistance list \<Rightarrow> PeerDistance list) \<Rightarrow> (peer_id \<Rightarrow> string) \<Rightarrow> sharder \<Rightarrow> 'n \<Rightarrow> addr_info
     \<Rightarrow> ((peer_id \<times> string) \<times> p2p_error option \<times> 'n) option" where
  "hwcm_Connect H srt pretty shd n ai = do {
     let known = (ai_ID ai, concatenateAddresses (ai_Addrs ai));
     err \<leftarrow> canConnectToPeer srt pretty shd (net_Peers H n) (ai_ID ai);
     (case err of Some e \<Rightarrow> Some (known, Some e, n)
      | None \<Rightarrow> (case host_Connect H n ai of (e, n1) \<Rightarrow> Some (known, map_option ErrOther e, n1)))
   }"

definition hwcm_IsConnected :: "'n host_ops \<Rightarrow> 'n \<Rightarrow> addr_info \<Rightarrow> bool" where
  "hwcm_IsConnected H n ai = net_Connected H n (ai_ID ai)"

section \<open>Arguments of the discoverers\<close>

record ArgKadDht =
  kd_hasContext :: bool
  kd_hasHost :: bool
  kd_PeersRefreshInterval :: int
  kd_SeedersReconnectionInterval :: int
  kd_ProtocolID :: string
  kd_InitialPeersList :: "string list"
  kd_BucketSize :: uint32
  kd_RoutingTableRefresh :: int
  kd_KddSharder :: "sharder option"
  kd_hasConnectionWatcher :: bool
  kd_hasLogger :: bool

text \<open>Every sharder of the repository has the methods of \<^verbatim>\<open>discovery.Sharder\<close>, so that the type assertion succeeds.\<close>

definition prepareArguments :: "ArgKadDht \<Rightarrow> p2p_error + sharder" where
  "prepareArguments arg =
     (if \<not> kd_hasContext arg then Inl ErrNilContext
      else if \<not> kd_hasHost arg then Inl ErrNilHost
      else (case kd_KddSharder arg of None \<Rightarrow> Inl ErrNilSharder
        | Some s \<Rightarrow>
          if \<not> kd_hasConnectionWatcher arg then Inl ErrNilConnectionsWatcher
          else if kd_PeersRefreshInterval arg < 1 then Inl ErrInvalidValue
          else if kd_RoutingTableRefresh arg < 1 then Inl ErrInvalidValue
          else if \<not> kd_hasLogger arg then Inl ErrNilLogger
          else Inr s))"

section \<open>The optimized discoverer\<close>

datatype discovererStatus = statNotInitialized | statInitialized

record optimizedKadDhtDiscoverer =
  od_peersRefreshInterval :: int
  od_seedersReconnectionInterval :: int
  od_protocolID :: string
  od_initialPeersList :: "string list"
  od_bucketSize :: uint32
  od_routingTableRefresh :: int
  od_sharder :: sharder
  od_status :: discovererStatus

definition NewOptimizedKadDhtDiscoverer :: "ArgKadDht \<Rightarrow> p2p_error + optimizedKadDhtDiscoverer" where
  "NewOptimizedKadDhtDiscoverer arg =
     (case prepareArguments arg of Inl e \<Rightarrow> Inl e
      | Inr shd \<Rightarrow>
        if kd_SeedersReconnectionInterval arg < 1 then Inl ErrInvalidSeedersReconnectionInterval
        else
          let s = sharder_SetSeeders shd (kd_InitialPeersList arg) in
          (case NewHostWithConnectionManagement (kd_hasHost arg) (Some s) (kd_hasConnectionWatcher arg) of
             Inl e \<Rightarrow> Inl e
           | Inr _ \<Rightarrow> Inr
             \<lparr>od_peersRefreshInterval = kd_PeersRefreshInterval arg,
              od_seedersReconnectionInterval = kd_SeedersReconnectionInterval arg, od_protocolID = kd_ProtocolID arg,
              od_initialPeersList = kd_InitialPeersList arg, od_bucketSize = kd_BucketSize arg,
              od_routingTableRefresh = kd_RoutingTableRefresh arg, od_sharder = s, od_status = statNotInitialized\<rparr>))"

text \<open>\<open>create\<close> is what \<^verbatim>\<open>dht.New\<close> answers.\<close>

definition od_init :: "string option \<Rightarrow> optimizedKadDhtDiscoverer \<Rightarrow> p2p_error option \<times> optimizedKadDhtDiscoverer" where
  "od_init create okdd =
     (if od_status okdd \<noteq> statNotInitialized then (Some ErrPeerDiscoveryProcessAlreadyStarted, okdd)
      else (case create of Some e \<Rightarrow> (Some (ErrOther e), okdd)
            | None \<Rightarrow> (None, okdd\<lparr>od_status := statInitialized\<rparr>)))"

definition createChTimeSeedersReconnect :: "optimizedKadDhtDiscoverer \<Rightarrow> bool \<Rightarrow> int" where
  "createChTimeSeedersReconnect okdd isConnectedToSeeders =
     (if isConnectedToSeeders then od_seedersReconnectionInterval okdd else od_peersRefreshInterval okdd)"

text \<open>The two environments of a discoverer: the host, and the sorting and printing of ids that the sharder uses.\<close>

record 'n disc_env =
  d_host :: "'n host_ops"
  d_sort :: "PeerDistance list \<Rightarrow> PeerDistance list"
  d_pretty :: "peer_id \<Rightarrow> string"

definition connectToSeeder ::
    "'n disc_env \<Rightarrow> optimizedKadDhtDiscoverer \<Rightarrow> 'n \<Rightarrow> string \<Rightarrow> (p2p_error option \<times> 'n) option" where
  "connectToSeeder E okdd n seederAddress =
     (case AddressToPeerInfo (d_host E) seederAddress of Inl e \<Rightarrow> Some (Some (ErrOther e), n)
      | Inr seederInfo \<Rightarrow>
        if hwcm_IsConnected (d_host E) n seederInfo then Some (None, n)
        else map_option snd (hwcm_Connect (d_host E) (d_sort E) (d_pretty E) (od_sharder okdd) n seederInfo))"

text \<open>\<open>ctxDone\<close> says whether the context was found done after the attempt with that index.\<close>

fun seeders_loop ::
    "'n disc_env \<Rightarrow> optimizedKadDhtDiscoverer \<Rightarrow> (nat \<Rightarrow> bool) \<Rightarrow> nat \<Rightarrow> string list \<Rightarrow> bool \<Rightarrow> 'n \<Rightarrow> (bool \<times> 'n) option" where
  "seeders_loop E okdd ctxDone i [] connected n = Some (connected, n)"
| "seeders_loop E okdd ctxDone i (a # as) connected n = do {
     (err, n1) \<leftarrow> connectToSeeder E okdd n a;
     let connected1 = (connected \<or> err = None);
     if ctxDone i then Some (True, n1) else seeders_loop E okdd ctxDone (Suc i) as connected1 n1
   }"

definition tryToReconnectAtLeastToASeeder ::
    "'n disc_env \<Rightarrow> (nat \<Rightarrow> bool) \<Rightarrow> optimizedKadDhtDiscoverer \<Rightarrow> 'n \<Rightarrow> (bool \<times> 'n) option" where
  "tryToReconnectAtLeastToASeeder E ctxDone okdd n =
     (if od_status okdd \<noteq> statInitialized then Some (False, n)
      else if length (od_initialPeersList okdd) = 0 then Some (True, n)
      else seeders_loop E okdd ctxDone 0 (od_initialPeersList okdd) False n)"

text \<open>The interval until the next attempt to reach the seeders, and the network.\<close>

definition processSeedersReconnect ::
    "'n disc_env \<Rightarrow> (nat \<Rightarrow> bool) \<Rightarrow> optimizedKadDhtDiscoverer \<Rightarrow> 'n \<Rightarrow> (int \<times> 'n) option" where
  "processSeedersReconnect E ctxDone okdd n = do {
     (isConnectedToSeeders, n1) \<leftarrow> tryToReconnectAtLeastToASeeder E ctxDone okdd n;
     Some (createChTimeSeedersReconnect okdd isConnectedToSeeders, n1)
   }"

text \<open>\<open>findPeers\<close> counts the calls of the table's \<^verbatim>\<open>Bootstrap\<close>, whose error is only logged.\<close>

definition findPeers :: "optimizedKadDhtDiscoverer \<Rightarrow> nat" where
  "findPeers okdd = (if od_status okdd \<noteq> statInitialized then 0 else 1)"

text \<open>The answer to the caller of \<^verbatim>\<open>Bootstrap\<close>, the next interval, the lookups, the discoverer and the network.\<close>

definition processInit ::
    "'n disc_env \<Rightarrow> (nat \<Rightarrow> bool) \<Rightarrow> string option \<Rightarrow> optimizedKadDhtDiscoverer \<Rightarrow> 'n
     \<Rightarrow> (p2p_error option \<times> int \<times> nat \<times> optimizedKadDhtDiscoverer \<times> 'n) option" where
  "processInit E ctxDone create okdd n =
     (case od_init create okdd of
        (Some e, o1) \<Rightarrow> Some (Some e, createChTimeSeedersReconnect o1 False, 0, o1, n)
      | (None, o1) \<Rightarrow> do {
          (ch, n1) \<leftarrow> processSeedersReconnect E ctxDone o1 n;
          Some (None, ch, findPeers o1, o1, n1)
        })"

text \<open>
  The process loop and the callers of \<^verbatim>\<open>Bootstrap\<close>. A caller first offers itself on \<^verbatim>\<open>chanInit\<close>; once the loop takes it, the loop
  runs \<^const>\<open>processInit\<close>, which answers exactly this caller before anything else is taken. So a caller is either
  still offering itself or answered. When the context is done the loop returns; its last offer on \<^verbatim>\<open>errChanInit\<close> finds nobody
  who waits there.
\<close>

record 'n od_state =
  od :: optimizedKadDhtDiscoverer
  net :: 'n
  reconnectIn :: int
  lookups :: nat
  atInit :: "nat set"
  answers :: "(nat \<times> p2p_error option) list"
  loopRunning :: bool

inductive od_step :: "'n disc_env \<Rightarrow> 'n od_state \<Rightarrow> 'n od_state \<Rightarrow> bool" for E :: "'n disc_env" where
  called: "c \<notin> atInit s \<Longrightarrow> c \<notin> fst ` set (answers s) \<Longrightarrow> od_step E s (s\<lparr>atInit := insert c (atInit s)\<rparr>)"
| taken: "loopRunning s \<Longrightarrow> c \<in> atInit s \<Longrightarrow>
    processInit E ctxDone create (od s) (net s) = Some (r, ch, k, o1, n1) \<Longrightarrow>
    od_step E s (s\<lparr>od := o1, net := n1, reconnectIn := ch, lookups := lookups s + k, atInit := atInit s - {c},
      answers := answers s @ [(c, r)]\<rparr>)"
| seeders: "loopRunning s \<Longrightarrow> processSeedersReconnect E ctxDone (od s) (net s) = Some (ch, n1) \<Longrightarrow>
    od_step E s (s\<lparr>net := n1, reconnectIn := ch\<rparr>)"
| find_peers: "loopRunning s \<Longrightarrow> od_step E s (s\<lparr>lookups := lookups s + findPeers (od s)\<rparr>)"
| ctx_done: "loopRunning s \<Longrightarrow> od_step E s (s\<lparr>loopRunning := False\<rparr>)"

definition od_start :: "optimizedKadDhtDiscoverer \<Rightarrow> 'n \<Rightarrow> 'n od_state" where
  "od_start okdd n = \<lparr>od = okdd, net = n, reconnectIn = od_seedersReconnectionInterval okdd, lookups = 0, atInit = {},
     answers = [], loopRunning = True\<rparr>"

text \<open>The answers so far: failures to create the table, at most one success, and refusals after it.\<close>

definition answers_ok :: "bool \<Rightarrow> p2p_error option list \<Rightarrow> bool" where
  "answers_ok initialized rs \<longleftrightarrow>
     (\<exists>failed refused. list_all (\<lambda>r. \<exists>e. r = Some (ErrOther e)) failed \<and>
        list_all (\<lambda>r. r = Some ErrPeerDiscoveryProcessAlreadyStarted) refused \<and>
        rs = failed @ (if initialized then None # refused else []) \<and> (\<not> initialized \<longrightarrow> refused = []))"

lemma answers_ok_snoc:
  "answers_ok False rs \<Longrightarrow> answers_ok False (rs @ [Some (ErrOther e)])"
  "answers_ok False rs \<Longrightarrow> answers_ok True (rs @ [None])"
  "answers_ok True rs \<Longrightarrow> answers_ok True (rs @ [Some ErrPeerDiscoveryProcessAlreadyStarted])"
proof -
  show "answers_ok False rs \<Longrightarrow> answers_ok False (rs @ [Some (ErrOther e)])" by (simp add: answers_ok_def)
  show "answers_ok False rs \<Longrightarrow> answers_ok True (rs @ [None])"
    unfolding answers_ok_def by (intro exI [of _ rs] exI [of _ "[]"]) auto
  assume "answers_ok True rs"
  then obtain failed refused where "list_all (\<lambda>r. \<exists>e. r = Some (ErrOther e)) failed"
    "list_all (\<lambda>r. r = Some ErrPeerDiscoveryProcessAlreadyStarted) refused" "rs = failed @ None # refused"
    by (auto simp: answers_ok_def)
  then show "answers_ok True (rs @ [Some ErrPeerDiscoveryProcessAlreadyStarted])"
    unfolding answers_ok_def
    by (intro exI [of _ failed] exI [of _ "refused @ [Some ErrPeerDiscoveryProcessAlreadyStarted]"]) simp
qed

lemma processInit_status:
  assumes "processInit E ctxDone create okdd n = Some (r, ch, k, o1, n1)"
  shows "r = fst (od_init create okdd)" "o1 = snd (od_init create okdd)"
  using assms by (auto simp: processInit_def split: prod.splits option.splits Option.bind_splits)

lemma od_step_answers:
  assumes "od_step E s s'" "answers_ok (od_status (od s) = statInitialized) (map snd (answers s))"
  shows "answers_ok (od_status (od s') = statInitialized) (map snd (answers s'))"
  using assms(1)
proof cases
  case (taken c ctxDone create r ch k o1 n1)
  note st = processInit_status [OF taken(4)]
  show ?thesis
    using assms(2) answers_ok_snoc(1) [of "map snd (answers s)"] answers_ok_snoc(2,3) [of "map snd (answers s)"]
    by (cases "od_status (od s)"; cases create) (simp_all add: taken(1) st od_init_def)
qed (use assms(2) in simp_all)

lemma od_reach_answers:
  assumes "(od_step E)\<^sup>*\<^sup>* (od_start okdd n) s" "NewOptimizedKadDhtDiscoverer arg = Inr okdd"
  shows "answers_ok (od_status (od s) = statInitialized) (map snd (answers s))"
  using assms(1)
proof (induction rule: rtranclp_induct)
  case base
  from assms(2) have "od_status okdd = statNotInitialized"
    by (auto simp: NewOptimizedKadDhtDiscoverer_def Let_def split: sum.splits if_splits)
  then show ?case by (simp add: od_start_def answers_ok_def)
next
  case (step s s')
  then show ?case using od_step_answers by blast
qed


definition example_kad :: ArgKadDht where
  "example_kad = \<lparr>kd_hasContext = True, kd_hasHost = True, kd_PeersRefreshInterval = 2,
     kd_SeedersReconnectionInterval = 300, kd_ProtocolID = ''/a'', kd_InitialPeersList = [], kd_BucketSize = 10,
     kd_RoutingTableRefresh = 3, kd_KddSharder = Some NilList, kd_hasConnectionWatcher = True, kd_hasLogger = True\<rparr>"

definition example_od :: optimizedKadDhtDiscoverer where
  "example_od = \<lparr>od_peersRefreshInterval = 2, od_seedersReconnectionInterval = 300, od_protocolID = ''/a'',
     od_initialPeersList = [], od_bucketSize = 10, od_routingTableRefresh = 3, od_sharder = NilList,
     od_status = statNotInitialized\<rparr>"

lemma example_od_new: "NewOptimizedKadDhtDiscoverer example_kad = Inr example_od"
  by (simp add: NewOptimizedKadDhtDiscoverer_def prepareArguments_def example_kad_def example_od_def
      NewHostWithConnectionManagement_def sharder_SetSeeders_def)

definition example_env :: "unit disc_env" where
  "example_env = \<lparr>d_host = \<lparr>AddressToPeerInfo = (\<lambda>a. Inl a), net_Peers = (\<lambda>_. []), net_Connected = (\<lambda>_ _. False),
     host_Connect = (\<lambda>n _. (None, n))\<rparr>, d_sort = insertionSort pd_Distance, d_pretty = id\<rparr>"

definition example_started :: "unit od_state" where
  "example_started = \<lparr>od = example_od\<lparr>od_status := statInitialized\<rparr>, net = (), reconnectIn = 300, lookups = 1,
     atInit = {}, answers = [(7, None)], loopRunning = True\<rparr>"

lemma example_started_reached: "(od_step example_env)\<^sup>*\<^sup>* (od_start example_od ()) example_started"
proof -
  have init: "processInit example_env (\<lambda>_. False) None example_od () =
      Some (None, 300, 1, example_od\<lparr>od_status := statInitialized\<rparr>, ())"
    by (simp add: processInit_def od_init_def example_od_def processSeedersReconnect_def findPeers_def
        tryToReconnectAtLeastToASeeder_def createChTimeSeedersReconnect_def)
  have "od_step example_env (od_start example_od ()) ((od_start example_od ())\<lparr>atInit := {7}\<rparr>)"
    using called [of 7 "od_start example_od ()"] by (simp add: od_start_def)
  moreover have "od_step example_env ((od_start example_od ())\<lparr>atInit := {7}\<rparr>) example_started"
    using taken [of "(od_start example_od ())\<lparr>atInit := {7}\<rparr>" 7 example_env "\<lambda>_. False" None] init
    by (simp add: od_start_def example_started_def)
  ultimately show ?thesis by (meson converse_rtranclp_into_rtranclp r_into_rtranclp)
qed


text \<open>Once the loop has returned, nobody takes the callers any more.\<close>

lemma stopped_keeps_callers:
  assumes "(od_step E)\<^sup>*\<^sup>* s s'" "\<not> loopRunning s" "c \<in> atInit s" "c \<notin> fst ` set (answers s)"
  shows "\<not> loopRunning s' \<and> c \<in> atInit s' \<and> c \<notin> fst ` set (answers s')"
  using assms(1)
proof (induction rule: rtranclp_induct)
  case base
  show ?case using assms(2-4) by simp
next
  case (step s1 s2)
  from step(2) step(3) show ?case by cases auto
qed

text \<open>
  A call of \<^verbatim>\<open>Bootstrap\<close> of the optimized discoverer that is not taken before the context is done never returns: from
  every state of the running loop in which a caller waits, the loop may return, and in everything that
  happens afterwards the caller is still waiting, unanswered. The same holds for a call that comes later.
\<close>

theorem optimized_bootstrap_blocks:
  assumes "loopRunning s" "c \<in> atInit s" "c \<notin> fst ` set (answers s)"
  shows "\<exists>s1. od_step E s s1 \<and>
    {s2. (od_step E)\<^sup>*\<^sup>* s1 s2} \<subseteq> {s2. c \<in> atInit s2 \<and> c \<notin> fst ` set (answers s2)}"
proof (intro exI conjI subsetI CollectI)
  let ?s = "s\<lparr>loopRunning := False\<rparr>"
  show "od_step E s ?s" using ctx_done [OF assms(1)] .
  fix s2 assume "s2 \<in> {s2. (od_step E)\<^sup>*\<^sup>* ?s s2}"
  then have "(od_step E)\<^sup>*\<^sup>* ?s s2" by simp
  from stopped_keeps_callers [OF this, of c] assms(2,3)
  show "c \<in> atInit s2" "c \<notin> fst ` set (answers s2)" by simp_all
qed

theorem optimized_bootstrap_blocks_witness:
  "\<exists>s1. od_step example_env ((od_start example_od ())\<lparr>atInit := {7}\<rparr>) s1 \<and>
    {s2. (od_step example_env)\<^sup>*\<^sup>* s1 s2} \<subseteq> {s2. 7 \<in> atInit s2 \<and> 7 \<notin> fst ` set (answers s2)}"
  by (rule optimized_bootstrap_blocks) (simp_all add: od_start_def)

section \<open>Admission and eviction agree\<close>

lemma sharder_Has_iff: "sharder_Has s p ps \<longleftrightarrow> s \<noteq> NilList \<and> p \<in> set ps"
  by (cases s) (auto simp: sharder_Has_def has_def list_ex_iff)

lemma with_preferred_NilList [simp]: "with_preferred ph s = NilList \<longleftrightarrow> s = NilList"
  by (cases s) (simp_all add: with_preferred_def)

lemma Contains_PutConnectionAddress: "Contains (PutConnectionAddress a ph p c) = Contains ph"
  by (simp add: PutConnectionAddress_eq Contains_def fun_eq_iff)

lemma with_preferred_cong: "Contains ph = Contains ph' \<Longrightarrow> with_preferred ph s = with_preferred ph' s"
  by (cases s) (simp_all add: with_preferred_def)



section \<open>The continuous discoverer\<close>

record continuousKadDhtDiscoverer =
  cd_kadDHT :: bool
  cd_refreshCancel :: bool
  cd_peersRefreshInterval :: int
  cd_protocolID :: string
  cd_initialPeersList :: "string list"
  cd_bucketSize :: uint32
  cd_routingTableRefresh :: int
  cd_sharder :: sharder

definition NewContinuousKadDhtDiscoverer :: "ArgKadDht \<Rightarrow> p2p_error + continuousKadDhtDiscoverer" where
  "NewContinuousKadDhtDiscoverer arg =
     (case prepareArguments arg of Inl e \<Rightarrow> Inl e
      | Inr shd \<Rightarrow> Inr
        \<lparr>cd_kadDHT = False, cd_refreshCancel = False, cd_peersRefreshInterval = kd_PeersRefreshInterval arg,
         cd_protocolID = kd_ProtocolID arg, cd_initialPeersList = kd_InitialPeersList arg,
         cd_bucketSize = kd_BucketSize arg, cd_routingTableRefresh = kd_RoutingTableRefresh arg,
         cd_sharder = sharder_SetSeeders shd (kd_InitialPeersList arg)\<rparr>)"

text \<open>\<open>create\<close> is what \<^verbatim>\<open>dht.New\<close> answers, \<open>closed\<close> what closing the table answers; the host and the watcher were checked before.\<close>

definition startDHT ::
    "string option \<Rightarrow> continuousKadDhtDiscoverer \<Rightarrow> p2p_error option \<times> continuousKadDhtDiscoverer" where
  "startDHT create ckdd =
     (case NewHostWithConnectionManagement True (Some (cd_sharder ckdd)) True of
        Inl e \<Rightarrow> (Some e, ckdd)
      | Inr _ \<Rightarrow> (case create of Some e \<Rightarrow> (Some (ErrOther e), ckdd)
                 | None \<Rightarrow> (None, ckdd\<lparr>cd_kadDHT := True, cd_refreshCancel := True\<rparr>)))"

definition cd_Bootstrap ::
    "string option \<Rightarrow> continuousKadDhtDiscoverer \<Rightarrow> p2p_error option \<times> continuousKadDhtDiscoverer" where
  "cd_Bootstrap create ckdd =
     (if cd_kadDHT ckdd then (Some ErrPeerDiscoveryProcessAlreadyStarted, ckdd) else startDHT create ckdd)"

text \<open>\<^const>\<open>None\<close> if the table is nil when it is closed.\<close>

definition stopDHT ::
    "string option \<Rightarrow> continuousKadDhtDiscoverer \<Rightarrow> (p2p_error option \<times> continuousKadDhtDiscoverer) option" where
  "stopDHT closed ckdd =
     (if \<not> cd_refreshCancel ckdd then Some (None, ckdd)
      else if \<not> cd_kadDHT ckdd then None
      else Some (map_option ErrOther closed, ckdd\<lparr>cd_refreshCancel := False, cd_kadDHT := False\<rparr>))"

lemma continuous_start_stop:
  "cd_kadDHT ckdd = cd_refreshCancel ckdd \<Longrightarrow> cd_Bootstrap create ckdd = (e, c1) \<Longrightarrow> cd_kadDHT c1 = cd_refreshCancel c1"
  "cd_kadDHT ckdd = cd_refreshCancel ckdd \<Longrightarrow> \<exists>e c1. stopDHT closed ckdd = Some (e, c1) \<and> \<not> cd_kadDHT c1 \<and> \<not> cd_refreshCancel c1"
  by (auto simp: cd_Bootstrap_def startDHT_def stopDHT_def NewHostWithConnectionManagement_def split: option.splits if_splits)

text \<open>
  \<^verbatim>\<open>tryConnectToSeeder\<close>: \<open>connect i a\<close> says whether the \<open>i\<close>-th attempt succeeds, on the address \<open>a\<close>, and \<open>ctxDone i\<close> whether the
  context is done after it. The loop may run for ever, hence the partial function; the result is the number of attempts
  and the address that was reached, if the loop was not ended by the context. An index out of range is \<^const>\<open>None\<close> too.
\<close>

partial_function (option) tryConnectToSeeder ::
    "(nat \<Rightarrow> string \<Rightarrow> bool) \<Rightarrow> (nat \<Rightarrow> bool) \<Rightarrow> string list \<Rightarrow> nat \<Rightarrow> nat \<Rightarrow> (nat \<times> string option) option" where
  "tryConnectToSeeder connect ctxDone initialPeersList i startIndex =
     (if startIndex < length initialPeersList then
        (let initialPeer = initialPeersList ! startIndex in
         if connect i initialPeer then Some (Suc i, Some initialPeer)
         else if ctxDone i then Some (Suc i, None)
         else tryConnectToSeeder connect ctxDone initialPeersList (Suc i)
                ((startIndex + 1) mod length initialPeersList))
      else None)"

text \<open>The channel of \<^verbatim>\<open>connectToOnePeerFromInitialPeersList\<close> is ready at once when there are no seeders.\<close>

definition connectToOnePeerFromInitialPeersList ::
    "(nat \<Rightarrow> string \<Rightarrow> bool) \<Rightarrow> (nat \<Rightarrow> bool) \<Rightarrow> string list \<Rightarrow> (nat \<times> string option) option" where
  "connectToOnePeerFromInitialPeersList connect ctxDone initialPeersList =
     (if length initialPeersList = 0 then Some (0, None)
      else tryConnectToSeeder connect ctxDone initialPeersList 0 0)"

text \<open>One turn of \<^verbatim>\<open>bootstrap\<close> decides whether to reconnect: only when the lookup of the table fails.\<close>

definition shouldReconnect :: "bool \<Rightarrow> continuousKadDhtDiscoverer \<Rightarrow> bool" where
  "shouldReconnect lookupFailure ckdd = (cd_kadDHT ckdd \<and> lookupFailure)"

lemma round_robin_mod:
  fixes k m j :: nat
  assumes "k < m" "j < m"
  shows "(j + m - k) mod m = (if k \<le> j then j - k else j + m - k)"
proof (cases "k \<le> j")
  case True
  then have "j + m - k = (j - k) + m" by simp
  then have "(j + m - k) mod m = (j - k) mod m" by simp
  with True assms show ?thesis by simp
qed (use assms in simp)

lemma round_robin_distance:
  fixes k m j :: nat
  assumes "k < m" "j < m" "k \<noteq> j"
  shows "(j + m - (k + 1) mod m) mod m + 1 = (j + m - k) mod m"
proof (cases "Suc k = m")
  case True
  then show ?thesis using assms round_robin_mod [of k m j] by simp
next
  case False
  then show ?thesis using assms round_robin_mod [of k m j] round_robin_mod [of "k + 1" m j] by auto
qed

lemma seeder_found_reachable:
  assumes "j < length L" "\<And>i. t \<le> i \<Longrightarrow> connect i (L ! j)" "\<And>i. \<not> ctxDone i"
  shows "k < length L \<Longrightarrow> t \<le> i \<Longrightarrow> (j + length L - k) mod length L = d \<Longrightarrow>
    \<exists>n a. tryConnectToSeeder connect ctxDone L i k = Some (n, Some a) \<and> n \<le> i + d + 1"
proof (induction d arbitrary: i k)
  case 0
  then have "k = j" using assms(1) round_robin_distance [of k "length L" j] by fastforce
  with assms 0 show ?case by (subst tryConnectToSeeder.simps) simp
next
  case (Suc d)
  then have "k \<noteq> j" by auto
  let ?k = "(k + 1) mod length L"
  have "(j + length L - ?k) mod length L = d"
    using round_robin_distance [OF Suc(2) assms(1) \<open>k \<noteq> j\<close>] Suc(4) by simp
  from Suc.IH [OF _ _ this, of "Suc i"] Suc(2,3)
  obtain n a where "tryConnectToSeeder connect ctxDone L (Suc i) ?k = Some (n, Some a)" "n \<le> Suc i + d + 1"
    by (metis le_SucI le_less_trans mod_less_divisor zero_le)
  then show ?case using Suc(2) assms(3) [of i] by (subst tryConnectToSeeder.simps) (auto simp: Let_def)
qed

lemma seeder_found_after:
  assumes "j < length L" "\<And>i. t \<le> i \<Longrightarrow> connect i (L ! j)" "\<And>i. \<not> ctxDone i" "k < length L" "i \<le> t"
  shows "\<exists>n a. tryConnectToSeeder connect ctxDone L i k = Some (n, Some a) \<and> n \<le> t + length L"
  using assms(5,4)
proof (induction i arbitrary: k rule: inc_induct)
  case base
  have "(j + length L - k) mod length L < length L" using assms(1) by (metis mod_less_divisor gr_implies_not0 neq0_conv)
  with seeder_found_reachable [of j L t connect ctxDone k t, OF assms(1,2,3) base] show ?case by fastforce
next
  case (step i)
  have "(k + 1) mod length L < length L" using step(4) by (meson le_less_trans mod_less_divisor zero_le)
  from step.IH [OF this] step(2,4) assms(3) [of i] show ?case by (subst tryConnectToSeeder.simps) (auto simp: Let_def)
qed

definition seeder_post :: "(nat \<Rightarrow> string \<Rightarrow> bool) \<Rightarrow> (nat \<Rightarrow> bool) \<Rightarrow> string list \<Rightarrow> nat \<Rightarrow> nat \<times> string option \<Rightarrow> bool" where
  "seeder_post connect ctxDone L i y \<longleftrightarrow>
     i < fst y \<and> (case snd y of Some a \<Rightarrow> a \<in> set L \<and> connect (fst y - 1) a | None \<Rightarrow> ctxDone (fst y - 1))"

lemma seeder_result:
  assumes "tryConnectToSeeder connect ctxDone L i k = Some y"
  shows "seeder_post connect ctxDone L i y"
proof (rule tryConnectToSeeder.raw_induct [where P = "\<lambda>connect ctxDone L i k y. seeder_post connect ctxDone L i y", OF _ assms])
  fix loop :: "(nat \<Rightarrow> string \<Rightarrow> bool) \<Rightarrow> (nat \<Rightarrow> bool) \<Rightarrow> string list \<Rightarrow> nat \<Rightarrow> nat \<Rightarrow> (nat \<times> string option) option"
    and connect :: "nat \<Rightarrow> string \<Rightarrow> bool" and ctxDone L i k y
  assume IH: "\<And>connect ctxDone L i k y. loop connect ctxDone L i k = Some y \<Longrightarrow> seeder_post connect ctxDone L i y"
    and eq: "(if k < length L then
        (let initialPeer = L ! k in
         if connect i initialPeer then Some (Suc i, Some initialPeer)
         else if ctxDone i then Some (Suc i, None)
         else loop connect ctxDone L (Suc i) ((k + 1) mod length L))
      else None) = Some y"
  show "seeder_post connect ctxDone L i y"
  proof (cases "k < length L \<and> \<not> connect i (L ! k) \<and> \<not> ctxDone i")
    case True
    then have "loop connect ctxDone L (Suc i) ((k + 1) mod length L) = Some y" using eq by (simp add: Let_def)
    from IH [OF this] show ?thesis by (simp add: seeder_post_def)
  next
    case False
    with eq show ?thesis by (auto simp: Let_def seeder_post_def split: if_splits)
  qed
qed

lemma seeder_loop_diverges:
  assumes "\<And>i a. a \<in> set L \<Longrightarrow> \<not> connect i a" "\<And>i. \<not> ctxDone i"
  shows "tryConnectToSeeder connect ctxDone L i k = None"
proof (cases "tryConnectToSeeder connect ctxDone L i k")
  case (Some nr)
  then show ?thesis using seeder_result [OF Some] assms by (auto simp: seeder_post_def split: option.splits)
qed

text \<open>
  C32. Connecting to a seeder ends: if from some attempt on one of the seeders can be reached and the context is not done, the loop
  over the seeders returns, after at most one more round, connected to a seeder for which that attempt succeeded.
\<close>

theorem seeder_loop_terminates:
  assumes "j < length L" "\<And>i. t \<le> i \<Longrightarrow> connect i (L ! j)" "\<And>i. \<not> ctxDone i"
  shows "\<exists>n a. connectToOnePeerFromInitialPeersList connect ctxDone L = Some (n, Some a) \<and> 0 < n \<and> n \<le> t + length L \<and>
    a \<in> set L \<and> connect (n - 1) a"
proof -
  obtain n a where r: "tryConnectToSeeder connect ctxDone L 0 0 = Some (n, Some a)" "n \<le> t + length L"
    using seeder_found_after [of j L t connect ctxDone 0 0, OF assms] assms(1) by fastforce
  with seeder_result [OF r(1)] assms(1) show ?thesis
    by (auto simp: connectToOnePeerFromInitialPeersList_def seeder_post_def)
qed

theorem seeder_loop_terminates_witness:
  "\<exists>n a. connectToOnePeerFromInitialPeersList (\<lambda>i s. s = ''y'' \<and> 5 \<le> i) (\<lambda>_. False) [''x'', ''y''] = Some (n, Some a) \<and>
    0 < n \<and> n \<le> 5 + 2 \<and> a \<in> {''x'', ''y''} \<and> a = ''y'' \<and> 5 \<le> n - 1"
  using seeder_loop_terminates [of 1 "[''x'', ''y'']" 5 "\<lambda>i s. s = ''y'' \<and> 5 \<le> i" "\<lambda>_. False"] by simp

section \<open>The factory\<close>

datatype peerDiscoverer =
  NilDiscoverer | LegacyDiscoverer continuousKadDhtDiscoverer | OptimizedDiscoverer optimizedKadDhtDiscoverer

record KadDhtPeerDiscoveryConfig =
  kc_Enabled :: bool
  kc_Type :: string
  kc_RefreshIntervalInSec :: uint32
  kc_ProtocolIDs :: "string list"
  kc_InitialPeerList :: "string list"
  kc_BucketSize :: uint32
  kc_RoutingTableRefreshIntervalInSec :: uint32

record ArgsPeerDiscoverer =
  pd_hasContext :: bool
  pd_hasHost :: bool
  pd_Sharder :: "sharder option"
  pd_KadDht :: KadDhtPeerDiscoveryConfig
  pd_ShardingType :: string
  pd_hasConnectionsWatcher :: bool
  pd_hasLogger :: bool

definition createKadDhtDiscoverer :: "string \<Rightarrow> ArgKadDht \<Rightarrow> p2p_error + peerDiscoverer" where
  "createKadDhtDiscoverer discovererType arg =
     (if discovererType = ''legacy'' then map_sum id LegacyDiscoverer (NewContinuousKadDhtDiscoverer arg)
      else if discovererType = ''optimized'' then map_sum id OptimizedDiscoverer (NewOptimizedKadDhtDiscoverer arg)
      else Inl ErrInvalidValue)"

definition kad_arg :: "ArgsPeerDiscoverer \<Rightarrow> string \<Rightarrow> ArgKadDht" where
  "kad_arg args protocolID =
     (let cfg = pd_KadDht args in
      \<lparr>kd_hasContext = pd_hasContext args, kd_hasHost = pd_hasHost args,
       kd_PeersRefreshInterval = uint (kc_RefreshIntervalInSec cfg), kd_SeedersReconnectionInterval = 300,
       kd_ProtocolID = protocolID, kd_InitialPeersList = kc_InitialPeerList cfg, kd_BucketSize = kc_BucketSize cfg,
       kd_RoutingTableRefresh = uint (kc_RoutingTableRefreshIntervalInSec cfg), kd_KddSharder = pd_Sharder args,
       kd_hasConnectionWatcher = pd_hasConnectionsWatcher args, kd_hasLogger = pd_hasLogger args\<rparr>)"

definition createKadDhtPeerDiscoverer :: "ArgsPeerDiscoverer \<Rightarrow> string \<Rightarrow> p2p_error + peerDiscoverer" where
  "createKadDhtPeerDiscoverer args protocolID =
     (if pd_ShardingType args \<in> {''ListsSharder'', ''OneListSharder'', ''NilListSharder''}
      then createKadDhtDiscoverer (kc_Type (pd_KadDht args)) (kad_arg args protocolID)
      else Inl ErrInvalidValue)"

fun createAll :: "ArgsPeerDiscoverer \<Rightarrow> string list \<Rightarrow> p2p_error + peerDiscoverer list" where
  "createAll args [] = Inr []"
| "createAll args (i # ids) =
     (case createKadDhtPeerDiscoverer args i of Inl e \<Rightarrow> Inl e
      | Inr d \<Rightarrow> (case createAll args ids of Inl e \<Rightarrow> Inl e | Inr ds \<Rightarrow> Inr (d # ds)))"

definition NewPeerDiscoverers :: "ArgsPeerDiscoverer \<Rightarrow> p2p_error + peerDiscoverer list" where
  "NewPeerDiscoverers args =
     (if \<not> pd_hasLogger args then Inl ErrNilLogger
      else if kc_Enabled (pd_KadDht args) then
        (if length (kc_ProtocolIDs (pd_KadDht args)) = 0 then Inl ErrInvalidConfig
         else createAll args (kc_ProtocolIDs (pd_KadDht args)))
      else Inr [NilDiscoverer])"

lemma createAll_protocols:
  "createAll args ids = Inr ds \<Longrightarrow> kc_Type (pd_KadDht args) = ''optimized'' \<Longrightarrow>
   \<exists>os. ds = map OptimizedDiscoverer os \<and> map od_protocolID os = ids"
proof (induction ids arbitrary: ds)
  case (Cons i ids)
  then obtain d ds' where d: "createKadDhtPeerDiscoverer args i = Inr d" "createAll args ids = Inr ds'" "ds = d # ds'"
    by (auto split: sum.splits)
  then obtain os where os: "ds' = map OptimizedDiscoverer os" "map od_protocolID os = ids" using Cons by blast
  from d(1) Cons(3) obtain okdd where "NewOptimizedKadDhtDiscoverer (kad_arg args i) = Inr okdd" "d = OptimizedDiscoverer okdd"
    by (auto simp: createKadDhtPeerDiscoverer_def createKadDhtDiscoverer_def map_sum_def split: if_splits sum.splits)
  moreover from this have "od_protocolID okdd = i"
    by (auto simp: NewOptimizedKadDhtDiscoverer_def kad_arg_def Let_def split: sum.splits if_splits)
  ultimately show ?case using d(3) os by (intro exI [of _ "okdd # os"]) simp
qed simp

end
