(* ===== verification/Ports.thy ===== *)
theory Ports
  imports Prelude
begin

text \<open>
  \<^verbatim>\<open>libp2p/ports.go\<close> and the listening addresses of \<^verbatim>\<open>libp2p/netMessenger.go\<close> (\<^verbatim>\<open>parseTransportOptions\<close>), and
  \<^verbatim>\<open>libp2p/resourceLimiter\<close>: the parts of the configuration that are parsed.

  Whether a port is free, and the shuffling of the ports (a library), are arguments; of the shuffling only that it
  permutes is used.
\<close>

section \<open>Numbers\<close>

text \<open>\<^verbatim>\<open>strconv.Atoi\<close>: an optional sign and decimal digits, in the range of \<^verbatim>\<open>int\<close>.\<close>

definition is_digit :: "char \<Rightarrow> bool" where
  "is_digit c \<longleftrightarrow> 48 \<le> (of_char c :: nat) \<and> (of_char c :: nat) \<le> 57"

definition digits_value :: "string \<Rightarrow> nat" where
  "digits_value ds = foldl (\<lambda>n c. 10 * n + (of_char c - 48)) 0 ds"

definition Atoi :: "string \<Rightarrow> int option" where
  "Atoi s =
     (let (neg, ds) = (case s of c # cs \<Rightarrow> if c = CHR ''-'' then (True, cs) else if c = CHR ''+'' then (False, cs) else (False, s)
                       | [] \<Rightarrow> (False, [])) in
      if ds = [] \<or> \<not> list_all is_digit ds then None
      else
        let v = int (digits_value ds) in
        if neg then (if v \<le> 2 ^ 63 then Some (- v) else None)
        else (if v < 2 ^ 63 then Some v else None))"

lemma digits_value_snoc: "digits_value (ds @ [c]) = 10 * digits_value ds + (of_char c - 48)"
  by (simp add: digits_value_def)

lemma of_char_digit: "d < 10 \<Longrightarrow> (of_char (char_of (48 + d) :: char) :: nat) = 48 + d"
  by simp

lemma show_nat_digits: "list_all is_digit (show_nat n) \<and> show_nat n \<noteq> [] \<and> digits_value (show_nat n) = n"
proof (induction n rule: show_nat.induct)
  case (1 n)
  show ?case
  proof (cases "n < 10")
    case True
    then show ?thesis by (simp add: show_nat.simps [of n] is_digit_def digits_value_def)
  next
    case False
    then show ?thesis using 1 [OF False]
      by (simp add: show_nat.simps [of n] is_digit_def digits_value_snoc)
  qed
qed

lemma not_digit: "\<not> is_digit CHR ''-''" "\<not> is_digit CHR ''+''"
  by (simp_all add: is_digit_def)

lemma show_nat_no_sign: "CHR ''-'' \<notin> set (show_nat n)" "CHR ''+'' \<notin> set (show_nat n)"
  using show_nat_digits [of n] not_digit by (auto simp: list_all_iff)

lemma Atoi_digits:
  assumes "list_all is_digit ds" "ds \<noteq> []"
  shows "Atoi ds = (if int (digits_value ds) < 2 ^ 63 then Some (int (digits_value ds)) else None)"
proof -
  obtain c cs where "ds = c # cs" using assms(2) by (cases ds) auto
  moreover from this assms(1) not_digit have "c \<noteq> CHR ''-''" "c \<noteq> CHR ''+''" by auto
  ultimately show ?thesis using assms by (simp add: Atoi_def)
qed

lemma Atoi_show_nat: "n < 2 ^ 63 \<Longrightarrow> Atoi (show_nat n) = Some (int n)"
  using Atoi_digits [of "show_nat n"] show_nat_digits [of n] by simp

lemma Atoi_None_dash:
  assumes "list_all is_digit a" "a \<noteq> []"
  shows "Atoi (a @ CHR ''-'' # b) = None"
proof -
  obtain c cs where "a = c # cs" using assms(2) by (cases a) auto
  moreover from this assms(1) not_digit have "c \<noteq> CHR ''-''" "c \<noteq> CHR ''+''" by auto
  ultimately show ?thesis by (simp add: Atoi_def not_digit)
qed

lemma str_split_one: "sep \<notin> set a \<Longrightarrow> sep \<notin> set b \<Longrightarrow> str_split sep (a @ sep # b) = [a, b]"
  by (induction a) (auto simp: str_split_no_sep)

section \<open>Ports\<close>

definition minRangePortValue :: int where "minRangePortValue = 1025"

definition choosePort ::
    "(int \<Rightarrow> string option) \<Rightarrow> (int list \<Rightarrow> int list) \<Rightarrow> bool \<Rightarrow> int \<Rightarrow> int \<Rightarrow> p2p_error + int" where
  "choosePort handler shuffle hasLog startPort endPort =
     (if \<not> hasLog then Inl ErrNilLogger
      else (case find (\<lambda>p. handler p = None) (shuffle [startPort..endPort]) of
              Some p \<Rightarrow> Inr p | None \<Rightarrow> Inl ErrNoFreePortInRange))"

definition getPort ::
    "(int \<Rightarrow> string option) \<Rightarrow> (int list \<Rightarrow> int list) \<Rightarrow> bool \<Rightarrow> string \<Rightarrow> p2p_error + int" where
  "getPort handler shuffle hasLog port =
     (case Atoi port of Some val \<Rightarrow> if val < 0 then Inl ErrInvalidPortValue else Inr val
      | None \<Rightarrow>
        (case str_split CHR ''-'' port of
           [p0, p1] \<Rightarrow>
             (case Atoi p0 of None \<Rightarrow> Inl ErrInvalidStartingPortValue
              | Some startPort \<Rightarrow>
                (case Atoi p1 of None \<Rightarrow> Inl ErrInvalidEndingPortValue
                 | Some endPort \<Rightarrow>
                   if startPort < minRangePortValue then Inl ErrInvalidValue
                   else if endPort < startPort then Inl ErrEndPortIsSmallerThanStartPort
                   else choosePort handler shuffle hasLog startPort endPort))
         | _ \<Rightarrow> Inl ErrInvalidPortsRangeString))"

lemma getPort_range:
  assumes "a < 2 ^ 63" "b < 2 ^ 63"
  shows "getPort handler shuffle hasLog (show_nat a @ ''-'' @ show_nat b) =
    (if int a < minRangePortValue then Inl ErrInvalidValue
     else if b < a then Inl ErrEndPortIsSmallerThanStartPort
     else choosePort handler shuffle hasLog (int a) (int b))"
  using Atoi_None_dash [of "show_nat a" "show_nat b"] show_nat_digits [of a]
    str_split_one [of "CHR ''-''" "show_nat a" "show_nat b"] show_nat_no_sign
    Atoi_show_nat [OF assms(1)] Atoi_show_nat [OF assms(2)]
  by (simp add: getPort_def)

lemma choosePort_correct:
  assumes "mset (shuffle [s..e]) = mset [s..e]"
  shows "case choosePort handler shuffle True s e of
      Inr p \<Rightarrow> s \<le> p \<and> p \<le> e \<and> handler p = None
    | Inl err \<Rightarrow> err = ErrNoFreePortInRange \<and> (\<forall>p \<in> {s..e}. handler p \<noteq> None)"
proof -
  have "set (shuffle [s..e]) = {s..e}" using assms by (metis set_mset_mset set_upto)
  then show ?thesis
    by (auto simp: choosePort_def find_None_iff find_Some_iff split: option.splits)
qed

text \<open>
  The port configuration: a number is taken as it is; a range \<^verbatim>\<open>start-end\<close> is refused when it starts below 1025 or ends before it
  starts, and otherwise gives a port of the range that was found free, or fails exactly when no port of the
  range is free, whatever order the shuffling puts the ports in.
\<close>

theorem port_configuration:
  assumes "a < 2 ^ 63" "b < 2 ^ 63" "mset (shuffle [int a..int b]) = mset [int a..int b]"
  shows "getPort handler shuffle True (show_nat a) = Inr (int a) \<and>
    (case getPort handler shuffle True (show_nat a @ ''-'' @ show_nat b) of
       Inr p \<Rightarrow> 1025 \<le> a \<and> int a \<le> p \<and> p \<le> int b \<and> handler p = None
     | Inl e \<Rightarrow>
       if a < 1025 then e = ErrInvalidValue
       else if b < a then e = ErrEndPortIsSmallerThanStartPort
       else e = ErrNoFreePortInRange \<and> list_all (\<lambda>p. handler p \<noteq> None) [int a..int b])"
proof
  show "getPort handler shuffle True (show_nat a) = Inr (int a)"
    using Atoi_show_nat [OF assms(1)] by (simp add: getPort_def)
  show "case getPort handler shuffle True (show_nat a @ ''-'' @ show_nat b) of
       Inr p \<Rightarrow> 1025 \<le> a \<and> int a \<le> p \<and> p \<le> int b \<and> handler p = None
     | Inl e \<Rightarrow>
       if a < 1025 then e = ErrInvalidValue
       else if b < a then e = ErrEndPortIsSmallerThanStartPort
       else e = ErrNoFreePortInRange \<and> list_all (\<lambda>p. handler p \<noteq> None) [int a..int b]"
    using choosePort_correct [of shuffle "int a" "int b" handler, OF assms(3)]
    unfolding getPort_range [OF assms(1,2)]
    by (auto simp: minRangePortValue_def list_all_iff split: sum.splits)
qed

theorem port_configuration_witness:
  "getPort (\<lambda>p. if p = 1026 then None else Some ''used'') rev True (show_nat 1025) = Inr 1025 \<and>
   (\<exists>p. getPort (\<lambda>p. if p = 1026 then None else Some ''used'') rev True (show_nat 1025 @ ''-'' @ show_nat 1027) = Inr p \<and>
     1025 \<le> p \<and> p \<le> 1027 \<and> p = 1026)"
proof -
  have "1026 \<in> set [int 1025..int 1027]" by simp
  with port_configuration [of 1025 1027 rev "\<lambda>p. if p = 1026 then None else Some ''used''"]
  show ?thesis by (auto simp: list_all_iff split: sum.splits if_splits)
qed

section \<open>Transports\<close>

record TransportConfig =
  tc_ListenAddress :: string
  tc_PreventPortReuse :: bool
  tc_QUICAddress :: string
  tc_WebSocketAddress :: string
  tc_WebTransportAddress :: string

datatype transport = TCP bool | QUIC | WebSocketT | WebTransport

definition strictCheckStringForIntMarkup :: "string \<Rightarrow> bool" where
  "strictCheckStringForIntMarkup str = (str_count ''%d'' str = 1)"

text \<open>\<^verbatim>\<open>fmt.Sprintf(format, n)\<close> for a format whose only verb is one \<^verbatim>\<open>%d\<close>.\<close>

fun sprintf_int :: "string \<Rightarrow> int \<Rightarrow> string" where
  "sprintf_int [] n = []"
| "sprintf_int [c] n = [c]"
| "sprintf_int (c # d # rest) n =
     (if c = CHR ''%'' \<and> d = CHR ''d'' then show_int n @ rest else c # sprintf_int (d # rest) n)"

text \<open>One of the four blocks of \<^verbatim>\<open>parseTransportOptions\<close>: an empty address leaves the transport out.\<close>

definition addTransport ::
    "int \<Rightarrow> p2p_error \<Rightarrow> transport \<Rightarrow> string \<Rightarrow> p2p_error + transport list \<times> string list
     \<Rightarrow> p2p_error + transport list \<times> string list" where
  "addTransport port err t address r =
     (case r of Inl e \<Rightarrow> Inl e
      | Inr (options, addresses) \<Rightarrow>
        if length address > 0 then
          (if \<not> strictCheckStringForIntMarkup address then Inl err
           else Inr (options @ [t], addresses @ [sprintf_int address port]))
        else Inr (options, addresses))"

definition parseTransportOptions :: "TransportConfig \<Rightarrow> int \<Rightarrow> p2p_error + transport list \<times> string list" where
  "parseTransportOptions cfg port =
     (let r = addTransport port ErrInvalidWebTransportAddress WebTransport (tc_WebTransportAddress cfg)
           (addTransport port ErrInvalidWSAddress WebSocketT (tc_WebSocketAddress cfg)
           (addTransport port ErrInvalidQUICAddress QUIC (tc_QUICAddress cfg)
           (addTransport port ErrInvalidTCPAddress (TCP (tc_PreventPortReuse cfg)) (tc_ListenAddress cfg) (Inr ([], [])))))
      in case r of Inl e \<Rightarrow> Inl e
         | Inr (options, addresses) \<Rightarrow> if length addresses = 0 then Inl ErrNoTransportsDefined else Inr (options, addresses))"

text \<open>Every transport that is configured listens, in this order, at its address with the port filled in.\<close>

definition configured :: "TransportConfig \<Rightarrow> (transport \<times> string) list" where
  "configured cfg = filter (\<lambda>(t, a). a \<noteq> [])
     [(TCP (tc_PreventPortReuse cfg), tc_ListenAddress cfg), (QUIC, tc_QUICAddress cfg),
      (WebSocketT, tc_WebSocketAddress cfg), (WebTransport, tc_WebTransportAddress cfg)]"

lemma parseTransportOptions_ok:
  "parseTransportOptions cfg port = Inr (options, addresses) \<longleftrightarrow>
   configured cfg \<noteq> [] \<and> list_all (\<lambda>(t, a). strictCheckStringForIntMarkup a) (configured cfg) \<and>
   options = map fst (configured cfg) \<and> addresses = map (\<lambda>(t, a). sprintf_int a port) (configured cfg)"
  by (cases "tc_ListenAddress cfg = []"; cases "tc_QUICAddress cfg = []"; cases "tc_WebSocketAddress cfg = []";
      cases "tc_WebTransportAddress cfg = []")
     (auto simp: parseTransportOptions_def addTransport_def configured_def Let_def)

lemma sprintf_int_markup:
  "CHR ''%'' \<notin> set pre \<Longrightarrow> sprintf_int (pre @ ''%d'' @ post) n = pre @ show_int n @ post"
proof (induction pre)
  case (Cons c pre)
  then show ?case by (cases pre) auto
qed simp

section \<open>The resource limiter\<close>

record ResourceLimiterConfig =
  rl_Type :: string
  ManualSystemMemoryInMB :: int64
  ManualMaximumFD :: int

datatype limiter = DefaultResourceManager | InfiniteLimits | ScaledLimits int64 int

definition oneMegabyteInBytes :: int64 where "oneMegabyteInBytes = 1024 * 1024"

text \<open>\<open>create\<close> is what \<^verbatim>\<open>rcmgr.NewResourceManager\<close> answers.\<close>

definition CreateResourceLimiterOption :: "(limiter \<Rightarrow> string option) \<Rightarrow> ResourceLimiterConfig \<Rightarrow> p2p_error + limiter" where
  "CreateResourceLimiterOption create cfg =
     (if rl_Type cfg = ''default autoscale'' then Inr DefaultResourceManager
      else if rl_Type cfg = ''infinite'' then
        (case create InfiniteLimits of Some e \<Rightarrow> Inl (ErrOther e) | None \<Rightarrow> Inr InfiniteLimits)
      else if rl_Type cfg = ''default with manual scale'' then
        (let l = ScaledLimits (oneMegabyteInBytes * ManualSystemMemoryInMB cfg) (ManualMaximumFD cfg) in
         case create l of Some e \<Rightarrow> Inl (ErrOther e) | None \<Rightarrow> Inr l)
      else Inl ErrUnknownResourceLimiterType)"

text \<open>The memory limit is the configured number of megabytes up to \<open>2 ^ 43 - 1\<close>; the product wraps around from there on.\<close>

lemma limiter_memory:
  assumes "rl_Type cfg = ''default with manual scale''"
    "CreateResourceLimiterOption create cfg = Inr (ScaledLimits m fd)" "unat (ManualSystemMemoryInMB cfg) < 2 ^ 43"
  shows "unat m = 1024 * 1024 * unat (ManualSystemMemoryInMB cfg)"
proof -
  have "m = oneMegabyteInBytes * ManualSystemMemoryInMB cfg"
    using assms(1,2) by (auto simp: CreateResourceLimiterOption_def Let_def split: option.splits)
  then show ?thesis using assms(3) by (simp add: oneMegabyteInBytes_def unat_word_ariths)
qed

end
