(* ===== verification/Channel_Queues.thy ===== *)
theory Channel_Queues
  imports Channel_Balancer
begin

text \<open>
  What the outgoing channel load balancer promises, as an abstract specification (named queues of at most one element, and what was
  delivered from them), and that the balancer with its goroutines refines it while channels are added and removed.
\<close>

section \<open>Simulations\<close>

text \<open>
  A concrete step relation refines an abstract one through an abstraction function, on the states that satisfy an invariant:
  every concrete step is an abstract step or does not change the abstract state.
\<close>

locale simulation =
  fixes cstep :: "'c \<Rightarrow> 'c \<Rightarrow> bool" and astep :: "'a \<Rightarrow> 'a \<Rightarrow> bool" and inv :: "'c \<Rightarrow> bool" and abs_of :: "'c \<Rightarrow> 'a"
  assumes inv_step: "inv s \<Longrightarrow> cstep s s' \<Longrightarrow> inv s'"
    and simulates: "inv s \<Longrightarrow> cstep s s' \<Longrightarrow> astep (abs_of s) (abs_of s') \<or> abs_of s' = abs_of s"
begin

lemma reaches: "cstep\<^sup>*\<^sup>* s s' \<Longrightarrow> inv s \<Longrightarrow> inv s' \<and> astep\<^sup>*\<^sup>* (abs_of s) (abs_of s')"
proof (induction rule: rtranclp_induct)
  case (step y z)
  with simulates [of y z] inv_step [of y z] show ?case by (auto intro: rtranclp.rtrancl_into_rtrancl)
qed simp

lemma abstract_invariant:
  assumes "\<And>a a'. P a \<Longrightarrow> astep a a' \<Longrightarrow> P a'" "cstep\<^sup>*\<^sup>* s s'" "inv s" "P (abs_of s)"
  shows "P (abs_of s')"
proof -
  have "astep\<^sup>*\<^sup>* (abs_of s) (abs_of s')" using reaches assms(2,3) by blast
  then show ?thesis using assms(1,4) by (induction rule: rtranclp_induct) auto
qed

end

section \<open>The specification\<close>

record 'd queues =
  named :: "string \<rightharpoonup> chan"
  queue :: "chan \<Rightarrow> 'd list"
  enqueued :: "(chan \<times> 'd) list"
  delivered :: "(chan \<times> 'd) list"

inductive queue_step :: "'d queues \<Rightarrow> 'd queues \<Rightarrow> bool" where
  open_queue: "name \<noteq> defaultSendChannel \<Longrightarrow> named q name = None \<Longrightarrow> c \<notin> ran (named q) \<Longrightarrow> queue q c = [] \<Longrightarrow>
    queue_step q (q\<lparr>named := (named q)(name \<mapsto> c)\<rparr>)"
| close_queue: "name \<noteq> defaultSendChannel \<Longrightarrow> named q name \<noteq> None \<Longrightarrow> queue_step q (q\<lparr>named := (named q)(name := None)\<rparr>)"
| enqueue: "c \<in> ran (named q) \<Longrightarrow> queue q c = [] \<Longrightarrow>
    queue_step q (q\<lparr>queue := (queue q)(c := [d]), enqueued := enqueued q @ [(c, d)]\<rparr>)"
| deliver: "queue q c = d # ds \<Longrightarrow>
    queue_step q (q\<lparr>queue := (queue q)(c := ds), delivered := delivered q @ [(c, d)]\<rparr>)"

definition fifo :: "'d queues \<Rightarrow> bool" where
  "fifo q \<longleftrightarrow> (\<forall>c. on_chan c (enqueued q) = on_chan c (delivered q) @ queue q c)"

lemma fifo_step: "fifo q \<Longrightarrow> queue_step q q' \<Longrightarrow> fifo q'"
  by (erule queue_step.cases) (auto simp: fifo_def)

section \<open>The balancer and its goroutines\<close>

type_synonym 'd balancer_system = "balancer \<times> 'd traffic"

inductive balancer_step :: "'d balancer_system \<Rightarrow> 'd balancer_system \<Rightarrow> bool" where
  forwarding: "forward b t t' \<Longrightarrow> balancer_step (b, t) (b, t')"
| adding: "AddChannel b name = (err, b') \<Longrightarrow> balancer_step (b, t) (b', t)"
| removing: "RemoveChannel b name = Some (err, b') \<Longrightarrow> balancer_step (b, t) (b', t)"

definition received :: "(chan \<times> 'd option) list \<Rightarrow> (chan \<times> 'd) list" where
  "received l = List.map_filter (\<lambda>(c, x). map_option (Pair c) x) l"

lemma received_simps [simp]:
  "received [] = []" "received (l @ [(c, Some d)]) = received l @ [(c, d)]" "received (l @ [(c, None)]) = received l"
  by (simp_all add: received_def map_filter_def)

definition abs_queues :: "'d balancer_system \<Rightarrow> 'd queues" where
  "abs_queues s = (case s of (b, t) \<Rightarrow>
     \<lparr>named = namesChans b, queue = (\<lambda>c. case fwd t c of Holding (Some d) \<Rightarrow> [d] | _ \<Rightarrow> []),
      enqueued = sent t, delivered = received (collected t)\<rparr>)"

text \<open>A channel has a forwarder from when it is made on; what has none is idle.\<close>

definition system_ok :: "'d balancer_system \<Rightarrow> bool" where
  "system_ok s = (case s of (b, t) \<Rightarrow>
     balancer_ok b \<and> set (forwarders b) = set (chans b) \<union> closedChans b \<and> (\<forall>c. c \<notin> set (forwarders b) \<longrightarrow> fwd t c = Waiting))"

lemma forward_fwd: "forward b t t' \<Longrightarrow> \<forall>c. c \<notin> set (forwarders b) \<longrightarrow> fwd t' c = fwd t c"
  by (erule forward.cases) auto

lemma ran_namesChans: "balancer_ok b \<Longrightarrow> ran (namesChans b) = set (chans b)"
  by (simp add: balancer_ok_def ran_map_of_zip)

lemma RemoveChannel_sets:
  assumes "balancer_ok b" "RemoveChannel b channel = Some (err, b')"
  shows "b' = b \<or> (channel \<noteq> defaultSendChannel \<and> namesChans b channel \<noteq> None \<and> namesChans b' = (namesChans b)(channel := None) \<and>
    balancer_ok b' \<and> forwarders b' = forwarders b \<and> set (chans b') \<union> closedChans b' = set (chans b) \<union> closedChans b)"
proof (cases "channel = defaultSendChannel \<or> channel \<notin> set (names b)")
  case True
  with assms(2) index_of_None [of channel "names b" 0] have "b' = b" by (auto simp: RemoveChannel_def split: if_splits)
  then show ?thesis ..
next
  case False
  then obtain i where i: "index_of channel (names b) 0 = Some i" using index_of_None by (metis option.exhaust)
  then have "i < length (chans b)" "channel = names b ! i"
    using assms(1) index_of_Some [OF i] by (auto simp: balancer_ok_def)
  then have b': "b' = b\<lparr>chans := take i (chans b) @ drop (Suc i) (chans b), names := take i (names b) @ drop (Suc i) (names b),
      closedChans := insert (chans b ! i) (closedChans b), namesChans := (namesChans b)(channel := None)\<rparr>"
    using assms i False by (auto simp: RemoveChannel_def copy_delete_eq Let_def balancer_ok_def)
  have "set (chans b) = set (take i (chans b) @ chans b ! i # drop (Suc i) (chans b))"
    using \<open>i < length (chans b)\<close> by (metis id_take_nth_drop)
  moreover have "namesChans b channel \<noteq> None"
    using False assms(1) by (auto simp: balancer_ok_def map_of_zip_is_None)
  moreover have "balancer_ok b'" using RemoveChannel_ok [OF assms(1), of channel] False assms(2) by auto
  ultimately show ?thesis using b' False by auto
qed

lemma AddChannel_sets:
  assumes "balancer_ok b" "AddChannel b channel = (err, b')"
  shows "b' = b \<or> (channel \<noteq> defaultSendChannel \<and> namesChans b channel = None \<and> b' = appendChannel b channel)"
  using assms by (auto simp: AddChannel_def split: if_splits option.splits)

lemma next_fresh: "balancer_ok b \<Longrightarrow> nextChan b \<notin> set (chans b) \<union> closedChans b"
  by (auto simp: balancer_ok_def)

lemma system_ok_step: "system_ok s \<Longrightarrow> balancer_step s s' \<Longrightarrow> system_ok s'"
proof (erule balancer_step.cases)
  fix b t t' assume "system_ok s" "s = (b, t)" "s' = (b, t')" "forward b t t'"
  then show "system_ok s'" using forward_fwd [of b t t'] by (simp add: system_ok_def)
next
  fix b name err b' t assume *: "system_ok s" "s = (b, t)" "s' = (b', t)" "AddChannel b name = (err, b')"
  then have ok: "balancer_ok b" by (simp add: system_ok_def)
  show "system_ok s'"
    using AddChannel_sets [OF ok *(4)] appendChannel_ok [OF ok, of name] *(1-3) by (auto simp: system_ok_def appendChannel_def)
next
  fix b name err b' t assume *: "system_ok s" "s = (b, t)" "s' = (b', t)" "RemoveChannel b name = Some (err, b')"
  then have ok: "balancer_ok b" by (simp add: system_ok_def)
  show "system_ok s'" using RemoveChannel_sets [OF ok *(4)] *(1-3) by (auto simp: system_ok_def)
qed

lemma forward_simulates:
  assumes "system_ok (b, t)" "forward b t t'"
  shows "queue_step (abs_queues (b, t)) (abs_queues (b, t')) \<or> abs_queues (b, t') = abs_queues (b, t)"
  using assms(2)
proof cases
  case (receive c d)
  then have "c \<in> ran (named (abs_queues (b, t)))"
    using assms(1) ran_namesChans [of b] by (auto simp: system_ok_def abs_queues_def)
  from queue_step.enqueue [OF this, of d] receive show ?thesis by (simp add: abs_queues_def fun_upd_def if_distrib cong: if_cong)
next
  case (receive_closed c)
  then have "abs_queues (b, t') = abs_queues (b, t)" by (auto simp: abs_queues_def fun_eq_iff)
  then show ?thesis ..
next
  case (collect c x)
  show ?thesis
  proof (cases x)
    case None
    with collect have "abs_queues (b, t') = abs_queues (b, t)" by (auto simp: abs_queues_def fun_eq_iff)
    then show ?thesis ..
  next
    case (Some d)
    with collect have "queue (abs_queues (b, t)) c = d # []" by (simp add: abs_queues_def)
    from queue_step.deliver [OF this] collect Some show ?thesis
      by (simp add: abs_queues_def fun_upd_def if_distrib cong: if_cong)
  qed
next
  case (ctx_done c)
  then have "abs_queues (b, t') = abs_queues (b, t)" by (auto simp: abs_queues_def fun_eq_iff)
  then show ?thesis ..
qed

lemma balancer_simulates:
  assumes "system_ok s" "balancer_step s s'"
  shows "queue_step (abs_queues s) (abs_queues s') \<or> abs_queues s' = abs_queues s"
  using assms(2)
proof cases
  case (forwarding b t t')
  then show ?thesis using forward_simulates assms(1) by blast
next
  case (adding b name err b' t)
  then have ok: "balancer_ok b" and idle: "fwd t (nextChan b) = Waiting"
    using assms(1) next_fresh [of b] by (auto simp: system_ok_def)
  have "nextChan b \<notin> ran (named (abs_queues s))" "queue (abs_queues s) (nextChan b) = []"
    using ran_namesChans [OF ok] next_fresh [OF ok] idle adding(1) by (auto simp: abs_queues_def)
  from queue_step.open_queue [OF _ _ this, of name] AddChannel_sets [OF ok adding(3)] adding(1,2) show ?thesis
    by (auto simp: abs_queues_def appendChannel_def)
next
  case (removing b name err b' t)
  then have ok: "balancer_ok b" using assms(1) by (simp add: system_ok_def)
  from queue_step.close_queue [of name "abs_queues s"] RemoveChannel_sets [OF ok removing(3)] removing(1,2) show ?thesis
    by (auto simp: abs_queues_def)
qed

interpretation lb: simulation balancer_step queue_step system_ok abs_queues
  by unfold_locales (erule system_ok_step, assumption, erule balancer_simulates, assumption)

lemma new_system_ok: "NewOutgoingChannelLoadBalancer l = Inr b \<Longrightarrow> system_ok (b, traffic_init)"
  using new_ok [of l b]
  by (auto simp: system_ok_def NewOutgoingChannelLoadBalancer_def appendChannel_def traffic_init_def split: if_splits)

text \<open>
  C27. The load balancer refines named queues: every run of a new balancer, with its goroutines interleaved in any way with adding and removing
  channels, is a run of the specification, in which an element can only be put on the queue of a name that exists, queues are
  emptied in order, and closing a queue does not lose what it holds. In particular, for every channel that ever existed, what was sent on
  it is what was collected from it followed by what its forwarder holds.
\<close>

theorem balancer_refines_queues:
  assumes "NewOutgoingChannelLoadBalancer l = Inr b0" "balancer_step\<^sup>*\<^sup>* (b0, traffic_init) (b, t)"
  shows "queue_step\<^sup>*\<^sup>* (abs_queues (b0, traffic_init)) (abs_queues (b, t)) \<and>
    on_chan c (sent t) = on_chan c (received (collected t)) @ (case fwd t c of Holding (Some d) \<Rightarrow> [d] | _ \<Rightarrow> [])"
proof -
  have "fifo (abs_queues (b0, traffic_init))" by (simp add: fifo_def abs_queues_def traffic_init_def on_chan_def)
  from lb.abstract_invariant [where P = fifo, OF fifo_step assms(2) new_system_ok [OF assms(1)] this]
  have "on_chan c (sent t) = on_chan c (received (collected t)) @ (case fwd t c of Holding (Some d) \<Rightarrow> [d] | _ \<Rightarrow> [])"
    by (auto simp: fifo_def abs_queues_def)
  with lb.reaches [OF assms(2) new_system_ok [OF assms(1)]] show ?thesis by blast
qed

text \<open>A channel is added, an element is sent on it, the channel is removed, and the element is still delivered.\<close>

definition bal1 :: balancer where
  "bal1 = appendChannel bal0 ''txs''"

definition traffic1 :: "nat traffic" where
  "traffic1 = \<lparr>fwd = (\<lambda>_. Waiting)(1 := Holding (Some 5)), sent = [(1, 5)], collected = []\<rparr>"

definition traffic2 :: "nat traffic" where
  "traffic2 = \<lparr>fwd = (\<lambda>_. Waiting), sent = [(1, 5)], collected = [] @ [(1, Some 5)]\<rparr>"

lemma bal1_ok: "balancer_ok bal1"
  unfolding bal1_def by (rule appendChannel_ok [OF new_ok [OF bal0_new]]) (simp add: bal0_def appendChannel_def defaultSendChannel_def)

lemma bal1_removed: "\<exists>b. RemoveChannel bal1 ''txs'' = Some (None, b) \<and> namesChans b ''txs'' = None \<and> forwarders b = forwarders bal1"
  using RemoveChannel_ok [OF bal1_ok, of "''txs''"] by (auto simp: bal1_def appendChannel_def defaultSendChannel_def)

lemma traffic_steps:
  assumes "1 \<in> set (forwarders b)"
  shows "1 \<notin> closedChans b \<Longrightarrow> forward b traffic_init traffic1" "forward b traffic1 traffic2"
proof -
  show "forward b traffic_init traffic1" if "1 \<notin> closedChans b"
    using forward.receive [OF assms that, of traffic_init 5] by (simp add: traffic_init_def traffic1_def)
  have "traffic1\<lparr>fwd := (fwd traffic1)(1 := Waiting), collected := collected traffic1 @ [(1, Some 5)]\<rparr> = traffic2"
    by (simp add: traffic1_def traffic2_def fun_eq_iff)
  moreover have "fwd traffic1 1 = Holding (Some 5)" by (simp add: traffic1_def)
  ultimately show "forward b traffic1 traffic2" using forward.collect [OF assms] by metis
qed

lemma queues_example_run: "\<exists>b. balancer_step\<^sup>*\<^sup>* (bal0, traffic_init) (b, traffic2) \<and> namesChans b ''txs'' = None"
proof -
  obtain b where b: "RemoveChannel bal1 ''txs'' = Some (None, b)" "namesChans b ''txs'' = None" "forwarders b = forwarders bal1"
    using bal1_removed by blast
  have f: "1 \<in> set (forwarders bal1)" "1 \<notin> closedChans bal1" by (simp_all add: appendChannel_def bal0_def bal1_def)
  have "AddChannel bal0 ''txs'' = (None, bal1)" by (simp add: AddChannel_def bal0_def bal1_def appendChannel_def defaultSendChannel_def)
  then have "balancer_step\<^sup>*\<^sup>* (bal0, traffic_init) (bal1, traffic_init)" by (rule r_into_rtranclp [of balancer_step, OF balancer_step.adding])
  then have "balancer_step\<^sup>*\<^sup>* (bal0, traffic_init) (bal1, traffic1)"
    by (rule rtranclp.rtrancl_into_rtrancl [of balancer_step, OF _ balancer_step.forwarding [OF traffic_steps(1) [OF f]]])
  then have "balancer_step\<^sup>*\<^sup>* (bal0, traffic_init) (b, traffic1)"
    by (rule rtranclp.rtrancl_into_rtrancl [of balancer_step, OF _ balancer_step.removing [OF b(1)]])
  then have "balancer_step\<^sup>*\<^sup>* (bal0, traffic_init) (b, traffic2)"
    by (rule rtranclp.rtrancl_into_rtrancl [of balancer_step, OF _ balancer_step.forwarding [OF traffic_steps(2)]]) (use b(3) f(1) in simp)
  with b(2) show ?thesis by blast
qed

theorem balancer_refines_queues_witness:
  "\<exists>b. balancer_step\<^sup>*\<^sup>* (bal0, traffic_init) (b, traffic2) \<and> namesChans b ''txs'' = None \<and> received (collected traffic2) = [(1, 5)] \<and>
     queue_step\<^sup>*\<^sup>* (abs_queues (bal0, traffic_init)) (abs_queues (b, traffic2))"
proof -
  obtain b where b: "balancer_step\<^sup>*\<^sup>* (bal0, traffic_init) (b, traffic2)" "namesChans b ''txs'' = None"
    using queues_example_run by blast
  have "received (collected traffic2) = [(1, 5)]" by (simp add: traffic2_def received_def map_filter_def)
  with b conjunct1 [OF balancer_refines_queues [OF bal0_new b(1), of 1]] show ?thesis by (intro exI [of _ b] conjI)
qed

end
