(* ===== verification/Direct_Stream.thy ===== *)
theory Direct_Stream
  imports Direct_Sender
begin

text \<open>
  The receiving goroutines of the direct sender (\<^verbatim>\<open>directStreamHandler\<close> of \<^verbatim>\<open>p2p/libp2p/directSender.go\<close>), one per stream, and the
  mutexes that serialise the sends to one peer (\<^verbatim>\<open>p2p/libp2p/mutexHolder.go\<close>). The delimited reader and the cache are arguments.
\<close>

section \<open>Reading streams\<close>

text \<open>What the delimited reader returns: a message, the end of the stream, or another error.\<close>

datatype stream_read = Read pubsubMessage | EOF | ReadFailed string

datatype stream_end = StreamReset | StreamClosed

text \<open>The direct sender, the streams whose goroutine has returned, and what was handed to the messages handler so far.\<close>

record 'tc direct_run =
  dr_sender :: "'tc directSender"
  dr_ended :: "nat \<rightharpoonup> stream_end"
  dr_delivered :: "Message list"

text \<open>
  One turn of the goroutine of stream \<open>s\<close>, whose remote peer is \<open>remote s\<close>. The goroutines interleave at their reads:
  the only shared state that a turn changes is the cache of seen messages, in one step under its mutex.
\<close>

definition directStreamHandler ::
    "('sk, 'pk, 'tc) ds_env \<Rightarrow> (nat \<Rightarrow> peer_id) \<Rightarrow> 'tc direct_run \<Rightarrow> nat \<times> stream_read \<Rightarrow> 'tc direct_run" where
  "directStreamHandler E remote r ev =
     (case ev of (s, rd) \<Rightarrow>
        if dr_ended r s \<noteq> None then r
        else (case rd of
            EOF \<Rightarrow> r\<lparr>dr_ended := (dr_ended r)(s \<mapsto> StreamClosed)\<rparr>
          | ReadFailed _ \<Rightarrow> r\<lparr>dr_ended := (dr_ended r)(s \<mapsto> StreamReset)\<rparr>
          | Read pb \<Rightarrow>
            (case processReceivedDirectMessage E (dr_sender r) (Some pb) (remote s) of
               (Inl _, ds) \<Rightarrow> r\<lparr>dr_sender := ds\<rparr>
             | (Inr m, ds) \<Rightarrow> r\<lparr>dr_sender := ds, dr_delivered := dr_delivered r @ [m]\<rparr>)))"

definition direct_runs ::
    "('sk, 'pk, 'tc) ds_env \<Rightarrow> (nat \<Rightarrow> peer_id) \<Rightarrow> 'tc directSender \<Rightarrow> (nat \<times> stream_read) list \<Rightarrow> 'tc direct_run" where
  "direct_runs E remote ds evs =
     foldl (directStreamHandler E remote) \<lparr>dr_sender = ds, dr_ended = Map.empty, dr_delivered = []\<rparr> evs"

definition message_key :: "Message \<Rightarrow> bytes \<times> bytes" where
  "message_key m = (FromField m, SeqNoField m)"

definition key_id :: "bytes \<times> bytes \<Rightarrow> string" where
  "key_id k = string_of_bytes (fst k) @ string_of_bytes (snd k)"

text \<open>The laws of the cache of seen messages while nothing is swept.\<close>

definition remembers :: "'tc timecache_ops \<Rightarrow> bool" where
  "remembers T \<longleftrightarrow> (\<forall>c k. tc_Has T (tc_Add T c k) k) \<and> (\<forall>c j k. tc_Has T c j \<longrightarrow> tc_Has T (tc_Add T c k) j)"

lemma process_delivered:
  assumes "processReceivedDirectMessage E ds (Some pb) p = (Inr m, ds')" "e_timecache E = T"
  shows "\<not> tc_Has T (seenMessages ds) (key_id (message_key m)) \<and> FromField m = bytes_of_string p \<and>
    seenMessages ds' = tc_Add T (seenMessages ds) (key_id (message_key m))"
  using assms
  by (auto simp: processReceivedDirectMessage_def checkAndSetSeenMessage_def NewMessage_def key_id_def message_key_def messageId_def
      split: if_splits option.splits sum.splits)

lemma process_keeps:
  assumes "processReceivedDirectMessage E ds pb p = (r, ds')" "e_timecache E = T" "remembers T" "tc_Has T (seenMessages ds) k"
  shows "tc_Has T (seenMessages ds') k"
  using assms
  by (auto simp: processReceivedDirectMessage_def checkAndSetSeenMessage_def remembers_def split: if_splits option.splits)

definition run_ok :: "'tc timecache_ops \<Rightarrow> (nat \<Rightarrow> peer_id) \<Rightarrow> 'tc direct_run \<Rightarrow> bool" where
  "run_ok T remote r \<longleftrightarrow> distinct (map (key_id \<circ> message_key) (dr_delivered r)) \<and>
     list_all (\<lambda>m. tc_Has T (seenMessages (dr_sender r)) (key_id (message_key m)) \<and> FromField m \<in> range (bytes_of_string \<circ> remote))
       (dr_delivered r)"

lemma turn_ok:
  assumes "run_ok T remote r" "e_timecache E = T" "remembers T"
  shows "run_ok T remote (directStreamHandler E remote r ev)"
proof (cases "\<exists>s pb. ev = (s, Read pb) \<and> dr_ended r s = None")
  case False
  then have "\<exists>f. directStreamHandler E remote r ev = r\<lparr>dr_ended := f\<rparr>"
    by (cases ev; cases "snd ev") (auto simp: directStreamHandler_def intro: exI [of _ "dr_ended r"] exI [of _ "(dr_ended r)(_ \<mapsto> _)"])
  then show ?thesis using assms(1) by (auto simp: run_ok_def)
next
  case True
  then obtain s pb where ev: "ev = (s, Read pb)" "dr_ended r s = None" by blast
  obtain x ds where p: "processReceivedDirectMessage E (dr_sender r) (Some pb) (remote s) = (x, ds)" by fastforce
  note keep = process_keeps [OF p assms(2,3)]
  show ?thesis
  proof (cases x)
    case (Inl e)
    then show ?thesis using ev p assms(1) keep by (auto simp: directStreamHandler_def run_ok_def list_all_iff)
  next
    case (Inr m)
    with p have pm: "processReceivedDirectMessage E (dr_sender r) (Some pb) (remote s) = (Inr m, ds)" by simp
    from process_delivered [OF this assms(2)] ev pm assms(1,3) keep show ?thesis
      by (auto simp: directStreamHandler_def run_ok_def list_all_iff remembers_def)
  qed
qed

lemma runs_ok: "e_timecache E = T \<Longrightarrow> remembers T \<Longrightarrow> run_ok T remote (direct_runs E remote ds evs)"
proof -
  assume T: "e_timecache E = T" "remembers T"
  have "run_ok T remote r \<Longrightarrow> run_ok T remote (foldl (directStreamHandler E remote) r evs)" for r
    by (induction evs arbitrary: r) (simp_all add: turn_ok T)
  then show ?thesis by (simp add: direct_runs_def run_ok_def)
qed

lemma delivered_once:
  assumes "e_timecache E = T" "remembers T"
  shows "distinct (map message_key (dr_delivered (direct_runs E remote ds evs)))"
    and "FromField ` set (dr_delivered (direct_runs E remote ds evs)) \<subseteq> range (bytes_of_string \<circ> remote)"
  using runs_ok [OF assms, of remote ds evs]
  by (auto simp: run_ok_def list_all_iff distinct_map intro: comp_inj_on dest: inj_on_imageI2)

text \<open>
  C19. Direct messages are delivered at most once: whatever arrives on any number of interleaved streams, no two messages that reach the
  handler have the same sender and sequence number, and each of them names a remote peer of a stream as its sender, as long as the cache
  of seen messages forgets nothing.
\<close>

theorem direct_messages_delivered_once:
  assumes "remembers (e_timecache E)"
  shows "distinct (map message_key (dr_delivered (direct_runs E remote ds evs))) \<and>
    FromField ` set (dr_delivered (direct_runs E remote ds evs)) \<subseteq> range (bytes_of_string \<circ> remote)"
  using delivered_once [OF refl assms] by blast

theorem direct_messages_delivered_once_witness:
  "let r = direct_runs ex_env (\<lambda>_. ''A'') ex_ds [(0, Read ex_sent), (1, Read ex_sent), (0, EOF), (1, Read ex_sent)]
   in dr_delivered r \<noteq> [] \<and> distinct (map message_key (dr_delivered r))"
proof -
  have "remembers (e_timecache ex_env)" by (simp add: remembers_def)
  note once = direct_messages_delivered_once [OF this, of "\<lambda>_. ''A''" ex_ds
      "[(0, Read ex_sent), (1, Read ex_sent), (0, EOF), (1, Read ex_sent)]"]
  obtain m where "processReceivedDirectMessage ex_env ex_ds (Some ex_sent) ''A'' =
      (Inr m, ex_ds\<lparr>seenMessages := {messageId ex_sent}\<rparr>)" using ex_delivered by blast
  then have "dr_delivered (direct_runs ex_env (\<lambda>_. ''A'') ex_ds
      [(0, Read ex_sent), (1, Read ex_sent), (0, EOF), (1, Read ex_sent)]) \<noteq> []"
    by (auto simp: direct_runs_def directStreamHandler_def split: prod.splits sum.splits)
  with once show ?thesis by (simp add: Let_def)
qed

text \<open>
  A direct message within eight bytes of the size limit is sent but never received: \<^verbatim>\<open>Send\<close> compares the size of the payload with the limit, the
  reader of the other side the size of the whole message, which has the sequence number in addition; the reading
  goroutine resets the stream and ends without delivering anything.
\<close>

theorem direct_near_limit_lost:
  assumes "Send E ds topic buff conns streamsOf newStream localPeer write = (Inr (st, pb), ds1)"
    and "maxSendBuffSize \<le> length buff + 8"
    and "\<forall>m d. ps_Marshal (e_pubsub E) m = Inr d \<longrightarrow> length (pb_Data m) + length (pb_Seqno m) < length d"
    and "\<forall>d. maxSendBuffSize < length d \<longrightarrow> (\<exists>e. readMsg d = ReadFailed e)"
    and "ps_Marshal (e_pubsub E) pb = Inr d" and "dr_ended r s = None"
  shows "directStreamHandler E' remote r (s, readMsg d) = r\<lparr>dr_ended := (dr_ended r)(s \<mapsto> StreamReset)\<rparr>"
proof -
  obtain conn where "createMessage E ds topic buff (localPeer conn) = (Inr pb, ds1)"
    using Send_created [OF assms(1)] by blast
  from createMessage_fields [OF this] have "pb_Data pb = buff" "length (pb_Seqno pb) = 8" by (auto simp: PutUint64_def)
  then have "maxSendBuffSize < length d" using assms(2,3,5) by fastforce
  then obtain e where "readMsg d = ReadFailed e" using assms(4) by blast
  then show ?thesis using assms(6) by (simp add: directStreamHandler_def)
qed

definition sized_ops :: pubsub_ops where
  "sized_ops = example_ops\<lparr>ps_Marshal := (\<lambda>m. Inr (0 # pb_Data m @ pb_Seqno m))\<rparr>"

theorem direct_near_limit_lost_witness:
  "\<exists>d :: bytes. directStreamHandler ex_env (\<lambda>_. ''A'') \<lparr>dr_sender = ex_ds, dr_ended = Map.empty, dr_delivered = []\<rparr>
      (0, if maxSendBuffSize < length d then ReadFailed ''short buffer'' else EOF) =
     \<lparr>dr_sender = ex_ds, dr_ended = [0 \<mapsto> StreamReset], dr_delivered = []\<rparr> \<and>
     length d = maxSendBuffSize + 8"
proof -
  let ?E = "ex_env\<lparr>e_pubsub := sized_ops\<rparr>"
  let ?buff = "replicate (maxSendBuffSize - 1) (0 :: byte)"
  have pos: "0 < maxSendBuffSize" by (simp add: maxSendBuffSize_def)
  then have lt: "\<not> maxSendBuffSize \<le> maxSendBuffSize - Suc 0" by simp
  have seq: "length (PutUint64 1) = 8" by (simp add: PutUint64_def)
  have "\<exists>pb ds1. Send ?E ex_ds ''t'' ?buff [((), 2)] (\<lambda>_. []) (\<lambda>_. Inr ()) (\<lambda>_. ''A'') (\<lambda>_ _. None) = (Inr ((), pb), ds1) \<and>
      pb_Data pb = ?buff \<and> pb_Seqno pb = PutUint64 1"
    using lt by (simp add: Send_def getConnection_def getOrCreateStream_def createMessage_def NextSequenceNumber_def
        ex_ds_def ex_crypto_def signer_Sign_def sized_ops_def Let_def)
  then obtain pb ds1
    where snd: "Send ?E ex_ds ''t'' ?buff [((), 2)] (\<lambda>_. []) (\<lambda>_. Inr ()) (\<lambda>_. ''A'') (\<lambda>_ _. None) = (Inr ((), pb), ds1)"
    and pb: "pb_Data pb = ?buff" "pb_Seqno pb = PutUint64 1" by blast
  have m: "ps_Marshal (e_pubsub ?E) pb = Inr (0 # ?buff @ PutUint64 1)" using pb by (simp add: sized_ops_def)
  show ?thesis
    using direct_near_limit_lost [OF snd _ _ _ m, where r = "\<lparr>dr_sender = ex_ds, dr_ended = Map.empty, dr_delivered = []\<rparr>"
        and E' = ex_env and remote = "\<lambda>_. ''A''" and s = 0
        and readMsg = "\<lambda>d. if maxSendBuffSize < length d then ReadFailed ''short buffer'' else EOF"] pos seq
    by (intro exI [of _ "0 # ?buff @ PutUint64 1"]) (simp add: sized_ops_def)
qed

section \<open>The mutexes of the peers\<close>

text \<open>
  A mutex is its number. The cache is an argument: looking up may change it (the least recently used entry is the one that is
  dropped), and a value that is not a mutex is \<^const>\<open>Inr\<close>.
\<close>

record 'c mutex_cache_ops =
  mc_Get :: "'c \<Rightarrow> bytes \<Rightarrow> (nat + unit) option \<times> 'c"
  mc_Put :: "'c \<Rightarrow> bytes \<Rightarrow> nat + unit \<Rightarrow> 'c"

record 'c MutexHolder =
  mutexes :: 'c
  freshMutex :: nat

definition NewMutexHolder :: "string + 'c \<Rightarrow> p2p_error + 'c MutexHolder" where
  "NewMutexHolder newCache = (case newCache of Inl e \<Rightarrow> Inl (ErrOther e) | Inr c \<Rightarrow> Inr \<lparr>mutexes = c, freshMutex = 0\<rparr>)"

definition mutex_Get :: "'c mutex_cache_ops \<Rightarrow> 'c MutexHolder \<Rightarrow> string \<Rightarrow> nat \<times> 'c MutexHolder" where
  "mutex_Get C mh key =
     (let sliceKey = bytes_of_string key;
          put = (\<lambda>c. (freshMutex mh, \<lparr>mutexes = mc_Put C c sliceKey (Inl (freshMutex mh)), freshMutex = Suc (freshMutex mh)\<rparr>))
      in (case mc_Get C (mutexes mh) sliceKey of
            (Some (Inl m), c) \<Rightarrow> (m, mh\<lparr>mutexes := c\<rparr>)
          | (_, c) \<Rightarrow> put c))"

text \<open>While the cache keeps the entry, every send to a peer takes the same mutex, and no two peers share one.\<close>

definition cached :: "'c mutex_cache_ops \<Rightarrow> 'c \<Rightarrow> bytes \<Rightarrow> nat option" where
  "cached C c k = (case fst (mc_Get C c k) of Some (Inl m) \<Rightarrow> Some m | _ \<Rightarrow> None)"

definition mutexes_ok :: "'c mutex_cache_ops \<Rightarrow> 'c MutexHolder \<Rightarrow> bool" where
  "mutexes_ok C mh \<longleftrightarrow> (\<forall>k m. cached C (mutexes mh) k = Some m \<longrightarrow> m < freshMutex mh \<and>
     (\<forall>j. cached C (mutexes mh) j = Some m \<longrightarrow> j = k))"

lemma mutex_Get_ok:
  assumes "\<And>c k j. cached C (snd (mc_Get C c k)) j = cached C c j"
    and "\<And>c k m j. cached C (mc_Put C c k (Inl m)) j = (if j = k then Some m else cached C c j)"
    and "mutexes_ok C mh" and "mutex_Get C mh key = (m, mh1)"
  shows "mutexes_ok C mh1 \<and> fst (mutex_Get C mh1 key) = m \<and> (key' \<noteq> key \<longrightarrow> fst (mutex_Get C mh1 key') \<noteq> m)"
proof -
  have inj: "bytes_of_string a = bytes_of_string b \<longleftrightarrow> a = b" for a b by (metis string_of_bytes_of_string)
  have look: "fst (mutex_Get C h k) = (case cached C (mutexes h) (bytes_of_string k) of Some m \<Rightarrow> m | None \<Rightarrow> freshMutex h)" for h k
    by (auto simp: mutex_Get_def cached_def Let_def split: option.splits prod.splits sum.splits)
  obtain y c where g: "mc_Get C (mutexes mh) (bytes_of_string key) = (y, c)" by fastforce
  then have same: "cached C c j = cached C (mutexes mh) j" for j using assms(1) [of "mutexes mh" "bytes_of_string key" j] by simp
  have y: "cached C (mutexes mh) (bytes_of_string key) = (case y of Some (Inl m) \<Rightarrow> Some m | _ \<Rightarrow> None)"
    using g by (simp add: cached_def)
  show ?thesis
  proof (cases "cached C (mutexes mh) (bytes_of_string key)")
    case None
    then have "mh1 = \<lparr>mutexes = mc_Put C c (bytes_of_string key) (Inl m), freshMutex = Suc m\<rparr> \<and> m = freshMutex mh"
      using assms(4) g y by (auto simp: mutex_Get_def Let_def split: option.splits sum.splits)
    then show ?thesis using assms(2,3) same by (auto simp: mutexes_ok_def look inj less_Suc_eq split: option.splits)
  next
    case (Some x)
    then have "x = m" "mh1 = mh\<lparr>mutexes := c\<rparr>"
      using assms(4) g y by (auto simp: mutex_Get_def Let_def split: option.splits sum.splits)
    then show ?thesis using Some assms(3) same by (fastforce simp: mutexes_ok_def look inj split: option.splits)
  qed
qed

end
