(* ===== verification/Keys.thy ===== *)
theory Keys
  imports Message
begin

text \<open>
  Keys and identities: \<^verbatim>\<open>p2p/libp2p/crypto\<close> and the constructors of the signer and of the message verifier
  (\<^verbatim>\<open>p2p/messageCheck/messageVerifier.go\<close>).

  Two cryptographic libraries meet here, libp2p's and the chain's own; both are outside of the repository and are the
  fields of one record. The random generator's answer is an argument.
\<close>

section \<open>Converting keys\<close>

record ('lsk, 'lpk, 'sk, 'pk) key_libs =
  lp_IDFromBytes :: "bytes \<Rightarrow> string + peer_id"
  lp_ExtractPublicKey :: "peer_id \<Rightarrow> string + 'lpk"
  lp_IDFromPublicKey :: "'lpk \<Rightarrow> string + peer_id"
  lp_PublicRaw :: "'lpk \<Rightarrow> string + bytes"
  lp_UnmarshalPublicKey :: "bytes \<Rightarrow> string + 'lpk"
  lp_GetPublic :: "'lsk \<Rightarrow> 'lpk"
  lp_PrivateRaw :: "'lsk \<Rightarrow> string + bytes"
  lp_UnmarshalPrivateKey :: "bytes \<Rightarrow> string + 'lsk"
  kg_PublicKeyFromByteArray :: "bytes \<Rightarrow> string + 'pk"
  kg_PrivateKeyFromByteArray :: "bytes \<Rightarrow> string + 'sk"
  k_PublicToByteArray :: "'pk \<Rightarrow> string + bytes"
  k_PrivateToByteArray :: "'sk \<Rightarrow> string + bytes"

datatype key_error =
  ErrNilPrivateKey | ErrNilPublicKey | ErrNilSingleSigner | ErrNilKeyGenerator | ErrNilP2PKeyConverter | KeyErr string

definition lift_err :: "string + 'a \<Rightarrow> key_error + 'a" where
  "lift_err r = map_sum KeyErr id r"

lemma lift_err_simps [simp]: "lift_err (Inl e) = Inl (KeyErr e)" "lift_err (Inr x) = Inr x"
    "lift_err r = Inr y \<longleftrightarrow> r = Inr y"
  by (simp_all add: lift_err_def) (cases r; simp)

definition ConvertPrivateKeyToLibp2pPrivateKey ::
    "('lsk, 'lpk, 'sk, 'pk) key_libs \<Rightarrow> 'sk option \<Rightarrow> key_error + 'lsk" where
  "ConvertPrivateKeyToLibp2pPrivateKey K privateKey =
     (case privateKey of None \<Rightarrow> Inl ErrNilPrivateKey
      | Some sk \<Rightarrow> (case k_PrivateToByteArray K sk of Inl e \<Rightarrow> Inl (KeyErr e)
                   | Inr b \<Rightarrow> lift_err (lp_UnmarshalPrivateKey K b)))"

definition ConvertPeerIDToPublicKey :: "('lsk, 'lpk, 'sk, 'pk) key_libs \<Rightarrow> peer_id \<Rightarrow> string + 'pk" where
  "ConvertPeerIDToPublicKey K p =
     (case lp_IDFromBytes K (bytes_of_string p) of Inl e \<Rightarrow> Inl e
      | Inr libp2pPid \<Rightarrow>
        (case lp_ExtractPublicKey K libp2pPid of Inl e \<Rightarrow> Inl (''cannot extract signing key: '' @ e)
         | Inr pubk \<Rightarrow> (case lp_PublicRaw K pubk of Inl e \<Rightarrow> Inl e
           | Inr b \<Rightarrow> kg_PublicKeyFromByteArray K b)))"

definition ConvertPublicKeyToPeerID :: "('lsk, 'lpk, 'sk, 'pk) key_libs \<Rightarrow> 'pk option \<Rightarrow> key_error + peer_id" where
  "ConvertPublicKeyToPeerID K pk =
     (case pk of None \<Rightarrow> Inl ErrNilPublicKey
      | Some k \<Rightarrow> (case k_PublicToByteArray K k of Inl e \<Rightarrow> Inl (KeyErr e)
        | Inr b \<Rightarrow> (case lp_UnmarshalPublicKey K b of Inl e \<Rightarrow> Inl (KeyErr e)
          | Inr l \<Rightarrow> lift_err (lp_IDFromPublicKey K l))))"

section \<open>Identities\<close>

definition NewIdentityGenerator :: "bool \<Rightarrow> p2p_error option" where
  "NewIdentityGenerator hasLogger = (if \<not> hasLogger then Some ErrNilLogger else None)"

definition CreateP2PPrivateKey :: "('lsk, 'lpk, 'sk, 'pk) key_libs \<Rightarrow> string + 'lsk \<Rightarrow> bytes \<Rightarrow> string + 'lsk" where
  "CreateP2PPrivateKey K generated privateKeyBytes =
     (if length privateKeyBytes = 0 then generated else lp_UnmarshalPrivateKey K privateKeyBytes)"

definition CreateRandomP2PIdentity :: "('lsk, 'lpk, 'sk, 'pk) key_libs \<Rightarrow> string + 'lsk \<Rightarrow> string + (bytes \<times> peer_id)" where
  "CreateRandomP2PIdentity K generated =
     (case CreateP2PPrivateKey K generated [] of Inl e \<Rightarrow> Inl e
      | Inr sk \<Rightarrow> (case lp_PrivateRaw K sk of Inl e \<Rightarrow> Inl e
        | Inr skBuff \<Rightarrow> (case lp_IDFromPublicKey K (lp_GetPublic K sk) of Inl e \<Rightarrow> Inl e
          | Inr p \<Rightarrow> Inr (skBuff, p))))"

section \<open>The signer and the verifier\<close>

text \<open>The signer of the node: the operations of \<^typ>\<open>('sk, 'pk) crypto_ops\<close> that sign and verify, with this converter and key generator.\<close>

definition signer_checkArgs :: "bool \<Rightarrow> bool \<Rightarrow> bool \<Rightarrow> bool \<Rightarrow> key_error option" where
  "signer_checkArgs hasPrivateKey hasSigner hasKeyGen hasConverter =
     (if \<not> hasPrivateKey then Some ErrNilPrivateKey
      else if \<not> hasSigner then Some ErrNilSingleSigner
      else if \<not> hasKeyGen then Some ErrNilKeyGenerator
      else if \<not> hasConverter then Some ErrNilP2PKeyConverter
      else None)"

definition NewP2PSignerWrapper ::
    "('lsk, 'lpk, 'sk, 'pk) key_libs option \<Rightarrow> 'sk option \<Rightarrow> ('sk, 'pk) crypto_ops option \<Rightarrow> bool
     \<Rightarrow> key_error + ('sk \<times> ('sk, 'pk) crypto_ops)" where
  "NewP2PSignerWrapper K privateKey signer hasConverter =
     (case signer_checkArgs (privateKey \<noteq> None) (signer \<noteq> None) (K \<noteq> None) hasConverter of
        Some e \<Rightarrow> Inl e
      | None \<Rightarrow> Inr (the privateKey, (the signer)\<lparr>cr_ConvertPeerIDToPublicKey := ConvertPeerIDToPublicKey (the K),
          cr_PrivateKeyFromByteArray := kg_PrivateKeyFromByteArray (the K)\<rparr>))"

definition verifier_checkArgs :: "bool \<Rightarrow> bool \<Rightarrow> bool \<Rightarrow> p2p_error option" where
  "verifier_checkArgs hasMarshaller hasSigner hasLogger =
     (if \<not> hasMarshaller then Some ErrNilMarshaller
      else if \<not> hasSigner then Some ErrNilP2PSigner
      else if \<not> hasLogger then Some ErrNilLogger
      else None)"

definition NewMessageVerifier :: "pubsub_ops option \<Rightarrow> ('sk, 'pk) crypto_ops option \<Rightarrow> bool
    \<Rightarrow> p2p_error + (pubsub_ops \<times> ('sk, 'pk) crypto_ops)" where
  "NewMessageVerifier codec signer hasLogger =
     (case verifier_checkArgs (codec \<noteq> None) (signer \<noteq> None) hasLogger of
        Some e \<Rightarrow> Inl e | None \<Rightarrow> Inr (the codec, the signer))"

section \<open>Identities sign for their peer id\<close>

text \<open>
  What the two libraries promise: a peer id embeds its public key, ids and keys survive their byte form, and the two
  libraries read the same bytes as the same key.
\<close>

definition ids_embed_keys :: "('lsk, 'lpk, 'sk, 'pk) key_libs \<Rightarrow> bool" where
  "ids_embed_keys K \<longleftrightarrow>
     (\<forall>l p. lp_IDFromPublicKey K l = Inr p \<longrightarrow> lp_IDFromBytes K (bytes_of_string p) = Inr p \<and> lp_ExtractPublicKey K p = Inr l)"

definition public_bytes_agree :: "('lsk, 'lpk, 'sk, 'pk) key_libs \<Rightarrow> bool" where
  "public_bytes_agree K \<longleftrightarrow>
     (\<forall>k b l. k_PublicToByteArray K k = Inr b \<and> lp_UnmarshalPublicKey K b = Inr l \<longrightarrow>
        lp_PublicRaw K l = Inr b \<and> kg_PublicKeyFromByteArray K b = Inr k)"

text \<open>
  The converter of keys is a round trip: a public key that was converted to a peer id is the one that the peer id is converted back to.
\<close>

theorem peer_id_public_key_roundtrip:
  assumes "ids_embed_keys K" "public_bytes_agree K" "ConvertPublicKeyToPeerID K (Some pk) = Inr p"
  shows "ConvertPeerIDToPublicKey K p = Inr pk"
proof -
  obtain b l where "k_PublicToByteArray K pk = Inr b" "lp_UnmarshalPublicKey K b = Inr l" "lp_IDFromPublicKey K l = Inr p"
    using assms(3) by (auto simp: ConvertPublicKeyToPeerID_def split: sum.splits)
  then show ?thesis
    using assms(1,2) by (simp add: ConvertPeerIDToPublicKey_def ids_embed_keys_def public_bytes_agree_def)
qed

text \<open>
  C35. A random identity can sign for its peer id: what a node signs with the identity's key bytes is accepted by every node that verifies
  it against the identity's peer id, provided that the two libraries agree on the generated key pair and that
  signatures of a key pair verify.
\<close>

theorem random_identity_signs:
  assumes "CreateRandomP2PIdentity K (Inr lsk) = Inr (skBytes, p)"
    and "NewP2PSignerWrapper (Some K) (Some own) (Some cr) True = Inr (own, signer)"
    and "ids_embed_keys K"
    and "\<exists>b sk pk. lp_PublicRaw K (lp_GetPublic K lsk) = Inr b \<and> kg_PublicKeyFromByteArray K b = Inr pk \<and>
      kg_PrivateKeyFromByteArray K skBytes = Inr sk \<and>
      (\<forall>h s. cr_Sign cr sk h = Inr s \<longrightarrow> cr_Verify cr pk h s = None)"
    and "SignUsingPrivateKey signer skBytes payload = Inr sig"
  shows "signer_Verify signer payload p sig = None"
proof -
  have "lp_IDFromPublicKey K (lp_GetPublic K lsk) = Inr p"
    using assms(1) by (auto simp: CreateRandomP2PIdentity_def CreateP2PPrivateKey_def split: sum.splits)
  then have "lp_IDFromBytes K (bytes_of_string p) = Inr p" "lp_ExtractPublicKey K p = Inr (lp_GetPublic K lsk)"
    using assms(3) by (simp_all add: ids_embed_keys_def)
  moreover have "signer = cr\<lparr>cr_ConvertPeerIDToPublicKey := ConvertPeerIDToPublicKey K,
      cr_PrivateKeyFromByteArray := kg_PrivateKeyFromByteArray K\<rparr>"
    using assms(2) by (simp add: NewP2PSignerWrapper_def signer_checkArgs_def)
  ultimately show ?thesis
    using assms(4,5) by (auto simp: signer_Verify_def SignUsingPrivateKey_def ConvertPeerIDToPublicKey_def split: sum.splits)
qed

text \<open>A pair of libraries in which a key is a number and its byte form the list of that number.\<close>

definition ex_keys :: "(byte, byte, byte, byte) key_libs" where
  "ex_keys = \<lparr>lp_IDFromBytes = (\<lambda>b. Inr (string_of_bytes b)),
     lp_ExtractPublicKey = (\<lambda>p. case bytes_of_string p of [_, k] \<Rightarrow> Inr k | _ \<Rightarrow> Inl ''no key''),
     lp_IDFromPublicKey = (\<lambda>k. Inr (string_of_bytes [0, k])), lp_PublicRaw = (\<lambda>k. Inr [k]),
     lp_UnmarshalPublicKey = (\<lambda>b. case b of [k] \<Rightarrow> Inr k | _ \<Rightarrow> Inl ''bad key''),
     lp_GetPublic = (\<lambda>k. k + 1), lp_PrivateRaw = (\<lambda>k. Inr [k]),
     lp_UnmarshalPrivateKey = (\<lambda>b. case b of [k] \<Rightarrow> Inr k | _ \<Rightarrow> Inl ''bad key''),
     kg_PublicKeyFromByteArray = (\<lambda>b. case b of [k] \<Rightarrow> Inr k | _ \<Rightarrow> Inl ''bad key''),
     kg_PrivateKeyFromByteArray = (\<lambda>b. case b of [k] \<Rightarrow> Inr k | _ \<Rightarrow> Inl ''bad key''),
     k_PublicToByteArray = (\<lambda>k. Inr [k]), k_PrivateToByteArray = (\<lambda>k. Inr [k])\<rparr>"

definition ex_signer :: "(byte, byte) crypto_ops" where
  "ex_signer = \<lparr>cr_sha256 = (\<lambda>b. b), cr_Sign = (\<lambda>k h. Inr (k # h)),
     cr_Verify = (\<lambda>k h s. if s = (k - 1) # h then None else Some ''bad signature''),
     cr_ConvertPeerIDToPublicKey = (\<lambda>_. Inl ''''), cr_PrivateKeyFromByteArray = (\<lambda>_. Inl '''')\<rparr>"

lemma ex_keys_laws: "ids_embed_keys ex_keys" "public_bytes_agree ex_keys"
  by (auto simp: ids_embed_keys_def public_bytes_agree_def ex_keys_def)

theorem peer_id_public_key_roundtrip_witness:
  "\<exists>p. ConvertPublicKeyToPeerID ex_keys (Some 5) = Inr p \<and> ConvertPeerIDToPublicKey ex_keys p = Inr 5"
proof -
  have "\<exists>p. ConvertPublicKeyToPeerID ex_keys (Some 5) = Inr p"
    by (simp add: ConvertPublicKeyToPeerID_def ex_keys_def)
  then show ?thesis using peer_id_public_key_roundtrip [OF ex_keys_laws] by blast
qed

theorem random_identity_signs_witness:
  "\<exists>skBytes p signer sig. CreateRandomP2PIdentity ex_keys (Inr 9) = Inr (skBytes, p) \<and>
     NewP2PSignerWrapper (Some ex_keys) (Some 1) (Some ex_signer) True = Inr (1, signer) \<and>
     SignUsingPrivateKey signer skBytes [4, 2] = Inr sig \<and> signer_Verify signer [4, 2] p sig = None"
proof -
  obtain p where p: "CreateRandomP2PIdentity ex_keys (Inr 9) = Inr ([9], p)"
    by (simp add: CreateRandomP2PIdentity_def CreateP2PPrivateKey_def ex_keys_def)
  obtain signer where s: "NewP2PSignerWrapper (Some ex_keys) (Some 1) (Some ex_signer) True = Inr (1, signer)"
    and sg: "SignUsingPrivateKey signer [9] [4, 2] = Inr [9, 4, 2]"
    by (simp add: NewP2PSignerWrapper_def signer_checkArgs_def SignUsingPrivateKey_def ex_keys_def ex_signer_def)
  show ?thesis
    using random_identity_signs [OF p s ex_keys_laws(1) _ sg] p s sg
    by (auto simp: ex_keys_def ex_signer_def)
qed

end
