(* ===== verification/Net_Messenger.thy ===== *)
theory Net_Messenger
  imports Discovery Connections_Handler Messages_Handler Connections_Watcher Ports Keys
begin

text \<open>
  \<^verbatim>\<open>p2p/libp2p/netMessenger.go\<close>: how a network messenger is put together from the components of the other theories, and how it is
  closed.

  Arguments for what is outside of the repository: per attempt to open the host, which ports are free, the shuffling, the resource manager and
  libp2p's constructor; pubsub's constructor, the throttler, the texts of errors and of peer ids. What is left open when the construction fails is
  part of the result: the hosts, and the goroutines of printing connection watchers.
\<close>

section \<open>Configuration and arguments\<close>

record NodeConfig =
  nc_Port :: string
  nc_ThresholdMinConnectedPeers :: uint32
  nc_Transports :: TransportConfig
  nc_ResourceLimiter :: ResourceLimiterConfig

record P2PConfig =
  pc_Node :: NodeConfig
  pc_KadDhtPeerDiscovery :: KadDhtPeerDiscoveryConfig
  pc_Sharding :: ShardingConfig

record ('lsk, 'lpk, 'sk, 'pk, 'c) ArgsNetworkMessenger =
  am_Marshaller :: bool
  am_P2pConfig :: P2PConfig
  am_SyncTimer :: bool
  am_PreferredPeersHolder :: "peersHolder option"
  am_PeersRatingHandler :: "'c peersRatingHandler option"
  am_ConnectionWatcherType :: string
  am_P2pPrivateKey :: "'sk option"
  am_P2pSingleSigner :: "('sk, 'pk) crypto_ops option"
  am_P2pKeyGenerator :: "('lsk, 'lpk, 'sk, 'pk) key_libs option"
  am_Logger :: bool

datatype nm_error = P2PError p2p_error | WatcherError watcher_error | KeyError key_error | LibError string

record 'lsk attempt =
  at_checkFreePort :: "int \<Rightarrow> string option"
  at_shuffle :: "int list \<Rightarrow> int list"
  at_newResourceManager :: "limiter \<Rightarrow> string option"
  at_newHost :: "'lsk \<Rightarrow> transport list \<Rightarrow> string list \<Rightarrow> limiter \<Rightarrow> string + peer_id"

datatype pubsub_option = WithMessageSignaturePolicy nat | WithMaxMessageSize nat

record ('lsk, 'w, 'ps, 'tc) nm_env =
  env_attempt :: "nat \<Rightarrow> 'lsk attempt"
  env_errorText :: "nm_error \<Rightarrow> string"
  env_idString :: "peer_id \<Rightarrow> string"
  env_emptyWatchCache :: 'w
  env_newGossipSub :: "pubsub_option list \<Rightarrow> string + 'ps"
  env_newThrottler :: "int \<Rightarrow> string option"
  env_convert :: "peer_id \<Rightarrow> bytes"
  env_unixNano :: uint64
  env_emptyTimeCache :: 'tc

section \<open>Constructing the node\<close>

record resources =
  openHosts :: nat
  openWatchers :: nat

definition no_resources :: resources where
  "no_resources = \<lparr>openHosts = 0, openWatchers = 0\<rparr>"

definition add_resources :: "resources \<Rightarrow> resources \<Rightarrow> resources" where
  "add_resources r s = \<lparr>openHosts = openHosts r + openHosts s, openWatchers = openWatchers r + openWatchers s\<rparr>"

lemma add_resources_simps [simp]:
  "openHosts (add_resources r s) = openHosts r + openHosts s" "openWatchers (add_resources r s) = openWatchers r + openWatchers s"
  "openHosts no_resources = 0" "openWatchers no_resources = 0" "add_resources r no_resources = r" "add_resources no_resources r = r"
  by (simp_all add: add_resources_def no_resources_def)

record ('sk, 'pk, 'w) p2pNode =
  nm_signer :: "'sk \<times> ('sk, 'pk) crypto_ops"
  nm_hostID :: peer_id
  nm_port :: int
  nm_connectionsWatcher :: "'w ConnectionsWatcher"

text \<open>Two hours, in nanoseconds. A printing watcher starts its sweeping goroutine when it is created.\<close>

definition ttlConnectionsWatcher :: int where "ttlConnectionsWatcher = 7200 * 1000000000"

definition watcher_goroutines :: "'w ConnectionsWatcher \<Rightarrow> nat" where
  "watcher_goroutines w = (case w of Printing _ \<Rightarrow> 1 | Disabled \<Rightarrow> 0)"

definition constructNode ::
    "('lsk, 'w, 'ps, 'tc) nm_env \<Rightarrow> 'lsk attempt \<Rightarrow> ('lsk, 'lpk, 'sk, 'pk, 'c) ArgsNetworkMessenger
     \<Rightarrow> (nm_error + ('sk, 'pk, 'w) p2pNode) \<times> resources" where
  "constructNode E A args =
     (let node = pc_Node (am_P2pConfig args) in
      case getPort (at_checkFreePort A) (at_shuffle A) (am_Logger args) (nc_Port node) of
        Inl e \<Rightarrow> (Inl (P2PError e), no_resources)
      | Inr port \<Rightarrow>
        (case NewConnectionsWatcher (env_emptyWatchCache E) (am_ConnectionWatcherType args) ttlConnectionsWatcher (am_Logger args) of
           Inl e \<Rightarrow> (Inl (WatcherError e), no_resources)
         | Inr connWatcher \<Rightarrow>
           let res = \<lparr>openHosts = 0, openWatchers = watcher_goroutines connWatcher\<rparr> in
           (case ConvertPrivateKeyToLibp2pPrivateKey (the (am_P2pKeyGenerator args)) (am_P2pPrivateKey args) of
              Inl e \<Rightarrow> (Inl (KeyError e), res)
            | Inr p2pPrivateKey \<Rightarrow>
              (case parseTransportOptions (nc_Transports node) port of
                 Inl e \<Rightarrow> (Inl (P2PError e), res)
               | Inr (transportOptions, addresses) \<Rightarrow>
                 (case CreateResourceLimiterOption (at_newResourceManager A) (nc_ResourceLimiter node) of
                    Inl e \<Rightarrow> (Inl (P2PError e), res)
                  | Inr lim \<Rightarrow>
                    (case at_newHost A p2pPrivateKey transportOptions addresses lim of
                       Inl e \<Rightarrow> (Inl (LibError e), res)
                     | Inr h \<Rightarrow>
                       (case NewP2PSignerWrapper (am_P2pKeyGenerator args) (am_P2pPrivateKey args) (am_P2pSingleSigner args) True of
                          Inl e \<Rightarrow> (Inl (KeyError e), res\<lparr>openHosts := 1\<rparr>)
                        | Inr s \<Rightarrow> (Inr \<lparr>nm_signer = s, nm_hostID = h, nm_port = port, nm_connectionsWatcher = connWatcher\<rparr>,
                            res\<lparr>openHosts := 1\<rparr>))))))))"

definition msgBindError :: string where "msgBindError = ''address already in use''"
definition maxRetriesIfBindError :: nat where "maxRetriesIfBindError = 10"

text \<open>The loop of the retries: \<open>k\<close> attempts are left, the next one is number \<open>i\<close>.\<close>

fun retryLoop ::
    "('lsk, 'w, 'ps, 'tc) nm_env \<Rightarrow> ('lsk, 'lpk, 'sk, 'pk, 'c) ArgsNetworkMessenger \<Rightarrow> nat \<Rightarrow> nat \<Rightarrow> nm_error option \<Rightarrow> resources
     \<Rightarrow> (nm_error option + ('sk, 'pk, 'w) p2pNode) \<times> resources" where
  "retryLoop E args 0 i lastErr res = (Inl lastErr, res)"
| "retryLoop E args (Suc k) i lastErr res =
     (case constructNode E (env_attempt E i) args of
        (Inr node, r) \<Rightarrow> (Inr node, add_resources res r)
      | (Inl err, r) \<Rightarrow>
        if \<not> str_contains (env_errorText E err) msgBindError then (Inl (Some err), add_resources res r)
        else retryLoop E args k (Suc i) (Some err) (add_resources res r))"

definition constructNodeWithPortRetry ::
    "('lsk, 'w, 'ps, 'tc) nm_env \<Rightarrow> ('lsk, 'lpk, 'sk, 'pk, 'c) ArgsNetworkMessenger
     \<Rightarrow> (nm_error option + ('sk, 'pk, 'w) p2pNode) \<times> resources" where
  "constructNodeWithPortRetry E args = retryLoop E args maxRetriesIfBindError 0 None no_resources"

section \<open>Adding the components\<close>

definition unknownPeerShardResolver :: "peer_id \<Rightarrow> PeerInfo" where
  "unknownPeerShardResolver p = \<lparr>PeerType = UnknownPeer, ShardID = 0\<rparr>"

definition createPubSub :: "('lsk, 'w, 'ps, 'tc) nm_env \<Rightarrow> bool \<Rightarrow> string + 'ps" where
  "createPubSub E messageSigning =
     env_newGossipSub E ((if \<not> messageSigning then [WithMessageSignaturePolicy 0] else []) @ [WithMaxMessageSize (2 ^ 21)])"

definition createSharder ::
    "('lsk, 'w, 'ps, 'tc) nm_env \<Rightarrow> ('lsk, 'lpk, 'sk, 'pk, 'c) ArgsNetworkMessenger \<Rightarrow> ('sk, 'pk, 'w) p2pNode \<Rightarrow> p2p_error + sharder" where
  "createSharder E args node =
     NewSharder (env_convert E)
       \<lparr>PeerShardResolver = Some unknownPeerShardResolver, Pid = nm_hostID node, f_P2pConfig = pc_Sharding (am_P2pConfig args),
        f_PreferredPeersHolder = map_option Contains (am_PreferredPeersHolder args), f_hasLogger = am_Logger args\<rparr>"

definition createDiscoverers ::
    "('lsk, 'lpk, 'sk, 'pk, 'c) ArgsNetworkMessenger \<Rightarrow> sharder \<Rightarrow> p2p_error + peerDiscoverer list" where
  "createDiscoverers args shd =
     NewPeerDiscoverers
       \<lparr>pd_hasContext = True, pd_hasHost = True, pd_Sharder = Some shd, pd_KadDht = pc_KadDhtPeerDiscovery (am_P2pConfig args),
        pd_ShardingType = ShardingType (pc_Sharding (am_P2pConfig args)), pd_hasConnectionsWatcher = True,
        pd_hasLogger = am_Logger args\<rparr>"

text \<open>
  The sharder is one object that everybody shares. A discoverer gives it the seeders when it is created: this is the sharder
  after the discoverers were created.
\<close>

definition sharder_of :: "sharder \<Rightarrow> peerDiscoverer \<Rightarrow> sharder" where
  "sharder_of s d = (case d of NilDiscoverer \<Rightarrow> s | LegacyDiscoverer c \<Rightarrow> cd_sharder c | OptimizedDiscoverer okdd \<Rightarrow> od_sharder okdd)"

definition createConnectionMonitor ::
    "('lsk, 'lpk, 'sk, 'pk, 'c) ArgsNetworkMessenger \<Rightarrow> sharder \<Rightarrow> peerDiscoverer list \<Rightarrow> p2p_error + connectionMonitor" where
  "createConnectionMonitor args shd peerDiscoverers =
     NewLibp2pConnectionMonitorSimple
       \<lparr>arg_Reconnecters = map (\<lambda>_. True) peerDiscoverers,
        arg_ThresholdMinConnectedPeers = nc_ThresholdMinConnectedPeers (pc_Node (am_P2pConfig args)),
        arg_Sharder = Some shd, arg_PreferredPeersHolder = am_PreferredPeersHolder args, arg_hasConnectionsWatcher = True,
        arg_hasNetwork = True, arg_hasLogger = am_Logger args\<rparr>"

record ('ps, 'c, 'tc) nm_components =
  cp_MessageHandler :: "('ps, peer_id \<Rightarrow> bool, 'c) messagesHandler"
  cp_directSender :: "'tc directSender"
  cp_ConnectionsHandler :: connectionsHandler
  cp_peerDiscoverers :: "peerDiscoverer list"

definition broadcastGoRoutines :: int where "broadcastGoRoutines = 1000"
definition ttlPeersOnTopic :: int where "ttlPeersOnTopic = 10"
definition refreshPeersOnTopicInterval :: int where "refreshPeersOnTopicInterval = 3"

definition handlerArgs ::
    "('lsk, 'lpk, 'sk, 'pk, 'c) ArgsNetworkMessenger \<Rightarrow> 'ps \<Rightarrow> 'tc directSender \<Rightarrow> balancer \<Rightarrow> connectionMonitor
     \<Rightarrow> ('ps, peer_id \<Rightarrow> bool, 'c, 'tc) ArgMessagesHandler" where
  "handlerArgs args pubSub ds oclb connMonitor =
     \<lparr>a_PubSub = Some pubSub, a_DirectSender = Some ds, a_Throttler = True, a_OutgoingCLB = Some oclb,
      a_Marshaller = am_Marshaller args, a_ConnMonitor = Some (peerDenialEvaluator connMonitor),
      a_PeersRatingHandler = am_PeersRatingHandler args, a_SyncTimer = am_SyncTimer args, a_Logger = am_Logger args\<rparr>"

definition connectionsArgs ::
    "('lsk, 'lpk, 'sk, 'pk, 'c) ArgsNetworkMessenger \<Rightarrow> ('sk, 'pk, 'w) p2pNode \<Rightarrow> peersOnChannel \<Rightarrow> sharder \<Rightarrow> connectionMonitor
     \<Rightarrow> peerDiscoverer list \<Rightarrow> ArgConnectionsHandler" where
  "connectionsArgs args node poc shd connMonitor peerDiscoverers =
     \<lparr>ach_hasP2pHost = True, ach_PeersOnChannel = Some poc, ach_PeerShardResolver = Some unknownPeerShardResolver,
      ach_Sharder = Some shd, ach_PreferredPeersHolder = am_PreferredPeersHolder args, ach_ConnMonitor = Some connMonitor,
      ach_PeerDiscoverers = map (\<lambda>_. True) peerDiscoverers, ach_PeerID = nm_hostID node,
      ach_ConnectionsMetric = Some NewConnectionsMetric, ach_hasLogger = am_Logger args,
      ach_ProtocolIDs = kc_ProtocolIDs (pc_KadDhtPeerDiscovery (am_P2pConfig args))\<rparr>"

definition addComponentsToNode ::
    "('lsk, 'w, 'ps, 'tc) nm_env \<Rightarrow> ('lsk, 'lpk, 'sk, 'pk, 'c) ArgsNetworkMessenger \<Rightarrow> ('sk, 'pk, 'w) p2pNode \<Rightarrow> bool
     \<Rightarrow> p2p_error + ('ps, 'c, 'tc) nm_components" where
  "addComponentsToNode E args node messageSigning =
     (case createPubSub E messageSigning of Inl e \<Rightarrow> Inl (ErrOther e)
      | Inr pubSub \<Rightarrow>
        (case newPeersOnChannel True refreshPeersOnTopicInterval ttlPeersOnTopic (am_Logger args) of Inl e \<Rightarrow> Inl e
         | Inr poc \<Rightarrow>
           (case createSharder E args node of Inl e \<Rightarrow> Inl e
            | Inr shd0 \<Rightarrow>
              (case createDiscoverers args shd0 of Inl e \<Rightarrow> Inl e
               | Inr peerDiscoverers \<Rightarrow>
                 let shd = foldl sharder_of shd0 peerDiscoverers in
                 (case createConnectionMonitor args shd peerDiscoverers of Inl e \<Rightarrow> Inl e
                  | Inr connMonitor \<Rightarrow>
                    (case NewDirectSender True True True (am_Marshaller args) (am_Logger args) (env_unixNano E) (env_emptyTimeCache E) of
                       Inl e \<Rightarrow> Inl e
                     | Inr ds \<Rightarrow>
                       (case env_newThrottler E broadcastGoRoutines of Some e \<Rightarrow> Inl (ErrOther e)
                        | None \<Rightarrow>
                          (case NewOutgoingChannelLoadBalancer (am_Logger args) of Inl e \<Rightarrow> Inl e
                           | Inr oclb \<Rightarrow>
                             (case NewMessagesHandler (handlerArgs args pubSub ds oclb connMonitor) of Inl e \<Rightarrow> Inl e
                              | Inr (mh, ds1) \<Rightarrow>
                                (case NewConnectionsHandler (connectionsArgs args node poc shd connMonitor peerDiscoverers) of
                                   Inl e \<Rightarrow> Inl e
                                 | Inr ch \<Rightarrow> Inr \<lparr>cp_MessageHandler = mh, cp_directSender = ds1, cp_ConnectionsHandler = ch,
                                     cp_peerDiscoverers = peerDiscoverers\<rparr>))))))))))"

section \<open>The messenger\<close>

definition validateSeeders :: "(peer_id \<Rightarrow> string) \<Rightarrow> ('sk, 'pk, 'w) p2pNode \<Rightarrow> string list \<Rightarrow> p2p_error option" where
  "validateSeeders idString node seeders =
     (case find (\<lambda>seeder. str_contains seeder (idString (nm_hostID node))) seeders of
        Some _ \<Rightarrow> Some ErrInvalidConfig | None \<Rightarrow> None)"

definition checkMessengerArgs :: "('lsk, 'lpk, 'sk, 'pk, 'c) ArgsNetworkMessenger \<Rightarrow> p2p_error option" where
  "checkMessengerArgs args =
     (if \<not> am_Marshaller args then Some ErrNilMarshaller
      else if \<not> am_SyncTimer args then Some ErrNilSyncTimer
      else if am_PreferredPeersHolder args = None then Some ErrNilPreferredPeersHolder
      else if am_PeersRatingHandler args = None then Some ErrNilPeersRatingHandler
      else if am_P2pPrivateKey args = None then Some ErrNilP2pPrivateKey
      else if am_P2pSingleSigner args = None then Some ErrNilP2pSingleSigner
      else if am_P2pKeyGenerator args = None then Some ErrNilP2pKeyGenerator
      else if \<not> am_Logger args then Some ErrNilLogger
      else None)"

definition newNetworkMessenger ::
    "('lsk, 'w, 'ps, 'tc) nm_env \<Rightarrow> ('lsk, 'lpk, 'sk, 'pk, 'c) ArgsNetworkMessenger \<Rightarrow> bool
     \<Rightarrow> (nm_error option + ('sk, 'pk, 'w) p2pNode \<times> ('ps, 'c, 'tc) nm_components) \<times> resources" where
  "newNetworkMessenger E args messageSigning =
     (case checkMessengerArgs args of Some e \<Rightarrow> (Inl (Some (P2PError e)), no_resources)
      | None \<Rightarrow>
        (case constructNodeWithPortRetry E args of
           (Inl e, res) \<Rightarrow> (Inl e, res)
         | (Inr node, res) \<Rightarrow>
           (case validateSeeders (env_idString E) node (kc_InitialPeerList (pc_KadDhtPeerDiscovery (am_P2pConfig args))) of
              Some e \<Rightarrow> (Inl (Some (P2PError e)), res)
            | None \<Rightarrow>
              (case addComponentsToNode E args node messageSigning of
                 Inl e \<Rightarrow> (Inl (Some (P2PError e)), res\<lparr>openHosts := openHosts res - 1\<rparr>)
               | Inr cps \<Rightarrow> (Inr (node, cps), res)))))"

definition NewNetworkMessenger ::
    "('lsk, 'w, 'ps, 'tc) nm_env \<Rightarrow> ('lsk, 'lpk, 'sk, 'pk, 'c) ArgsNetworkMessenger
     \<Rightarrow> (nm_error option + ('sk, 'pk, 'w) p2pNode \<times> ('ps, 'c, 'tc) nm_components) \<times> resources" where
  "NewNetworkMessenger E args = newNetworkMessenger E args True"

text \<open>
  \<^verbatim>\<open>Close\<close>: every part is closed, whatever the answers of the others are; the last error is returned. Closing a watcher never fails.
\<close>

definition messenger_Close ::
    "p2p_error option \<Rightarrow> p2p_error option \<Rightarrow> p2p_error option \<Rightarrow> p2p_error option \<Rightarrow> p2p_error option \<Rightarrow> ('sk, 'pk, 'w) p2pNode
     \<Rightarrow> resources \<Rightarrow> p2p_error option \<times> resources" where
  "messenger_Close errDebugger errPoc errConnMonitor errHost errPeerStore node res =
     (let answers = [mh_Close errDebugger, handler_Close errPoc errConnMonitor, errHost, None, errPeerStore];
          err = foldl (\<lambda>err e. case e of Some x \<Rightarrow> Some x | None \<Rightarrow> err) None answers
      in (err, res\<lparr>openHosts := openHosts res - 1, openWatchers := openWatchers res - watcher_goroutines (nm_connectionsWatcher node)\<rparr>))"

section \<open>Attempts and what they leave open\<close>

definition has_keys :: "('lsk, 'lpk, 'sk, 'pk, 'c) ArgsNetworkMessenger \<Rightarrow> bool" where
  "has_keys args \<longleftrightarrow> am_P2pPrivateKey args \<noteq> None \<and> am_P2pSingleSigner args \<noteq> None \<and> am_P2pKeyGenerator args \<noteq> None"

lemma checked_has_keys: "checkMessengerArgs args = None \<Longrightarrow> has_keys args"
  by (auto simp: checkMessengerArgs_def has_keys_def split: if_splits)

lemma signer_created: "has_keys args \<Longrightarrow>
    \<exists>s. NewP2PSignerWrapper (am_P2pKeyGenerator args) (am_P2pPrivateKey args) (am_P2pSingleSigner args) True = Inr s"
  by (auto simp: has_keys_def NewP2PSignerWrapper_def signer_checkArgs_def)

lemma constructNode_hosts:
  assumes "has_keys args" "constructNode E A args = (r, res)"
  shows "openHosts res = (if isl r then 0 else 1)"
proof -
  obtain s where "NewP2PSignerWrapper (am_P2pKeyGenerator args) (am_P2pPrivateKey args) (am_P2pSingleSigner args) True = Inr s"
    using signer_created [OF assms(1)] by blast
  then show ?thesis using assms(2) by (auto simp: constructNode_def Let_def split: sum.splits)
qed

definition bind_failure :: "('lsk, 'w, 'ps, 'tc) nm_env \<Rightarrow> ('lsk, 'lpk, 'sk, 'pk, 'c) ArgsNetworkMessenger \<Rightarrow> nat \<Rightarrow> bool" where
  "bind_failure E args i \<longleftrightarrow> (\<exists>e. fst (constructNode E (env_attempt E i) args) = Inl e \<and> str_contains (env_errorText E e) msgBindError)"

text \<open>The attempts \<open>i, \<dots>, i + n - 1\<close>: all but the last one fail to bind, and the last one decides.\<close>

definition attempts_ok ::
    "('lsk, 'w, 'ps, 'tc) nm_env \<Rightarrow> ('lsk, 'lpk, 'sk, 'pk, 'c) ArgsNetworkMessenger \<Rightarrow> nat \<Rightarrow> nat \<Rightarrow> nat
     \<Rightarrow> nm_error option + ('sk, 'pk, 'w) p2pNode \<Rightarrow> bool" where
  "attempts_ok E args k i n r \<longleftrightarrow> 0 < n \<and> n \<le> k \<and> (\<forall>j < n - 1. bind_failure E args (i + j)) \<and>
     (case fst (constructNode E (env_attempt E (i + n - 1)) args) of
        Inr node \<Rightarrow> r = Inr node
      | Inl e \<Rightarrow> r = Inl (Some e) \<and> (n = k \<or> \<not> str_contains (env_errorText E e) msgBindError))"

abbreviation attempt_left :: "('lsk, 'w, 'ps, 'tc) nm_env \<Rightarrow> ('lsk, 'lpk, 'sk, 'pk, 'c) ArgsNetworkMessenger \<Rightarrow> nat \<Rightarrow> resources" where
  "attempt_left E args i \<equiv> snd (constructNode E (env_attempt E i) args)"

lemma retryLoop_attempts:
  assumes "retryLoop E args (Suc k) i le res0 = (r, res)"
  shows "\<exists>n. attempts_ok E args (Suc k) i n r \<and>
    openHosts res = openHosts res0 + (\<Sum>j<n. openHosts (attempt_left E args (i + j))) \<and>
    openWatchers res = openWatchers res0 + (\<Sum>j<n. openWatchers (attempt_left E args (i + j)))"
  using assms
proof (induction k arbitrary: i le res0)
  case 0
  then show ?case
    by (intro exI [of _ 1]) (auto simp: attempts_ok_def split: sum.splits prod.splits if_splits)
next
  case (Suc k)
  obtain x r1 where c: "constructNode E (env_attempt E i) args = (x, r1)" by fastforce
  show ?case
  proof (cases "bind_failure E args i")
    case False
    then show ?thesis using Suc.prems c
      by (intro exI [of _ 1]) (auto simp: attempts_ok_def bind_failure_def split: sum.splits if_splits)
  next
    case True
    then obtain e where e: "x = Inl e" "str_contains (env_errorText E e) msgBindError" using c by (auto simp: bind_failure_def)
    then have "retryLoop E args (Suc k) (Suc i) (Some e) (add_resources res0 r1) = (r, res)"
      using Suc.prems c by (simp del: retryLoop.simps add: retryLoop.simps(2) [of E args "Suc k"])
    from Suc.IH [OF this] obtain n where n: "attempts_ok E args (Suc k) (Suc i) n r"
      "openHosts res = openHosts (add_resources res0 r1) + (\<Sum>j<n. openHosts (attempt_left E args (Suc i + j)))"
      "openWatchers res = openWatchers (add_resources res0 r1) + (\<Sum>j<n. openWatchers (attempt_left E args (Suc i + j)))"
      by blast
    have "bind_failure E args (i + j)" if "j < n" for j
      using that True n(1) by (cases j) (auto simp: attempts_ok_def)
    then have "attempts_ok E args (Suc (Suc k)) i (Suc n) r" using n(1) by (auto simp: attempts_ok_def split: sum.splits)
    moreover have "openHosts (attempt_left E args i) = openHosts r1" "openWatchers (attempt_left E args i) = openWatchers r1"
      using c by simp_all
    ultimately show ?thesis using n(2,3) by (intro exI [of _ "Suc n"]) (simp add: sum.lessThan_Suc_shift del: sum.lessThan_Suc)
  qed
qed


lemma constructNodeWithPortRetry_hosts:
  assumes "has_keys args" "constructNodeWithPortRetry E args = (r, res)"
  shows "openHosts res = (if isl r then 0 else 1)"
proof -
  have "retryLoop E args (Suc 9) 0 None no_resources = (r, res)"
    using assms by (simp add: constructNodeWithPortRetry_def maxRetriesIfBindError_def)
  from retryLoop_attempts [OF this] obtain n where n: "attempts_ok E args (Suc 9) 0 n r"
    "openHosts res = (\<Sum>j<n. openHosts (attempt_left E args j))" by auto
  have h: "openHosts (attempt_left E args j) = (if isl (fst (constructNode E (env_attempt E j) args)) then 0 else 1)" for j
    using constructNode_hosts [OF assms(1), of E "env_attempt E j"] by (metis prod.collapse)
  obtain m where m: "n = Suc m" using n(1) by (cases n) (auto simp: attempts_ok_def)
  have "openHosts (attempt_left E args j) = 0" if "j < m" for j
    using n(1) that m h [of j] by (auto simp: attempts_ok_def bind_failure_def)
  then have "openHosts res = openHosts (attempt_left E args m)" using n(2) m by simp
  then show ?thesis using n(1) m h [of m] by (auto simp: attempts_ok_def split: sum.splits)
qed

text \<open>
  C37. Hosts and failures: a messenger that was created has exactly one open host, and a failed construction closes the host again, with one
  exception: when the node finds its own id among the configured seeders, the error is returned and the host stays open.
\<close>

theorem messenger_open_hosts:
  assumes "newNetworkMessenger E args signing = (r, res)"
  shows "openHosts res =
    (case r of Inr _ \<Rightarrow> 1
     | Inl _ \<Rightarrow> if checkMessengerArgs args = None \<and> (\<exists>node res1. constructNodeWithPortRetry E args = (Inr node, res1) \<and>
            list_ex (\<lambda>seeder. str_contains seeder (env_idString E (nm_hostID node)))
              (kc_InitialPeerList (pc_KadDhtPeerDiscovery (am_P2pConfig args)))) then 1 else 0)"
proof (cases "checkMessengerArgs args")
  case (Some e)
  then show ?thesis using assms by (auto simp: newNetworkMessenger_def)
next
  case None
  obtain x res1 where c: "constructNodeWithPortRetry E args = (x, res1)" by fastforce
  note h = constructNodeWithPortRetry_hosts [OF checked_has_keys [OF None] c]
  have v: "validateSeeders idS node ss = None \<longleftrightarrow> \<not> list_ex (\<lambda>seeder. str_contains seeder (idS (nm_hostID node))) ss" for idS node ss
    by (auto simp: validateSeeders_def list_ex_iff find_None_iff split: option.splits) (metis find_None_iff option.distinct(1))
  have v1: "validateSeeders idS node ss = Some e \<Longrightarrow> list_ex (\<lambda>seeder. str_contains seeder (idS (nm_hostID node))) ss" for idS node ss e
    using v [of idS node ss] by simp
  show ?thesis
    using assms None c h v [of "env_idString E"]
    by (cases x) (auto simp: newNetworkMessenger_def dest: v1 split: option.splits sum.splits)
qed

section \<open>A new messenger\<close>

lemma addComponents_parts:
  assumes "addComponentsToNode E args node signing = Inr cps"
  obtains pubSub poc shd0 shd mon ds oclb where
    "newPeersOnChannel True refreshPeersOnTopicInterval ttlPeersOnTopic (am_Logger args) = Inr poc"
    "createSharder E args node = Inr shd0" "createDiscoverers args shd0 = Inr (cp_peerDiscoverers cps)"
    "shd = foldl sharder_of shd0 (cp_peerDiscoverers cps)"
    "createConnectionMonitor args shd (cp_peerDiscoverers cps) = Inr mon"
    "NewDirectSender True True True (am_Marshaller args) (am_Logger args) (env_unixNano E) (env_emptyTimeCache E) = Inr ds"
    "NewOutgoingChannelLoadBalancer (am_Logger args) = Inr oclb"
    "NewMessagesHandler (handlerArgs args pubSub ds oclb mon) = Inr (cp_MessageHandler cps, cp_directSender cps)"
    "NewConnectionsHandler (connectionsArgs args node poc shd mon (cp_peerDiscoverers cps)) = Inr (cp_ConnectionsHandler cps)"
  using assms by (auto simp: addComponentsToNode_def Let_def split: sum.splits option.splits prod.splits)

lemma discoverer_sharder:
  assumes "createKadDhtPeerDiscoverer pd i = Inr d" "pd_Sharder pd = Some s"
  shows "sharder_of s' d = sharder_SetSeeders s (kc_InitialPeerList (pd_KadDht pd))"
  using assms
  by (auto simp: createKadDhtPeerDiscoverer_def createKadDhtDiscoverer_def NewContinuousKadDhtDiscoverer_def
      NewOptimizedKadDhtDiscoverer_def prepareArguments_def NewHostWithConnectionManagement_def kad_arg_def sharder_of_def Let_def
      split: if_splits sum.splits option.splits)

lemma createAll_sharders:
  assumes "createAll pd ids = Inr ds" "pd_Sharder pd = Some s" "d \<in> set ds"
  shows "sharder_of s' d = sharder_SetSeeders s (kc_InitialPeerList (pd_KadDht pd))"
  using assms by (induction ids arbitrary: ds) (auto dest: discoverer_sharder split: sum.splits)

lemma createAll_length: "createAll pd ids = Inr ds \<Longrightarrow> length ds = length ids"
  by (induction ids arbitrary: ds) (auto split: sum.splits)

definition shared_sharder :: "('lsk, 'lpk, 'sk, 'pk, 'c) ArgsNetworkMessenger \<Rightarrow> sharder \<Rightarrow> sharder" where
  "shared_sharder args shd =
     (let cfg = pc_KadDhtPeerDiscovery (am_P2pConfig args)
      in if kc_Enabled cfg then sharder_SetSeeders shd (kc_InitialPeerList cfg) else shd)"

lemma createDiscoverers_shared:
  assumes "createDiscoverers args shd = Inr ds"
  shows "foldl sharder_of shd ds = shared_sharder args shd" and "d \<in> set ds \<Longrightarrow> sharder_of (shared_sharder args shd) d = shared_sharder args shd"
    and "length ds = (let cfg = pc_KadDhtPeerDiscovery (am_P2pConfig args) in if kc_Enabled cfg then length (kc_ProtocolIDs cfg) else 1)"
proof -
  let ?pd = "\<lparr>pd_hasContext = True, pd_hasHost = True, pd_Sharder = Some shd, pd_KadDht = pc_KadDhtPeerDiscovery (am_P2pConfig args),
        pd_ShardingType = ShardingType (pc_Sharding (am_P2pConfig args)), pd_hasConnectionsWatcher = True,
        pd_hasLogger = am_Logger args\<rparr>"
  have ds: "if kc_Enabled (pd_KadDht ?pd) then ds \<noteq> [] \<and> createAll ?pd (kc_ProtocolIDs (pd_KadDht ?pd)) = Inr ds else ds = [NilDiscoverer]"
    using assms createAll_length [of ?pd "kc_ProtocolIDs (pd_KadDht ?pd)" ds]
    by (auto simp: createDiscoverers_def NewPeerDiscoverers_def split: if_splits)
  have same: "kc_Enabled (pd_KadDht ?pd) \<Longrightarrow> d \<in> set ds \<Longrightarrow> sharder_of s d = shared_sharder args shd" for s d
    using ds createAll_sharders [of ?pd _ ds shd d s] by (auto simp: shared_sharder_def Let_def)
  have fold: "(\<And>s d. d \<in> set xs \<Longrightarrow> sharder_of s d = z) \<Longrightarrow> xs \<noteq> [] \<Longrightarrow> foldl sharder_of s0 xs = z" for xs z s0
    by (induction xs rule: rev_induct) auto
  show "foldl sharder_of shd ds = shared_sharder args shd"
    using ds same fold [of ds "shared_sharder args shd" shd] by (auto simp: shared_sharder_def sharder_of_def Let_def split: if_splits)
  show "d \<in> set ds \<Longrightarrow> sharder_of (shared_sharder args shd) d = shared_sharder args shd"
    using ds same by (auto simp: sharder_of_def split: if_splits)
  show "length ds = (let cfg = pc_KadDhtPeerDiscovery (am_P2pConfig args) in if kc_Enabled cfg then length (kc_ProtocolIDs cfg) else 1)"
    using ds createAll_length by (auto simp: Let_def split: if_splits)
qed


section \<open>An example\<close>

text \<open>A node with one transport and the optimized discovery; a port is taken as long as \<open>busy\<close> says so.\<close>

definition ex_attempt :: "bool \<Rightarrow> byte attempt" where
  "ex_attempt busy = \<lparr>at_checkFreePort = (\<lambda>_. None), at_shuffle = (\<lambda>ps. ps), at_newResourceManager = (\<lambda>_. None),
     at_newHost = (\<lambda>_ _ _ _. if busy then Inl msgBindError else Inr ''node'')\<rparr>"

definition ex_nm_env :: "(nat \<Rightarrow> bool) \<Rightarrow> (byte, unit, unit, string set) nm_env" where
  "ex_nm_env busy = \<lparr>env_attempt = (\<lambda>i. ex_attempt (busy i)), env_errorText = (\<lambda>e. case e of LibError s \<Rightarrow> s | _ \<Rightarrow> []),
     env_idString = (\<lambda>p. p), env_emptyWatchCache = (), env_newGossipSub = (\<lambda>_. Inr ()), env_newThrottler = (\<lambda>_. None),
     env_convert = bytes_of_string, env_unixNano = 7, env_emptyTimeCache = {}\<rparr>"

definition ex_config :: "string list \<Rightarrow> P2PConfig" where
  "ex_config seeders =
     \<lparr>pc_Node = \<lparr>nc_Port = ''0'', nc_ThresholdMinConnectedPeers = 3,
        nc_Transports = \<lparr>tc_ListenAddress = ''/tcp/%d'', tc_PreventPortReuse = False, tc_QUICAddress = [],
          tc_WebSocketAddress = [], tc_WebTransportAddress = []\<rparr>,
        nc_ResourceLimiter = \<lparr>rl_Type = ''default autoscale'', ManualSystemMemoryInMB = 0, ManualMaximumFD = 0\<rparr>\<rparr>,
      pc_KadDhtPeerDiscovery = \<lparr>kc_Enabled = True, kc_Type = ''optimized'', kc_RefreshIntervalInSec = 10, kc_ProtocolIDs = [''/a'', ''/b''],
        kc_InitialPeerList = seeders, kc_BucketSize = 100, kc_RoutingTableRefreshIntervalInSec = 300\<rparr>,
      pc_Sharding = \<lparr>TargetPeerCount = 36, cfg_MaxIntraShardValidators = 7, cfg_MaxCrossShardValidators = 15, cfg_MaxIntraShardObservers = 2,
        cfg_MaxCrossShardObservers = 3, cfg_MaxSeeders = 2, ShardingType = ''NilListSharder''\<rparr>\<rparr>"

definition ex_nm_args :: "string list \<Rightarrow> (byte, byte, byte, byte, peer_id \<rightharpoonup> cache_val) ArgsNetworkMessenger" where
  "ex_nm_args seeders = \<lparr>am_Marshaller = True, am_P2pConfig = ex_config seeders, am_SyncTimer = True,
     am_PreferredPeersHolder = Some \<lparr>preferredConnAddresses = [], connAddrToPeersInfo = Map.empty, tempPeerIDsWaitingForShard = Map.empty,
       peerIDsPerShard = Map.empty, peerIDs = Map.empty\<rparr>,
     am_PeersRatingHandler = Some two_tiers, am_ConnectionWatcherType = ''print'', am_P2pPrivateKey = Some 1,
     am_P2pSingleSigner = Some ex_signer, am_P2pKeyGenerator = Some ex_keys, am_Logger = True\<rparr>"

definition ex_node :: "(byte, byte, unit) p2pNode" where
  "ex_node = \<lparr>nm_signer = (1, ex_signer\<lparr>cr_ConvertPeerIDToPublicKey := ConvertPeerIDToPublicKey ex_keys,
       cr_PrivateKeyFromByteArray := kg_PrivateKeyFromByteArray ex_keys\<rparr>),
     nm_hostID = ''node'', nm_port = 0, nm_connectionsWatcher = Printing \<lparr>pcw_timeCacher = (), pcw_timeToLive = ttlConnectionsWatcher\<rparr>\<rparr>"

lemma ex_port: "getPort h sh l ''0'' = Inr 0"
proof -
  have "Atoi ''0'' = Some 0" by code_simp
  then show ?thesis by (simp add: getPort_def)
qed

lemma ex_transport: "parseTransportOptions \<lparr>tc_ListenAddress = ''/tcp/%d'', tc_PreventPortReuse = False, tc_QUICAddress = [],
    tc_WebSocketAddress = [], tc_WebTransportAddress = []\<rparr> 0 = Inr ([TCP False], [''/tcp/0''])"
proof -
  have "strictCheckStringForIntMarkup ''/tcp/%d''" "sprintf_int ''/tcp/%d'' 0 = ''/tcp/0''" by code_simp+
  then show ?thesis by (simp add: parseTransportOptions_ok configured_def)
qed

lemma ex_nm_args_sel [simp]:
  "am_P2pConfig (ex_nm_args ss) = ex_config ss"
  "kc_InitialPeerList (pc_KadDhtPeerDiscovery (ex_config ss)) = ss" "kc_Enabled (pc_KadDhtPeerDiscovery (ex_config ss))"
  "kc_ProtocolIDs (pc_KadDhtPeerDiscovery (ex_config ss)) = [''/a'', ''/b'']"
  by (simp_all add: ex_nm_args_def ex_config_def)

lemma ex_node_sel [simp]: "nm_hostID ex_node = ''node''" "env_idString (ex_nm_env busy) p = p"
  by (simp_all add: ex_node_def ex_nm_env_def)

lemma ex_private_key: "ConvertPrivateKeyToLibp2pPrivateKey ex_keys (Some 1) = Inr 1"
  by (simp add: ConvertPrivateKeyToLibp2pPrivateKey_def ex_keys_def)

lemma ex_constructNode: "constructNode (ex_nm_env busy) (ex_attempt b) (ex_nm_args ss) =
    (if b then (Inl (LibError msgBindError), \<lparr>openHosts = 0, openWatchers = 1\<rparr>) else (Inr ex_node, \<lparr>openHosts = 1, openWatchers = 1\<rparr>))"
  by (simp add: constructNode_def ex_nm_args_def ex_nm_env_def ex_config_def ex_port ex_transport ex_attempt_def NewConnectionsWatcher_def
      NewPrintConnectionsWatcher_def watcher_goroutines_def ex_private_key CreateResourceLimiterOption_def
      NewP2PSignerWrapper_def signer_checkArgs_def ex_node_def ttlConnectionsWatcher_def)

lemma ex_nm_env_attempt [simp]: "env_attempt (ex_nm_env busy) i = ex_attempt (busy i)"
  by (simp add: ex_nm_env_def)

lemma ex_retry:
  "constructNodeWithPortRetry (ex_nm_env (\<lambda>i. i < 2)) (ex_nm_args ss) = (Inr ex_node, \<lparr>openHosts = 1, openWatchers = 3\<rparr>)"
proof -
  have t: "env_errorText (ex_nm_env (\<lambda>i. i < 2)) (LibError msgBindError) = msgBindError" by (simp add: ex_nm_env_def)
  have "retryLoop (ex_nm_env (\<lambda>i. i < 2)) (ex_nm_args ss) (Suc (Suc (Suc k))) 0 None no_resources =
      (Inr ex_node, \<lparr>openHosts = 1, openWatchers = 3\<rparr>)" for k
    by (simp add: ex_constructNode t add_resources_def no_resources_def)
  from this [of 7] show ?thesis by (simp only: constructNodeWithPortRetry_def maxRetriesIfBindError_def) simp
qed


lemma ex_checked: "checkMessengerArgs (ex_nm_args ss) = None"
  by (simp add: checkMessengerArgs_def ex_nm_args_def)

theorem messenger_open_hosts_witness:
  "\<exists>res. newNetworkMessenger (ex_nm_env (\<lambda>i. i < 2)) (ex_nm_args [''/tcp/1/p2p/node'']) True = (Inl (Some (P2PError ErrInvalidConfig)), res) \<and>
     openHosts res = 1"
proof -
  let ?E = "ex_nm_env (\<lambda>i. i < 2)" and ?args = "ex_nm_args [''/tcp/1/p2p/node'']" and ?res = "\<lparr>openHosts = 1, openWatchers = 3\<rparr>"
  have id: "str_contains ''/tcp/1/p2p/node'' ''node''" by code_simp
  then have v: "validateSeeders (env_idString ?E) ex_node [''/tcp/1/p2p/node''] = Some ErrInvalidConfig"
    by (simp add: validateSeeders_def)
  have new: "newNetworkMessenger ?E ?args True = (Inl (Some (P2PError ErrInvalidConfig)), ?res)"
    by (simp add: newNetworkMessenger_def ex_checked ex_retry v)
  have "checkMessengerArgs ?args = None \<and> (\<exists>node res1. constructNodeWithPortRetry ?E ?args = (Inr node, res1) \<and>
      list_ex (\<lambda>seeder. str_contains seeder (env_idString ?E (nm_hostID node)))
        (kc_InitialPeerList (pc_KadDhtPeerDiscovery (am_P2pConfig ?args))))"
    using id by (simp add: ex_checked ex_retry)
  with messenger_open_hosts [OF new] have "openHosts ?res = 1" by (simp only: sum.case if_True simp_thms)
  with new show ?thesis by blast
qed

lemma ex_components: "\<exists>cps. addComponentsToNode (ex_nm_env busy) (ex_nm_args []) ex_node True = Inr cps"
  by (simp add: addComponentsToNode_def createPubSub_def newPeersOnChannel_def createSharder_def NewSharder_def createDiscoverers_def
      NewPeerDiscoverers_def createKadDhtPeerDiscoverer_def createKadDhtDiscoverer_def NewOptimizedKadDhtDiscoverer_def
      prepareArguments_def NewHostWithConnectionManagement_def kad_arg_def createConnectionMonitor_def NewLibp2pConnectionMonitorSimple_def
      checkArgs_def NewDirectSender_def NewOutgoingChannelLoadBalancer_def NewMessagesHandler_def checkArgMessagesHandler_def
      handlerArgs_def RegisterDirectMessageProcessor_def NewConnectionsHandler_def checkArgConnectionsHandler_def connectionsArgs_def
      ex_nm_args_def ex_config_def ex_nm_env_def refreshPeersOnTopicInterval_def ttlPeersOnTopic_def Let_def)


end
