(* ===== verification/Ws_Handlers.thy ===== *)
theory Ws_Handlers
  imports Ws_Host
begin

text \<open>
  Payload handlers of the websocket host: \<^verbatim>\<open>websocket/nilPayloadHandler.go\<close>, \<^verbatim>\<open>SetPayloadHandler\<close> of the transceiver, the client and the server,
  and which handler gets the messages of which client. The handlers of the node are objects outside of the repository.
\<close>

section \<open>Handlers\<close>

datatype 'h PayloadHandler = NilPayloadHandler | UserHandler 'h

record 'h handler_ops =
  h_ProcessPayload :: "'h \<Rightarrow> bytes \<Rightarrow> string \<Rightarrow> uint32 \<Rightarrow> string option"
  h_Close :: "'h \<Rightarrow> string option"

definition ProcessPayload :: "'h handler_ops \<Rightarrow> 'h PayloadHandler \<Rightarrow> bytes \<Rightarrow> string \<Rightarrow> uint32 \<Rightarrow> string option" where
  "ProcessPayload H ph payload topic version =
     (case ph of NilPayloadHandler \<Rightarrow> None | UserHandler h \<Rightarrow> h_ProcessPayload H h payload topic version)"

definition handler_close :: "'h handler_ops \<Rightarrow> 'h PayloadHandler \<Rightarrow> string option" where
  "handler_close H ph = (case ph of NilPayloadHandler \<Rightarrow> None | UserHandler h \<Rightarrow> h_Close H h)"

definition NewWebSocketPayloadConverter :: "bool \<Rightarrow> ws_error + converter_ops" where
  "NewWebSocketPayloadConverter hasMarshaller = (if \<not> hasMarshaller then Inl WsErrNilMarshaller else Inr protoConverter)"

section \<open>A transceiver with its handler\<close>

record 'h handled_transceiver =
  ht_transceiver :: wsTransceiver
  ht_payloadHandler :: "'h PayloadHandler"

definition NewHandledTransceiver :: "ArgsTransceiver \<Rightarrow> ws_error + 'h handled_transceiver" where
  "NewHandledTransceiver args =
     map_sum id (\<lambda>wt. \<lparr>ht_transceiver = wt, ht_payloadHandler = NilPayloadHandler\<rparr>) (NewTransceiver args)"

text \<open>The argument is \<^const>\<open>None\<close> for a nil interface.\<close>

definition transceiver_SetPayloadHandler ::
    "'h handled_transceiver \<Rightarrow> 'h PayloadHandler option \<Rightarrow> ws_error option \<times> 'h handled_transceiver" where
  "transceiver_SetPayloadHandler ht handler =
     (case handler of None \<Rightarrow> (Some ErrNilPayloadProcessor, ht) | Some h \<Rightarrow> (None, ht\<lparr>ht_payloadHandler := h\<rparr>))"

definition client_SetPayloadHandler ::
    "'h handled_transceiver \<Rightarrow> 'h PayloadHandler option \<Rightarrow> ws_error option \<times> 'h handled_transceiver" where
  "client_SetPayloadHandler clientTransceiver handler = transceiver_SetPayloadHandler clientTransceiver handler"

text \<open>The safe closer is closed in any case.\<close>

definition transceiver_Close :: "'h handler_ops \<Rightarrow> 'h handled_transceiver \<Rightarrow> ws_error option" where
  "transceiver_Close H ht = map_option WsErrOther (handler_close H (ht_payloadHandler ht))"

text \<open>A message that was read: what the handler of the node is given, with the handler, and the acknowledge.\<close>

definition handled_receive ::
    "converter_ops \<Rightarrow> 'h handler_ops \<Rightarrow> 'h handled_transceiver \<Rightarrow> bytes
     \<Rightarrow> (('h \<times> bytes \<times> string \<times> uint32) option \<times> bytes option \<times> 'h handled_transceiver) option" where
  "handled_receive C H ht payload =
     (case verifyPayloadAndSendAckIfNeeded C (ProcessPayload H (ht_payloadHandler ht)) (ht_transceiver ht) payload of
        None \<Rightarrow> None
      | Some (r, wt) \<Rightarrow>
        Some ((case ht_payloadHandler ht of NilPayloadHandler \<Rightarrow> None | UserHandler h \<Rightarrow> map_option (Pair h) (r_processed r)),
          r_ack r, ht\<lparr>ht_transceiver := wt\<rparr>))"

section \<open>The server with its handlers\<close>

text \<open>The handler of the server, and of the transceiver of each client.\<close>

record ('c, 'h) handled_server =
  hs_server :: "'c server"
  hs_payloadHandler :: "'h PayloadHandler option"
  hs_clientHandlers :: "string \<rightharpoonup> 'h PayloadHandler"

definition NewHandledServer :: "ArgsWebSocketServer \<Rightarrow> ws_error + ('c, 'h) handled_server" where
  "NewHandledServer args =
     map_sum id (\<lambda>s. \<lparr>hs_server = s, hs_payloadHandler = Some NilPayloadHandler, hs_clientHandlers = Map.empty\<rparr>)
       (NewWebSocketServer args)"

definition server_SetPayloadHandler ::
    "('c, 'h) handled_server \<Rightarrow> 'h PayloadHandler option \<Rightarrow> ws_error option \<times> ('c, 'h) handled_server" where
  "server_SetPayloadHandler s handler = (None, s\<lparr>hs_payloadHandler := handler\<rparr>)"

text \<open>
  \<^const>\<open>connectionHandler\<close> with the handler: a transceiver that could not be made is only logged, and a handler that is nil leaves the
  transceiver with the one that does nothing.
\<close>

definition hs_connectionHandler :: "('c, 'h) handled_server \<Rightarrow> 'c wsConnClient \<Rightarrow> ('c, 'h) handled_server" where
  "hs_connectionHandler s connection =
     (let s1 = connectionHandler (hs_server s) connection in
      case NewHandledTransceiver \<lparr>ta_hasPayloadConverter = True, ta_hasLog = True,
          ta_RetryDurationInSec = sv_retryDuration (hs_server s), ta_AckTimeoutInSec = sv_ackTimeoutInSec (hs_server s),
          ta_BlockingAckOnError = sv_blockingAckOnError (hs_server s), ta_WithAcknowledge = sv_withAcknowledge (hs_server s),
          ta_PayloadVersion = sv_payloadVersion (hs_server s)\<rparr> of
        Inl _ \<Rightarrow> s
      | Inr ht \<Rightarrow> s\<lparr>hs_server := s1, hs_clientHandlers := (hs_clientHandlers s)(clientID connection \<mapsto>
          ht_payloadHandler (snd (transceiver_SetPayloadHandler ht (hs_payloadHandler s))))\<rparr>)"

text \<open>A request on the route of the server: upgrading the connection may fail.\<close>

definition addClientFunc :: "string + (string \<times> 'c) \<Rightarrow> ('c, 'h) handled_server \<Rightarrow> ('c, 'h) handled_server" where
  "addClientFunc upgraded s =
     (case upgraded of Inl _ \<Rightarrow> s | Inr (i, ws) \<Rightarrow> hs_connectionHandler s (NewWSConnClientWithConn i ws))"

definition hs_connectionEnded :: "('c, 'h) handled_server \<Rightarrow> 'c wsConnClient \<Rightarrow> ('c, 'h) handled_server" where
  "hs_connectionEnded s connection =
     s\<lparr>hs_server := connectionEnded (hs_server s) connection,
       hs_clientHandlers := (hs_clientHandlers s)(clientID connection := None)\<rparr>"

text \<open>What the transceiver of a client does with a message from it.\<close>

definition hs_receive ::
    "converter_ops \<Rightarrow> 'h handler_ops \<Rightarrow> ('c, 'h) handled_server \<Rightarrow> string \<Rightarrow> bytes
     \<Rightarrow> (('h \<times> bytes \<times> string \<times> uint32) option \<times> bytes option) option" where
  "hs_receive C H s i payload =
     (case sv_transceiversAndConn (hs_server s) i of None \<Rightarrow> None
      | Some t \<Rightarrow> (case hs_clientHandlers s i of None \<Rightarrow> None
        | Some h \<Rightarrow> map_option (\<lambda>(p, a, _). (p, a))
            (handled_receive C H \<lparr>ht_transceiver = tc_transceiver t, ht_payloadHandler = h\<rparr> payload)))"

section \<open>Which handler gets the messages\<close>

text \<open>The clients of the server are exactly those whose transceivers have a handler.\<close>

definition handlers_inv :: "('c, 'h) handled_server \<Rightarrow> bool" where
  "handlers_inv s \<longleftrightarrow> dom (hs_clientHandlers s) = dom (sv_transceiversAndConn (hs_server s))"

lemma handlers_inv_ops:
  "NewHandledServer args = Inr s \<Longrightarrow> handlers_inv s"
  "handlers_inv s \<Longrightarrow> handlers_inv (snd (server_SetPayloadHandler s handler))"
  "handlers_inv s \<Longrightarrow> handlers_inv (addClientFunc upgraded s)"
  "handlers_inv s \<Longrightarrow> handlers_inv (hs_connectionEnded s connection)"
  by (auto simp: handlers_inv_def NewHandledServer_def NewWebSocketServer_def server_SetPayloadHandler_def addClientFunc_def
      hs_connectionHandler_def NewHandledTransceiver_def connectionHandler_def addTransceiverAndConn_def hs_connectionEnded_def
      connectionEnded_def th_remove_def Let_def map_sum_def split: sum.splits option.splits)

lemma connect_handled:
  assumes "NewTransceiver \<lparr>ta_hasPayloadConverter = True, ta_hasLog = True,
      ta_RetryDurationInSec = sv_retryDuration (hs_server s), ta_AckTimeoutInSec = sv_ackTimeoutInSec (hs_server s),
      ta_BlockingAckOnError = sv_blockingAckOnError (hs_server s), ta_WithAcknowledge = sv_withAcknowledge (hs_server s),
      ta_PayloadVersion = sv_payloadVersion (hs_server s)\<rparr> = Inr wt"
    and "hs_payloadHandler s = Some h"
  shows "addClientFunc (Inr (i, ws)) s = s\<lparr>hs_server := (hs_server s)\<lparr>sv_transceiversAndConn :=
      addTransceiverAndConn (sv_transceiversAndConn (hs_server s)) wt (NewWSConnClientWithConn i ws)\<rparr>,
      hs_clientHandlers := (hs_clientHandlers s)(i \<mapsto> h)\<rparr>"
  using assms
  by (simp add: addClientFunc_def hs_connectionHandler_def NewHandledTransceiver_def connectionHandler_def
      transceiver_SetPayloadHandler_def NewWSConnClientWithConn_def Let_def)

text \<open>
  C40. A payload from a client that connected before \<^verbatim>\<open>SetPayloadHandler\<close> is acknowledged and lost: the server accepts clients as soon as it is created, and
  setting the handler does not reach their transceivers. What such a client sends is answered with an acknowledge and
  given to no handler, while the same payload from a client that connects later reaches the handler.
\<close>

theorem early_client_payload_lost:
  assumes "ws_converter C encodable" and "NewHandledServer args = Inr s0"
    and "sa_WithAcknowledge args \<longrightarrow> sa_AckTimeoutInSeconds args \<noteq> 0" and "i \<noteq> j"
    and "encodable m" and "ConstructPayload C m = Inr d" and "wm_Type m = PayloadMessage"
    and "wm_WithAcknowledge m" and "ackPayload C m = Some ack"
    and "h_ProcessPayload H h (wm_Payload m) (wm_Topic m) (wm_Version m) = None"
  shows "let s1 = addClientFunc (Inr (i, ws)) s0;
             (err, s2) = server_SetPayloadHandler s1 (Some (UserHandler h));
             s3 = addClientFunc (Inr (j, ws')) s2
    in err = None \<and> hs_receive C H s3 i d = Some (None, Some ack) \<and>
       hs_receive C H s3 j d = Some (Some (h, wm_Payload m, wm_Topic m, wm_Version m), Some ack)"
proof -
  obtain s where s: "NewWebSocketServer args = Inr s"
    "s0 = \<lparr>hs_server = s, hs_payloadHandler = Some NilPayloadHandler, hs_clientHandlers = Map.empty\<rparr>"
    using assms(2) by (auto simp: NewHandledServer_def map_sum_def split: sum.splits)
  have "\<exists>wt. NewTransceiver \<lparr>ta_hasPayloadConverter = True, ta_hasLog = True, ta_RetryDurationInSec = sv_retryDuration s,
      ta_AckTimeoutInSec = sv_ackTimeoutInSec s, ta_BlockingAckOnError = sv_blockingAckOnError s,
      ta_WithAcknowledge = sv_withAcknowledge s, ta_PayloadVersion = sv_payloadVersion s\<rparr> = Inr wt"
    using s(1) assms(3)
    by (auto simp: NewWebSocketServer_def NewTransceiver_def transceiver_checkArgs_def server_checkArgs_def split: if_splits)
  then obtain wt where wt: "NewTransceiver \<lparr>ta_hasPayloadConverter = True, ta_hasLog = True, ta_RetryDurationInSec = sv_retryDuration s,
      ta_AckTimeoutInSec = sv_ackTimeoutInSec s, ta_BlockingAckOnError = sv_blockingAckOnError s,
      ta_WithAcknowledge = sv_withAcknowledge s, ta_PayloadVersion = sv_payloadVersion s\<rparr> = Inr wt" by blast
  have ext: "ExtractWsMessage C d = Inr m" "d \<noteq> []"
    using ws_converter.extract_constructed [OF assms(1,5,6)] ws_converter.constructed_nonempty [OF assms(1,5,6)] assms(7)
    by (simp_all add: PayloadMessage_def)
  have rcv: "verifyPayloadAndSendAckIfNeeded C hdl w d =
      Some (\<lparr>r_processed = Some (wm_Payload m, wm_Topic m, wm_Version m), r_ack = Some ack\<rparr>, w)"
    if "hdl (wm_Payload m) (wm_Topic m) (wm_Version m) = None" for hdl w
    using that ext assms(7,9) by (simp add: verifyPayloadAndSendAckIfNeeded_def AckMessage_def PayloadMessage_def Let_def)
  show ?thesis
    using assms(4,10) wt rcv
    by (simp add: s(2) connect_handled server_SetPayloadHandler_def hs_receive_def handled_receive_def ProcessPayload_def
        addTransceiverAndConn_def NewWSConnClientWithConn_def Let_def)
qed

definition example_ws_args :: ArgsWebSocketServer where
  "example_ws_args = \<lparr>sa_RetryDurationInSeconds = 1, sa_AckTimeoutInSeconds = 1, sa_BlockingAckOnError = True, sa_WithAcknowledge = True,
     sa_DropMessagesIfNoConnection = False, sa_URL = ''localhost'', sa_hasPayloadConverter = True, sa_hasLog = True, sa_PayloadVersion = 1\<rparr>"

theorem early_client_payload_lost_witness:
  "\<exists>s0 d ack. (NewHandledServer example_ws_args :: ws_error + (nat, nat) handled_server) = Inr s0 \<and>
     (let s1 = addClientFunc (Inr (''a'', 1)) s0;
          (err, s2) = server_SetPayloadHandler s1 (Some (UserHandler 5));
          s3 = addClientFunc (Inr (''b'', 2)) s2
      in err = None \<and>
         hs_receive protoConverter \<lparr>h_ProcessPayload = (\<lambda>_ _ _ _. None), h_Close = (\<lambda>_. None)\<rparr> s3 ''a'' d = Some (None, Some ack) \<and>
         hs_receive protoConverter \<lparr>h_ProcessPayload = (\<lambda>_ _ _ _. None), h_Close = (\<lambda>_. None)\<rparr> s3 ''b'' d =
           Some (Some (5, [7], ''t'', 1), Some ack))"
proof -
  let ?m = "outgoing example_tr 1 [7] ''t''"
  have sized: "WsMessage_sized ?m" "WsMessage_sized (WsMessage_zero\<lparr>wm_Counter := 1, wm_Type := AckMessage\<rparr>)"
    by (simp_all add: WsMessage_sized_def fits_int_def outgoing_def example_tr_def WsMessage_enc_def WsMessage_zero_def AckMessage_def
        enc_varint_field_def enc_bytes_field_def enc_nat.simps bool_word_def bytes_of_string_def PayloadMessage_def)
  obtain d where d: "ConstructPayload protoConverter ?m = Inr d" using sized(1) by (simp add: protoConverter_def WsMessage_Marshal_enc)
  obtain ack where ack: "ackPayload protoConverter ?m = Some ack"
    using sized(2) by (simp add: ackPayload_def protoConverter_def WsMessage_Marshal_enc outgoing_def example_tr_def)
  obtain s0 :: "(nat, nat) handled_server" where s0: "NewHandledServer example_ws_args = Inr s0"
    by (simp add: NewHandledServer_def NewWebSocketServer_def server_checkArgs_def example_ws_args_def)
  have m: "wm_Type ?m = PayloadMessage" "wm_WithAcknowledge ?m" "wm_Payload ?m = [7]" "wm_Topic ?m = ''t''" "wm_Version ?m = 1"
    by (simp_all add: outgoing_def example_tr_def)
  have "''a'' \<noteq> ''b''" by simp
  moreover have "sa_WithAcknowledge example_ws_args \<longrightarrow> sa_AckTimeoutInSeconds example_ws_args \<noteq> 0" by (simp add: example_ws_args_def)
  moreover have "h_ProcessPayload \<lparr>h_ProcessPayload = (\<lambda>_ _ _ _. None), h_Close = (\<lambda>_. None)\<rparr> (5 :: nat)
      (wm_Payload ?m) (wm_Topic ?m) (wm_Version ?m) = None" by simp
  ultimately show ?thesis
    using early_client_payload_lost [OF proto_ws.ws_converter_axioms s0 _ _ sized(1) d m(1,2) ack, where i = "''a''" and j = "''b''"
        and H = "\<lparr>h_ProcessPayload = (\<lambda>_ _ _ _. None), h_Close = (\<lambda>_. None)\<rparr>" and h = "5 :: nat" and ws = 1 and ws' = 2] s0
    unfolding m(3-5) by blast
qed

end
