(* ===== verification/Bootstrap_Loop.thy ===== *)
theory Bootstrap_Loop
  imports Discovery
begin

text \<open>
  The goroutines of the continuous discoverer (\<^verbatim>\<open>connectToInitialAndBootstrap\<close>, \<^verbatim>\<open>bootstrap\<close> and \<^verbatim>\<open>ReconnectToNetwork\<close> of
  \<^verbatim>\<open>p2p/libp2p/discovery/continuousKadDhtDiscoverer.go\<close>) and the host that connects to addresses (\<^verbatim>\<open>p2p/libp2p/connectableHost.go\<close>).
\<close>

section \<open>Connecting to an address\<close>

text \<open>\<open>newMultiaddr\<close> and \<open>addrInfo\<close> are \<^verbatim>\<open>multiaddr.NewMultiaddr\<close> and \<^verbatim>\<open>peer.AddrInfoFromP2pAddr\<close>.\<close>

definition ch_AddressToPeerInfo :: "(string \<Rightarrow> string + 'ma) \<Rightarrow> ('ma \<Rightarrow> string + addr_info) \<Rightarrow> string \<Rightarrow> string + addr_info" where
  "ch_AddressToPeerInfo newMultiaddr addrInfo address =
     (case newMultiaddr address of Inl e \<Rightarrow> Inl e | Inr multiAddr \<Rightarrow> addrInfo multiAddr)"

definition ConnectToPeer :: "'n host_ops \<Rightarrow> 'n \<Rightarrow> string \<Rightarrow> string option \<times> 'n" where
  "ConnectToPeer H n address =
     (case AddressToPeerInfo H address of Inl e \<Rightarrow> (Some e, n) | Inr pInfo \<Rightarrow> host_Connect H n pInfo)"

section \<open>The goroutine of a started table\<close>

text \<open>
  The goroutine first waits for a seeder (\<open>AwaitingSeeder\<close>); then it alternates between looking up peers (\<open>LookingUp\<close>), reconnecting after a failed look up
  (\<open>Reconnecting\<close>) and pausing for the refresh interval (\<open>Pausing\<close>); when the context is done it returns.
\<close>

datatype cd_phase = AwaitingSeeder | LookingUp | Reconnecting | Pausing | LoopReturned

record cd_loop =
  lp_phase :: cd_phase
  lp_lookups :: nat
  lp_signals :: nat
  lp_reconnects :: nat

definition loop_start :: cd_loop where
  "loop_start = \<lparr>lp_phase = AwaitingSeeder, lp_lookups = 0, lp_signals = 0, lp_reconnects = 0\<rparr>"

text \<open>
  When the channel of \<^const>\<open>connectToOnePeerFromInitialPeersList\<close> becomes ready: a seeder was reached, or there are none. A loop
  over the seeders that ends because the context is done does not signal. \<open>connect\<close> and \<open>ctxDone\<close> may differ at every call.
\<close>

definition seeder_signal :: "(nat \<Rightarrow> string \<Rightarrow> bool) \<Rightarrow> (nat \<Rightarrow> bool) \<Rightarrow> string list \<Rightarrow> bool" where
  "seeder_signal connect ctxDone L \<longleftrightarrow>
     (case connectToOnePeerFromInitialPeersList connect ctxDone L of Some (n, a) \<Rightarrow> L = [] \<or> a \<noteq> None | None \<Rightarrow> False)"

inductive cd_step :: "continuousKadDhtDiscoverer \<Rightarrow> cd_loop \<Rightarrow> cd_loop \<Rightarrow> bool" for ckdd :: continuousKadDhtDiscoverer where
  seeder_found: "lp_phase s = AwaitingSeeder \<Longrightarrow> seeder_signal connect ctxDone (cd_initialPeersList ckdd) \<Longrightarrow>
    cd_step ckdd s (s\<lparr>lp_phase := LookingUp, lp_signals := Suc (lp_signals s)\<rparr>)"
| stopped_waiting: "lp_phase s = AwaitingSeeder \<Longrightarrow> cd_step ckdd s (s\<lparr>lp_phase := LoopReturned\<rparr>)"
| looked_up: "lp_phase s = LookingUp \<Longrightarrow>
    cd_step ckdd s (s\<lparr>lp_phase := (if shouldReconnect lookupFailure ckdd then Reconnecting else Pausing),
      lp_lookups := lp_lookups s + (if cd_kadDHT ckdd then 1 else 0)\<rparr>)"
| reconnected: "lp_phase s = Reconnecting \<Longrightarrow> seeder_signal connect ctxDone (cd_initialPeersList ckdd) \<Longrightarrow>
    cd_step ckdd s (s\<lparr>lp_phase := Pausing, lp_signals := Suc (lp_signals s), lp_reconnects := Suc (lp_reconnects s)\<rparr>)"
| stopped_reconnecting: "lp_phase s = Reconnecting \<Longrightarrow> cd_step ckdd s (s\<lparr>lp_phase := Pausing\<rparr>)"
| interval_over: "lp_phase s = Pausing \<Longrightarrow> cd_step ckdd s (s\<lparr>lp_phase := LookingUp\<rparr>)"
| stopped_pausing: "lp_phase s = Pausing \<Longrightarrow> cd_step ckdd s (s\<lparr>lp_phase := LoopReturned\<rparr>)"

lemma seeder_signal_reached:
  assumes "seeder_signal connect ctxDone L" "L \<noteq> []"
  shows "\<exists>i a. a \<in> set L \<and> connect i a"
proof -
  obtain n a where "tryConnectToSeeder connect ctxDone L 0 0 = Some (n, Some a)"
    using assms by (auto simp: seeder_signal_def connectToOnePeerFromInitialPeersList_def split: option.splits)
  from seeder_result [OF this] show ?thesis by (auto simp: seeder_post_def)
qed

definition loop_inv :: "cd_loop \<Rightarrow> bool" where
  "loop_inv s \<longleftrightarrow> lp_reconnects s \<le> lp_lookups s \<and> lp_reconnects s \<le> lp_signals s \<and>
     (lp_phase s = AwaitingSeeder \<longrightarrow> lp_lookups s = 0 \<and> lp_signals s = 0) \<and>
     (lp_phase s = Reconnecting \<longrightarrow> lp_reconnects s < lp_lookups s) \<and>
     (0 < lp_lookups s \<or> lp_phase s \<in> {LookingUp, Reconnecting, Pausing} \<longrightarrow> lp_reconnects s < lp_signals s)"

lemma loop_inv_step:
  assumes "loop_inv s" "cd_step ckdd s s'"
  shows "loop_inv s'"
  using assms(2,1) by cases (simp_all add: loop_inv_def shouldReconnect_def; linarith)+

text \<open>
  Peers are looked up only after a seeder was reached (or when none is configured), and the goroutine reconnects at most once per look up.
\<close>

lemma bootstrap_after_seeder:
  assumes "(cd_step ckdd)\<^sup>*\<^sup>* loop_start s" "0 < lp_lookups s"
  shows "0 < lp_signals s" "lp_reconnects s \<le> lp_lookups s" "lp_reconnects s < lp_signals s"
proof -
  have "loop_inv s" using assms(1)
  proof (induction rule: rtranclp_induct)
    case (step y z)
    then show ?case by (blast intro: loop_inv_step)
  qed (simp add: loop_start_def loop_inv_def)
  then show "0 < lp_signals s" "lp_reconnects s \<le> lp_lookups s" "lp_reconnects s < lp_signals s"
    using assms(2) by (auto simp: loop_inv_def)
qed

end
