(* ===== verification/Rating_Monitor.thy ===== *)
theory Rating_Monitor
  imports Peers_Rating Connections_Handler
begin

text \<open>
  \<^verbatim>\<open>p2p/rating/peersRatingMonitor.go\<close> on top of the connections handler: the ratings of the peers that are connected. The text form of a peer
  id and the JSON encoder are arguments. The short form of peer ids in messages (\<^verbatim>\<open>p2p/interface.go\<close>) is here too.
\<close>

section \<open>The monitor\<close>

definition checkMonitorArgs :: "bool \<Rightarrow> bool \<Rightarrow> p2p_error option" where
  "checkMonitorArgs hasTopRatedCache hasBadRatedCache =
     (if \<not> hasTopRatedCache then Some ErrNilCacher else if \<not> hasBadRatedCache then Some ErrNilCacher else None)"

definition NewPeersRatingMonitor :: "'c option \<Rightarrow> 'c option \<Rightarrow> p2p_error + 'c peersRatingHandler" where
  "NewPeersRatingMonitor topCache badCache =
     (case checkMonitorArgs (topCache \<noteq> None) (badCache \<noteq> None) of Some e \<Rightarrow> Inl e
      | None \<Rightarrow> Inr \<lparr>topRatedCache = the topCache, badRatedCache = the badCache\<rparr>)"

text \<open>\<^const>\<open>None\<close> is a nil connections handler; else its connected peers.\<close>

definition GetConnectedPeersRatings ::
    "'c cacher_ops \<Rightarrow> (peer_id \<Rightarrow> string) \<Rightarrow> ((string \<rightharpoonup> string) \<Rightarrow> string + string) \<Rightarrow> 'c peersRatingHandler \<Rightarrow> peer_id list option
     \<Rightarrow> (p2p_error + string) \<times> 'c peersRatingHandler" where
  "GetConnectedPeersRatings C pretty json monitor connected =
     (case connected of None \<Rightarrow> (Inl ErrNilConnectionsHandler, monitor)
      | Some peers \<Rightarrow>
        (case extractConnectedPeersRatings C pretty peers Map.empty monitor of (ratings, monitor1) \<Rightarrow>
           (case json ratings of Inl e \<Rightarrow> (Inl (ErrOther e), monitor1) | Inr text \<Rightarrow> (Inr text, monitor1))))"

lemma extract_dom:
  "dom (fst (extractConnectedPeersRatings C pretty ps acc m)) = dom acc \<union> pretty ` set ps"
  by (induction ps arbitrary: acc m) (auto split: prod.splits)

text \<open>
  The text is the JSON form of the map that has exactly the connected peers of the network as its keys, each with the rating that the
  handler keeps for it.
\<close>

lemma connected_ratings:
  assumes "cacher C" "ratings_ok C m" "inj pretty" "GetConnectedPeersRatings C pretty json m (Some (ConnectedPeers ok conns)) = (Inr text, m1)"
  shows "\<exists>ratings. json ratings = Inr text \<and> dom ratings = pretty ` {p \<in> RemotePeer ` set conns. ok p} \<and>
    (\<forall>p \<in> RemotePeer ` set conns. ok p \<longrightarrow>
      ratings (pretty p) = Some (case rating_of C m p of None \<Rightarrow> ''unknown'' | Some r \<Rightarrow> show_int r))"
proof -
  let ?ratings = "fst (extractConnectedPeersRatings C pretty (ConnectedPeers ok conns) Map.empty m)"
  have "json ?ratings = Inr text"
    using assms(4) by (auto simp: GetConnectedPeersRatings_def split: prod.splits sum.splits)
  moreover have "dom ?ratings = pretty ` {p \<in> RemotePeer ` set conns. ok p}" by (simp add: extract_dom ConnectedPeers_correct(1))
  moreover have "?ratings (pretty p) = Some (case rating_of C m p of None \<Rightarrow> ''unknown'' | Some r \<Rightarrow> show_int r)"
    if "p \<in> RemotePeer ` set conns" "ok p" for p
    using monitor_reports_ratings [OF assms(1,2), of pretty "ConnectedPeers ok conns" p] that ConnectedPeers_correct(1) [of ok conns]
      inj_on_subset [OF assms(3)] by auto
  ultimately show ?thesis by blast
qed

section \<open>Short peer ids\<close>

definition displayLastPidChars :: nat where "displayLastPidChars = 12"

definition PeerIdToShortString :: "(peer_id \<Rightarrow> string) \<Rightarrow> peer_id \<Rightarrow> string" where
  "PeerIdToShortString pretty p =
     (let prettyPid = pretty p; lenPrettyPid = length prettyPid
      in if lenPrettyPid > displayLastPidChars then ''...'' @ drop (lenPrettyPid - displayLastPidChars) prettyPid else prettyPid)"

lemma short_string: "length (PeerIdToShortString pretty p) \<le> 15"
    "\<exists>pre. pretty p = pre @ drop (if length (pretty p) > 12 then 3 else 0) (PeerIdToShortString pretty p)"
  by (auto simp: PeerIdToShortString_def displayLastPidChars_def Let_def numeral_3_eq_3
      intro: exI [of _ "take (length (pretty p) - 12) (pretty p)"])

end
