(* ===== verification/Outgoing.thy ===== *)
theory Outgoing
  imports Messages_Handler Channel_Queues
begin

text \<open>
  The outgoing half of \<^verbatim>\<open>libp2p/messagesHandler.go\<close> with all its goroutines: every broadcast is a goroutine that passes the throttler and sends
  on a channel of the load balancer, a goroutine per channel forwards, and one goroutine collects and publishes; topics are created and left
  meanwhile, and \<^verbatim>\<open>Close\<close> cancels the two contexts. The goroutines of the balancer are those of \<open>Channel_Balancer\<close>; here the senders and the
  collector that these need are added, and the whole is a step relation.

  The throttler is not in the repository: the relation is given whether \<^verbatim>\<open>CanProcess\<close> holds for a number of calls that have started and
  not ended.
\<close>

section \<open>Goroutines\<close>

text \<open>
  A broadcast, by the statements of \<^verbatim>\<open>broadcastOnChannelBlocking\<close> (and of its variant with a private key) that it has passed: the data was checked,
  \<^verbatim>\<open>CanProcess\<close> held, \<^verbatim>\<open>StartProcessing\<close> was called, the channel was looked up and is being sent on, the send is done. A
  send on a closed channel panics.
\<close>

datatype bcast =
    Checked string SendableData | Allowed string SendableData | Started string SendableData
  | Sending chan SendableData | Sent SendableData | Finished SendableData | Failed p2p_error | BPanicked

text \<open>The loop of \<^verbatim>\<open>processChannelLoadBalancer\<close>: in the first select, in \<^verbatim>\<open>CollectOneElementFromChannels\<close>, after it, returned.\<close>

datatype loop_pc = Sleeping | Collecting | Publishing "chan option" "SendableData option" | LoopEnded

record ('ps, 'ev, 'c) out_state =
  o_handler :: "('ps, 'ev, 'c) messagesHandler"
  o_fwd :: "chan \<Rightarrow> SendableData forwarder"
  o_calls :: "bcast list"
  o_processing :: nat
  o_loop :: loop_pc
  o_closed :: bool
  o_lbClosed :: bool
  o_sent :: "(chan \<times> SendableData) list"
  o_collected :: "(chan \<times> SendableData option) list"
  o_handled :: "(chan \<times> SendableData \<times> (string \<times> bytes \<times> (bytes \<times> peer_id) option) option) list"

definition out_init :: "('ps, 'ev, 'c) messagesHandler \<Rightarrow> ('ps, 'ev, 'c) out_state" where
  "out_init h = \<lparr>o_handler = h, o_fwd = (\<lambda>_. Waiting), o_calls = [], o_processing = 0, o_loop = Sleeping, o_closed = False,
     o_lbClosed = False, o_sent = [], o_collected = [], o_handled = []\<rparr>"

text \<open>\<^verbatim>\<open>Close\<close> of the balancer cancels its context; the context of the handler is cancelled before.\<close>

definition oclb_Close :: "('ps, 'ev, 'c) out_state \<Rightarrow> ('ps, 'ev, 'c) out_state" where
  "oclb_Close s = s\<lparr>o_lbClosed := True\<rparr>"

text \<open>
  What \<^verbatim>\<open>CollectOneElementFromChannels\<close> may return: an element that a forwarder offers on the main channel, or nil when the context
  is done. When both are possible the select picks any; when none is, the call blocks.
\<close>

definition CollectOneElementFromChannels :: "('ps, 'ev, 'c) out_state \<Rightarrow> (chan option \<times> SendableData option) set" where
  "CollectOneElementFromChannels s =
     {(Some c, x) | c x. c \<in> set (forwarders (mh_outgoingCLB (o_handler s))) \<and> o_fwd s c = Holding x} \<union>
     (if o_lbClosed s then {(None, None)} else {})"

definition set_call :: "nat \<Rightarrow> bcast \<Rightarrow> ('ps, 'ev, 'c) out_state \<Rightarrow> ('ps, 'ev, 'c) out_state" where
  "set_call i b s = s\<lparr>o_calls := (o_calls s)[i := b]\<rparr>"

abbreviation call_at :: "('ps, 'ev, 'c) out_state \<Rightarrow> nat \<Rightarrow> bcast \<Rightarrow> bool" where
  "call_at s i b \<equiv> i < length (o_calls s) \<and> o_calls s ! i = b"

text \<open>The publishing turn: the topic is looked up after the element was collected. The log has what was published, if anything.\<close>

definition publish_turn ::
    "('ps, 'ev, 'c) mh_env \<Rightarrow> int64 \<Rightarrow> chan option \<Rightarrow> SendableData option \<Rightarrow> ('ps, 'ev, 'c) out_state \<Rightarrow> ('ps, 'ev, 'c) out_state" where
  "publish_turn E now src x s = s\<lparr>o_loop := Sleeping,
     o_handled := o_handled s @ (case (src, x) of
       (Some c, Some sd) \<Rightarrow> [(c, sd, processCollected E (o_handler s) now x)] | _ \<Rightarrow> [])\<rparr>"

inductive out_step ::
    "('ps, 'ev, 'c) mh_env \<Rightarrow> (bytes \<Rightarrow> string option) \<Rightarrow> (nat \<Rightarrow> bool) \<Rightarrow> ('ps, 'ev, 'c) out_state \<Rightarrow> ('ps, 'ev, 'c) out_state \<Rightarrow> bool"
  for E :: "('ps, 'ev, 'c) mh_env" and keyError :: "bytes \<Rightarrow> string option" and canProcess :: "nat \<Rightarrow> bool" where
  call: "sd = \<lparr>sd_Buff = buff, sd_Topic = topic, sd_Sk = None, sd_ID = h_peerID E\<rparr> \<Longrightarrow>
    b = (case checkSendableData buff of Some e \<Rightarrow> Failed e | None \<Rightarrow> Checked channel sd) \<Longrightarrow>
    out_step E keyError canProcess s (s\<lparr>o_calls := o_calls s @ [b]\<rparr>)"
| call_with_key: "sd = \<lparr>sd_Buff = buff, sd_Topic = topic, sd_Sk = Some skBytes, sd_ID = p\<rparr> \<Longrightarrow>
    b = (case keyError skBytes of Some e \<Rightarrow> Failed (ErrOther e)
         | None \<Rightarrow> (case checkSendableData buff of Some e \<Rightarrow> Failed e | None \<Rightarrow> Checked channel sd)) \<Longrightarrow>
    out_step E keyError canProcess s (s\<lparr>o_calls := o_calls s @ [b]\<rparr>)"
| allowed: "call_at s i (Checked channel sd) \<Longrightarrow> canProcess (o_processing s) \<Longrightarrow>
    out_step E keyError canProcess s (set_call i (Allowed channel sd) s)"
| too_many: "call_at s i (Checked channel sd) \<Longrightarrow> \<not> canProcess (o_processing s) \<Longrightarrow>
    out_step E keyError canProcess s (set_call i (Failed ErrTooManyGoroutines) s)"
| start: "call_at s i (Allowed channel sd) \<Longrightarrow>
    out_step E keyError canProcess s (set_call i (Started channel sd) (s\<lparr>o_processing := Suc (o_processing s)\<rparr>))"
| look_up: "call_at s i (Started channel sd) \<Longrightarrow>
    b = (case GetChannelOrDefault (mh_outgoingCLB (o_handler s)) channel of None \<Rightarrow> BPanicked | Some c \<Rightarrow> Sending c sd) \<Longrightarrow>
    out_step E keyError canProcess s (set_call i b s)"
| hand_over: "call_at s i (Sending c sd) \<Longrightarrow> c \<in> set (forwarders (mh_outgoingCLB (o_handler s))) \<Longrightarrow>
    c \<notin> closedChans (mh_outgoingCLB (o_handler s)) \<Longrightarrow> o_fwd s c = Waiting \<Longrightarrow>
    out_step E keyError canProcess s
      (set_call i (Sent sd) (s\<lparr>o_fwd := (o_fwd s)(c := Holding (Some sd)), o_sent := o_sent s @ [(c, sd)]\<rparr>))"
| send_on_closed: "call_at s i (Sending c sd) \<Longrightarrow> c \<in> closedChans (mh_outgoingCLB (o_handler s)) \<Longrightarrow>
    out_step E keyError canProcess s (set_call i BPanicked s)"
| finish: "call_at s i (Sent sd) \<Longrightarrow>
    out_step E keyError canProcess s (set_call i (Finished sd) (s\<lparr>o_processing := o_processing s - 1\<rparr>))"
| receive_closed: "c \<in> set (forwarders (mh_outgoingCLB (o_handler s))) \<Longrightarrow> c \<in> closedChans (mh_outgoingCLB (o_handler s)) \<Longrightarrow>
    o_fwd s c = Waiting \<Longrightarrow> out_step E keyError canProcess s (s\<lparr>o_fwd := (o_fwd s)(c := Holding None)\<rparr>)"
| forwarder_ends: "c \<in> set (forwarders (mh_outgoingCLB (o_handler s))) \<Longrightarrow> o_fwd s c = Waiting \<Longrightarrow> o_lbClosed s \<Longrightarrow>
    out_step E keyError canProcess s (s\<lparr>o_fwd := (o_fwd s)(c := Ended)\<rparr>)"
| wake: "o_loop s = Sleeping \<Longrightarrow> out_step E keyError canProcess s (s\<lparr>o_loop := Collecting\<rparr>)"
| loop_returns: "o_loop s = Sleeping \<Longrightarrow> o_closed s \<Longrightarrow> out_step E keyError canProcess s (s\<lparr>o_loop := LoopEnded\<rparr>)"
| collect: "o_loop s = Collecting \<Longrightarrow> (Some c, x) \<in> CollectOneElementFromChannels s \<Longrightarrow>
    out_step E keyError canProcess s
      (s\<lparr>o_fwd := (o_fwd s)(c := Waiting), o_collected := o_collected s @ [(c, x)], o_loop := Publishing (Some c) x\<rparr>)"
| collect_nothing: "o_loop s = Collecting \<Longrightarrow> (None, x) \<in> CollectOneElementFromChannels s \<Longrightarrow>
    out_step E keyError canProcess s (s\<lparr>o_loop := Publishing None x\<rparr>)"
| publishing: "o_loop s = Publishing src x \<Longrightarrow> out_step E keyError canProcess s (publish_turn E now src x s)"
| create_topic: "CreateTopic (o_handler s) name createChannelForTopic joined subscribed = (err, h) \<Longrightarrow>
    out_step E keyError canProcess s (s\<lparr>o_handler := h\<rparr>)"
| unjoin: "UnJoinAllTopics (o_handler s) order closeErr None = (err, h) \<Longrightarrow>
    out_step E keyError canProcess s (s\<lparr>o_handler := h\<rparr>)"
| close_handler: "out_step E keyError canProcess s (s\<lparr>o_closed := True\<rparr>)"
| close_balancer: "o_closed s \<Longrightarrow> out_step E keyError canProcess s (oclb_Close s)"

inductive_cases out_stepE: "out_step E keyError canProcess s s'"

section \<open>The balancer in the system\<close>

text \<open>Forgetting the senders and the loop gives the balancer with its forwarders, of which every step here is a step or none.\<close>

definition abs_traffic :: "('ps, 'ev, 'c) out_state \<Rightarrow> SendableData balancer_system" where
  "abs_traffic s = (mh_outgoingCLB (o_handler s), \<lparr>fwd = o_fwd s, sent = o_sent s, collected = o_collected s\<rparr>)"

lemma CreateTopic_balancer:
  "CreateTopic h name mk joined subscribed = (err, h') \<Longrightarrow>
   mh_outgoingCLB h' = mh_outgoingCLB h \<or> (\<exists>e. AddChannel (mh_outgoingCLB h) name = (e, mh_outgoingCLB h'))"
  by (auto simp: CreateTopic_def Let_def split: if_splits option.splits prod.splits)

lemma UnJoinAllTopics_balancer: "UnJoinAllTopics h ts closeErr e0 = (err, h') \<Longrightarrow> mh_outgoingCLB h' = mh_outgoingCLB h"
  by (induction ts arbitrary: h e0) auto

lemma out_simulates:
  assumes "out_step E keyError canProcess s s'"
  shows "balancer_step (abs_traffic s) (abs_traffic s') \<or> abs_traffic s' = abs_traffic s"
  using assms
proof (cases rule: out_step.cases)
  case (hand_over i c sd)
  then show ?thesis
    using forward.receive [of c "mh_outgoingCLB (o_handler s)" "snd (abs_traffic s)" sd]
    by (auto simp: abs_traffic_def set_call_def intro!: disjI1 balancer_step.forwarding)
next
  case (receive_closed c)
  then show ?thesis
    using forward.receive_closed [of c "mh_outgoingCLB (o_handler s)" "snd (abs_traffic s)"]
    by (auto simp: abs_traffic_def intro!: disjI1 balancer_step.forwarding)
next
  case (forwarder_ends c)
  then show ?thesis
    using forward.ctx_done [of c "mh_outgoingCLB (o_handler s)" "snd (abs_traffic s)"]
    by (auto simp: abs_traffic_def intro!: disjI1 balancer_step.forwarding)
next
  case (collect c x)
  then show ?thesis
    using forward.collect [of c "mh_outgoingCLB (o_handler s)" "snd (abs_traffic s)" x]
    by (auto simp: abs_traffic_def CollectOneElementFromChannels_def intro!: disjI1 balancer_step.forwarding split: if_splits)
next
  case (create_topic name mk joined subscribed err h)
  then show ?thesis
    using CreateTopic_balancer [OF create_topic(2)] by (auto simp: abs_traffic_def intro: balancer_step.adding)
next
  case (unjoin order closeErr err h)
  then show ?thesis using UnJoinAllTopics_balancer [OF unjoin(2)] by (simp add: abs_traffic_def)
qed (auto simp: abs_traffic_def set_call_def oclb_Close_def publish_turn_def)

interpretation out: simulation "out_step E keyError canProcess" balancer_step "\<lambda>s. system_ok (abs_traffic s)" abs_traffic
  for E keyError canProcess
proof (unfold_locales, goal_cases)
  case (1 s s')
  with out_simulates [OF 1(2)] show ?case using system_ok_step by metis
next
  case (2 s s')
  then show ?case by (intro out_simulates)
qed

section \<open>The invariant of the system\<close>

definition sd_of :: "bcast \<Rightarrow> SendableData list" where
  "sd_of b = (case b of Sent sd \<Rightarrow> [sd] | Finished sd \<Rightarrow> [sd] | _ \<Rightarrow> [])"

definition in_process :: "bcast \<Rightarrow> bool" where
  "in_process b = (case b of Started _ _ \<Rightarrow> True | Sending _ _ \<Rightarrow> True | Sent _ \<Rightarrow> True | _ \<Rightarrow> False)"

definition publishing_from :: "loop_pc \<Rightarrow> (chan \<times> SendableData) list" where
  "publishing_from l = (case l of Publishing (Some c) (Some sd) \<Rightarrow> [(c, sd)] | _ \<Rightarrow> [])"

definition handled_data :: "('ps, 'ev, 'c) out_state \<Rightarrow> (chan \<times> SendableData) list" where
  "handled_data s = map (\<lambda>(c, sd, _). (c, sd)) (o_handled s)"

definition out_inv :: "('ps, 'ev, 'c) out_state \<Rightarrow> bool" where
  "out_inv s \<longleftrightarrow>
     system_ok (abs_traffic s) \<and> closedChans (mh_outgoingCLB (o_handler s)) = {} \<and>
     (\<forall>b \<in> set (o_calls s). b \<noteq> BPanicked \<and>
       (\<forall>c sd. b = Sending c sd \<longrightarrow> c \<in> set (forwarders (mh_outgoingCLB (o_handler s))))) \<and>
     o_processing s = length (filter in_process (o_calls s)) \<and>
     mset (map snd (o_sent s)) = mset (concat (map sd_of (o_calls s))) \<and>
     received (o_collected s) = handled_data s @ publishing_from (o_loop s) \<and>
     (\<forall>c. o_fwd s c = Ended \<longrightarrow> o_lbClosed s) \<and>
     (o_lbClosed s \<longrightarrow> o_closed s) \<and> (o_loop s = LoopEnded \<longrightarrow> o_closed s)"

lemma mset_concat_update:
  "i < length xs \<Longrightarrow> mset (concat (map f (xs[i := y]))) + mset (f (xs ! i)) = mset (concat (map f xs)) + mset (f y)"
proof (induction xs arbitrary: i)
  case (Cons x xs)
  then show ?case by (cases i) (auto simp: add.commute add.left_commute)
qed simp

lemma count_update:
  "i < length xs \<Longrightarrow> length (filter P (xs[i := y])) + (if P (xs ! i) then 1 else 0) = length (filter P xs) + (if P y then 1 else 0)"
proof (induction xs arbitrary: i)
  case (Cons x xs)
  then show ?case by (cases i) (auto simp: add.commute add.left_commute)
qed simp

lemma out_init_inv:
  assumes "NewOutgoingChannelLoadBalancer l = Inr (mh_outgoingCLB h)"
  shows "out_inv (out_init h)"
  using new_system_ok [OF assms] assms
  by (auto simp: out_inv_def out_init_def abs_traffic_def traffic_init_def handled_data_def publishing_from_def
      NewOutgoingChannelLoadBalancer_def appendChannel_def split: if_splits dest: sym)

lemma AddChannel_mono:
  "AddChannel b name = (e, b') \<Longrightarrow> closedChans b' = closedChans b \<and> set (forwarders b) \<subseteq> set (forwarders b')"
  by (auto simp: AddChannel_def appendChannel_def split: if_splits option.splits)

lemma out_step_balancer:
  assumes "out_step E keyError canProcess s s'"
  shows "closedChans (mh_outgoingCLB (o_handler s')) = closedChans (mh_outgoingCLB (o_handler s))"
    and "set (forwarders (mh_outgoingCLB (o_handler s))) \<subseteq> set (forwarders (mh_outgoingCLB (o_handler s')))"
  using assms
  by (cases rule: out_step.cases;
      force simp: set_call_def publish_turn_def oclb_Close_def dest: CreateTopic_balancer UnJoinAllTopics_balancer AddChannel_mono)+

lemma look_up_forwarded:
  assumes "system_ok (abs_traffic s)" "GetChannelOrDefault (mh_outgoingCLB (o_handler s)) channel = r"
  shows "\<exists>c. r = Some c \<and> c \<in> set (forwarders (mh_outgoingCLB (o_handler s)))"
proof -
  let ?b = "mh_outgoingCLB (o_handler s)"
  have ok: "balancer_ok ?b" using assms(1) by (simp add: system_ok_def abs_traffic_def)
  have fw: "set (chans ?b) \<subseteq> set (forwarders ?b)" "chans ?b \<noteq> []" using ok by (auto simp: balancer_ok_def)
  have "c \<in> set (chans ?b)" if "namesChans ?b channel = Some c" for c
    using that ran_namesChans [OF ok] by (auto intro: ranI)
  then show ?thesis
    using assms(2) fw by (cases "namesChans ?b channel"; cases "chans ?b") (auto simp: GetChannelOrDefault_def)
qed

lemma out_step_calls:
  assumes "out_step E keyError canProcess s s'" "out_inv s" "b \<in> set (o_calls s')"
  shows "b \<noteq> BPanicked \<and> (\<forall>c sd. b = Sending c sd \<longrightarrow> c \<in> set (forwarders (mh_outgoingCLB (o_handler s'))))"
proof (cases "b \<in> set (o_calls s)")
  case True
  with assms(2) out_step_balancer(2) [OF assms(1)] show ?thesis unfolding out_inv_def by blast
next
  case False
  from assms(1) show ?thesis
  proof (cases rule: out_step.cases)
    case (look_up i channel sd b')
    then have "b = b'" using False assms(3) set_update_subset_insert [of "o_calls s" i b'] by (auto simp: set_call_def)
    then show ?thesis
      using look_up look_up_forwarded [of s channel] assms(2) by (auto simp: out_inv_def set_call_def)
  next
    case (send_on_closed i c sd)
    then show ?thesis using assms(2) by (simp add: out_inv_def)
  next
    case (call sd buff topic b' channel)
    then have "b = b'" using False assms(3) by auto
    then show ?thesis using call by (auto split: option.splits)
  next
    case (call_with_key sd buff topic skBytes p b' channel)
    then have "b = b'" using False assms(3) by auto
    then show ?thesis using call_with_key by (auto split: option.splits)
  qed (use False assms(3) in \<open>auto simp: set_call_def publish_turn_def oclb_Close_def
      dest!: subsetD [OF set_update_subset_insert]\<close>)
qed

lemma set_call_counts:
  assumes "call_at s i b0"
  shows "length (filter in_process (o_calls (set_call i b s))) + (if in_process b0 then 1 else 0) =
      length (filter in_process (o_calls s)) + (if in_process b then 1 else 0)"
    and "mset (concat (map sd_of (o_calls (set_call i b s)))) + mset (sd_of b0) = mset (concat (map sd_of (o_calls s))) + mset (sd_of b)"
  using count_update [of i "o_calls s" in_process b] mset_concat_update [of i "o_calls s" sd_of b] assms
  by (simp_all add: set_call_def)

lemma in_process_positive: "call_at s i b \<Longrightarrow> in_process b \<Longrightarrow> 0 < length (filter in_process (o_calls s))"
  by (auto simp: filter_empty_conv intro!: bexI [of _ b] nth_mem)

lemma out_step_counts:
  assumes "out_step E keyError canProcess s s'" "out_inv s"
  shows "o_processing s' = length (filter in_process (o_calls s'))"
    and "mset (map snd (o_sent s')) = mset (concat (map sd_of (o_calls s')))"
proof -
  have inv: "o_processing s = length (filter in_process (o_calls s))"
    "mset (map snd (o_sent s)) = mset (concat (map sd_of (o_calls s)))" "closedChans (mh_outgoingCLB (o_handler s)) = {}"
    using assms(2) by (auto simp: out_inv_def)
  have look: "\<exists>c. GetChannelOrDefault (mh_outgoingCLB (o_handler s)) channel = Some c" for channel
    using look_up_forwarded [of s channel] assms(2) unfolding out_inv_def by metis
  show "o_processing s' = length (filter in_process (o_calls s'))"
    using assms(1)
  proof (cases rule: out_step.cases)
    case (start i channel sd)
    then show ?thesis using inv set_call_counts(1) [of i s _ "Started channel sd"] by (auto simp: in_process_def set_call_def)
  next
    case (look_up i channel sd b)
    then show ?thesis using inv look [of channel] set_call_counts(1) [of i s _ b] by (auto simp: in_process_def set_call_def)
  next
    case (finish i sd)
    then show ?thesis using inv set_call_counts(1) [of i s _ "Finished sd"] in_process_positive [of i s "Sent sd"]
      by (auto simp: in_process_def set_call_def)
  next
    case (hand_over i c sd)
    then show ?thesis using inv set_call_counts(1) [of i s _ "Sent sd"] by (auto simp: in_process_def set_call_def)
  next
    case (allowed i channel sd)
    then show ?thesis using inv set_call_counts(1) [of i s _ "Allowed channel sd"] by (auto simp: in_process_def set_call_def)
  next
    case (too_many i channel sd)
    then show ?thesis using inv set_call_counts(1) [of i s _ "Failed ErrTooManyGoroutines"] by (auto simp: in_process_def set_call_def)
  qed (use inv in \<open>auto simp: publish_turn_def oclb_Close_def in_process_def split: option.splits\<close>)
  show "mset (map snd (o_sent s')) = mset (concat (map sd_of (o_calls s')))"
    using assms(1)
  proof (cases rule: out_step.cases)
    case (start i channel sd)
    then show ?thesis using inv set_call_counts(2) [of i s _ "Started channel sd"] by (auto simp: sd_of_def set_call_def)
  next
    case (look_up i channel sd b)
    then show ?thesis using inv look [of channel] set_call_counts(2) [of i s _ b] by (auto simp: sd_of_def set_call_def)
  next
    case (finish i sd)
    then show ?thesis using inv set_call_counts(2) [of i s _ "Finished sd"] by (auto simp: sd_of_def set_call_def)
  next
    case (hand_over i c sd)
    then show ?thesis using inv set_call_counts(2) [of i s _ "Sent sd"] by (auto simp: sd_of_def set_call_def)
  next
    case (allowed i channel sd)
    then show ?thesis using inv set_call_counts(2) [of i s _ "Allowed channel sd"] by (auto simp: sd_of_def set_call_def)
  next
    case (too_many i channel sd)
    then show ?thesis using inv set_call_counts(2) [of i s _ "Failed ErrTooManyGoroutines"] by (auto simp: sd_of_def set_call_def)
  qed (use inv in \<open>auto simp: publish_turn_def oclb_Close_def sd_of_def split: option.splits\<close>)
qed

lemma out_step_log:
  assumes "out_step E keyError canProcess s s'" "out_inv s"
  shows "received (o_collected s') = handled_data s' @ publishing_from (o_loop s')"
    and "(\<forall>c. o_fwd s' c = Ended \<longrightarrow> o_lbClosed s') \<and> (o_lbClosed s' \<longrightarrow> o_closed s') \<and> (o_loop s' = LoopEnded \<longrightarrow> o_closed s')"
proof -
  have inv: "received (o_collected s) = handled_data s @ publishing_from (o_loop s)"
    "\<forall>c. o_fwd s c = Ended \<longrightarrow> o_lbClosed s" "o_lbClosed s \<longrightarrow> o_closed s" "o_loop s = LoopEnded \<longrightarrow> o_closed s"
    using assms(2) by (auto simp: out_inv_def)
  note d = publishing_from_def handled_data_def set_call_def oclb_Close_def publish_turn_def
  show "received (o_collected s') = handled_data s' @ publishing_from (o_loop s')"
    using assms(1)
  proof (cases rule: out_step.cases)
    case (collect c x)
    then show ?thesis using inv by (cases x) (auto simp: d)
  qed (use inv in \<open>auto simp: d split: option.splits loop_pc.splits\<close>)
  show "(\<forall>c. o_fwd s' c = Ended \<longrightarrow> o_lbClosed s') \<and> (o_lbClosed s' \<longrightarrow> o_closed s') \<and> (o_loop s' = LoopEnded \<longrightarrow> o_closed s')"
    using assms(1) inv by (cases rule: out_step.cases) (auto simp: d)
qed

lemma out_step_inv:
  assumes "out_step E keyError canProcess s s'" "out_inv s"
  shows "out_inv s'"
proof -
  have "system_ok (abs_traffic s')" "closedChans (mh_outgoingCLB (o_handler s')) = {}"
    using out.inv_step [OF _ assms(1)] out_step_balancer(1) [OF assms(1)] assms(2) by (auto simp: out_inv_def)
  then show ?thesis
    using out_step_calls [OF assms] out_step_counts [OF assms] out_step_log [OF assms] unfolding out_inv_def by blast
qed

lemma out_reach_inv: "(out_step E keyError canProcess)\<^sup>*\<^sup>* s s' \<Longrightarrow> out_inv s \<Longrightarrow> out_inv s'"
  by (induction rule: rtranclp_induct) (auto intro: out_step_inv)

section \<open>Order\<close>

lemma on_chan_append: "on_chan c (xs @ ys) = on_chan c xs @ on_chan c ys"
  by (simp add: on_chan_def)

lemma out_fifo:
  assumes "NewOutgoingChannelLoadBalancer l = Inr (mh_outgoingCLB h)" "(out_step E keyError canProcess)\<^sup>*\<^sup>* (out_init h) s"
  shows "on_chan c (o_sent s) = on_chan c (received (o_collected s)) @ (case o_fwd s c of Holding (Some d) \<Rightarrow> [d] | _ \<Rightarrow> [])"
proof -
  have ok: "system_ok (abs_traffic (out_init h))" using out_init_inv [OF assms(1)] by (simp add: out_inv_def)
  have "fifo (abs_queues (abs_traffic (out_init h)))"
    by (simp add: fifo_def abs_queues_def abs_traffic_def out_init_def on_chan_def)
  moreover have "balancer_step\<^sup>*\<^sup>* (abs_traffic (out_init h)) (abs_traffic s)" using out.reaches [OF assms(2) ok] by blast
  ultimately have "fifo (abs_queues (abs_traffic s))"
    using lb.abstract_invariant [where P = fifo, OF _ _ ok] fifo_step by blast
  then show ?thesis by (simp add: fifo_def abs_queues_def abs_traffic_def)
qed

definition handled_ok ::
    "('ps, 'ev, 'c) mh_env \<Rightarrow> chan \<times> SendableData \<times> (string \<times> bytes \<times> (bytes \<times> peer_id) option) option \<Rightarrow> bool" where
  "handled_ok E e = (case e of (c, sd, r) \<Rightarrow> \<forall>t packed key. r = Some (t, packed, key) \<longrightarrow>
     t = sd_Topic sd \<and> key = map_option (\<lambda>sk. (sk, sd_ID sd)) (sd_Sk sd) \<and>
     (\<exists>now. packed = createMessageBytes (h_marshaller E) now (sd_Buff sd)))"

lemma out_handled_ok:
  assumes "(out_step E keyError canProcess)\<^sup>*\<^sup>* s0 s" "\<forall>e \<in> set (o_handled s0). handled_ok E e"
  shows "\<forall>e \<in> set (o_handled s). handled_ok E e"
  using assms
proof (induction rule: rtranclp_induct)
  case (step s s')
  then have IH: "\<forall>e \<in> set (o_handled s). handled_ok E e" by blast
  from step(2) show ?case
  proof (cases rule: out_step.cases)
    case (publishing src x now)
    then show ?thesis
      using IH by (auto simp: publish_turn_def handled_ok_def processCollected_def publish_def Let_def
          split: option.splits if_splits)
  qed (use IH in \<open>auto simp: set_call_def oclb_Close_def\<close>)
qed

text \<open>
  C3. The outgoing pipeline, over every interleaving of broadcasts, forwarders, the publishing loop, creating and leaving topics and closing: no
  broadcast panics; the broadcasts that got through are exactly what was sent on the channels, each once; and on each channel what was sent is what
  was handled, in that order, followed by what the loop and the forwarder hold, one element each at most. What is published for an
  element has its topic, its payload in an envelope and its key.
\<close>

theorem outgoing_in_order:
  assumes "NewOutgoingChannelLoadBalancer l = Inr (mh_outgoingCLB h)" "(out_step E keyError canProcess)\<^sup>*\<^sup>* (out_init h) s"
  shows "BPanicked \<notin> set (o_calls s) \<and>
    mset (map snd (o_sent s)) = mset (concat (map sd_of (o_calls s))) \<and>
    on_chan c (o_sent s) = on_chan c (handled_data s) @ on_chan c (publishing_from (o_loop s)) @
      (case o_fwd s c of Holding (Some d) \<Rightarrow> [d] | _ \<Rightarrow> []) \<and>
    (\<forall>e \<in> set (o_handled s). handled_ok E e)"
proof -
  have inv: "out_inv s" using out_reach_inv [OF assms(2) out_init_inv [OF assms(1)]] .
  have "\<forall>e \<in> set (o_handled (out_init h)). handled_ok E e" by (simp add: out_init_def)
  from out_handled_ok [OF assms(2) this] inv out_fifo [OF assms, of c] show ?thesis
    by (auto simp: out_inv_def on_chan_append)
qed

section \<open>Progress\<close>

lemma to_collecting:
  assumes "o_loop s \<noteq> LoopEnded"
  shows "\<exists>s'. (out_step E keyError canProcess)\<^sup>*\<^sup>* s s' \<and> o_loop s' = Collecting \<and> o_handler s' = o_handler s \<and>
    o_calls s' = o_calls s \<and> o_fwd s' = o_fwd s \<and> o_lbClosed s' = o_lbClosed s"
proof -
  have sleep: "\<exists>s1. out_step E keyError canProcess s s1 \<and> o_loop s1 = Collecting \<and> o_handler s1 = o_handler s \<and>
      o_calls s1 = o_calls s \<and> o_fwd s1 = o_fwd s \<and> o_lbClosed s1 = o_lbClosed s" if "o_loop s = Sleeping" for s :: "('a, 'b, 'c) out_state"
    using out_step.wake [OF that, of E keyError canProcess] by (intro exI [of _ "s\<lparr>o_loop := Collecting\<rparr>"]) simp
  show ?thesis
  proof (cases "o_loop s")
    case Sleeping
    then show ?thesis using sleep by (meson r_into_rtranclp)
  next
    case Collecting
    then show ?thesis by (intro exI [of _ s]) simp
  next
    case (Publishing src x)
    let ?s = "publish_turn E 0 src x s"
    have "out_step E keyError canProcess s ?s" "o_loop ?s = Sleeping" "o_handler ?s = o_handler s" "o_calls ?s = o_calls s"
      "o_fwd ?s = o_fwd s" "o_lbClosed ?s = o_lbClosed s"
      using out_step.publishing [OF Publishing] by (simp_all add: publish_turn_def)
    then show ?thesis using sleep [of ?s] by (metis (no_types, lifting) r_into_rtranclp converse_rtranclp_into_rtranclp)
  qed (use assms in simp)
qed

lemma free_forwarder:
  assumes "o_loop s \<noteq> LoopEnded" "c \<in> set (forwarders (mh_outgoingCLB (o_handler s)))" "o_fwd s c \<noteq> Ended"
  shows "\<exists>s'. (out_step E keyError canProcess)\<^sup>*\<^sup>* s s' \<and> o_loop s' \<noteq> LoopEnded \<and> o_handler s' = o_handler s \<and>
    o_calls s' = o_calls s \<and> o_fwd s' c = Waiting \<and> o_lbClosed s' = o_lbClosed s"
proof (cases "o_fwd s c")
  case (Holding x)
  obtain s1 where s1: "(out_step E keyError canProcess)\<^sup>*\<^sup>* s s1" "o_loop s1 = Collecting" "o_handler s1 = o_handler s"
    "o_calls s1 = o_calls s" "o_fwd s1 = o_fwd s" "o_lbClosed s1 = o_lbClosed s" using to_collecting [OF assms(1)] by blast
  have "(Some c, x) \<in> CollectOneElementFromChannels s1"
    using s1 Holding assms(2) by (simp add: CollectOneElementFromChannels_def)
  from out_step.collect [OF s1(2) this] s1 show ?thesis
    by (intro exI [of _ "s1\<lparr>o_fwd := (o_fwd s1)(c := Waiting), o_collected := o_collected s1 @ [(c, x)], o_loop := Publishing (Some c) x\<rparr>"])
       (auto intro: rtranclp.rtrancl_into_rtrancl)
qed (use assms in \<open>auto intro!: exI [of _ s]\<close>)

text \<open>What a broadcast that has not returned will send.\<close>

definition pending :: "(nat \<Rightarrow> bool) \<Rightarrow> nat \<Rightarrow> bcast \<Rightarrow> SendableData option" where
  "pending canProcess n b = (case b of Checked _ sd \<Rightarrow> if canProcess n then Some sd else None
     | Allowed _ sd \<Rightarrow> Some sd | Started _ sd \<Rightarrow> Some sd | Sending _ sd \<Rightarrow> Some sd | _ \<Rightarrow> None)"

lemma pending_sends:
  assumes "out_inv s" "call_at s i b" "pending canProcess (o_processing s) b = Some sd"
  shows "\<exists>s' c. (out_step E keyError canProcess)\<^sup>*\<^sup>* s s' \<and> call_at s' i (Sending c sd) \<and> o_handler s' = o_handler s \<and>
    o_loop s' = o_loop s \<and> o_lbClosed s' = o_lbClosed s"
proof -
  let ?run = "(out_step E keyError canProcess)\<^sup>*\<^sup>*"
  let ?same = "\<lambda>s' s. o_handler s' = o_handler s \<and> o_loop s' = o_loop s \<and> o_lbClosed s' = o_lbClosed s"
  have 3: "\<exists>s' c. ?run s s' \<and> call_at s' i (Sending c sd) \<and> ?same s' s"
    if inv: "out_inv s" and at: "call_at s i (Started ch sd)" for s ch
  proof -
    obtain c where c: "GetChannelOrDefault (mh_outgoingCLB (o_handler s)) ch = Some c"
      using look_up_forwarded [of s ch] inv unfolding out_inv_def by metis
    then show ?thesis
      using out_step.look_up [OF at refl, of E keyError canProcess] at
      by (intro exI [of _ "set_call i (Sending c sd) s"] exI [of _ c]) (auto simp: set_call_def)
  qed
  have 2: "\<exists>s' c. ?run s s' \<and> call_at s' i (Sending c sd) \<and> ?same s' s"
    if "out_inv s" "call_at s i (Allowed ch sd)" for s ch
  proof -
    let ?s = "set_call i (Started ch sd) (s\<lparr>o_processing := Suc (o_processing s)\<rparr>)"
    have st: "out_step E keyError canProcess s ?s" using out_step.start [OF that(2)] .
    have "call_at ?s i (Started ch sd)" "?same ?s s" using that(2) by (simp_all add: set_call_def)
    with 3 [OF out_step_inv [OF st that(1)] this(1)] st show ?thesis by (metis (no_types, lifting) converse_rtranclp_into_rtranclp)
  qed
  have 1: "\<exists>s' c. ?run s s' \<and> call_at s' i (Sending c sd) \<and> ?same s' s"
    if "out_inv s" "call_at s i (Checked ch sd)" "canProcess (o_processing s)" for s ch
  proof -
    let ?s = "set_call i (Allowed ch sd) s"
    have st: "out_step E keyError canProcess s ?s" using out_step.allowed [where canProcess = canProcess, OF that(2,3)] .
    have "call_at ?s i (Allowed ch sd)" "?same ?s s" using that(2) by (simp_all add: set_call_def)
    with 2 [OF out_step_inv [OF st that(1)] this(1)] st show ?thesis by (metis (no_types, lifting) converse_rtranclp_into_rtranclp)
  qed
  from assms show ?thesis
    by (cases b) (use 1 2 3 in \<open>auto simp: pending_def split: if_splits\<close>)
qed

text \<open>
  C4. Until \<^verbatim>\<open>Close\<close> every broadcast can complete: from every state that is reached, whatever the other goroutines are doing, a broadcast that passed its checks
  (and for which the throttler has room, if it was not asked yet) has a continuation in which it returns without an error, and its data is
  collected and handled, at any time of the clock, with the topics of that state.
\<close>

theorem broadcast_can_complete:
  assumes "NewOutgoingChannelLoadBalancer l = Inr (mh_outgoingCLB h)" "(out_step E keyError canProcess)\<^sup>*\<^sup>* (out_init h) s"
    and "call_at s i b" "pending canProcess (o_processing s) b = Some sd" "\<not> o_lbClosed s" "o_loop s \<noteq> LoopEnded"
  shows "\<exists>s' c. (out_step E keyError canProcess)\<^sup>*\<^sup>* s s' \<and> call_at s' i (Finished sd) \<and> o_handled s' \<noteq> [] \<and>
    last (o_handled s') = (c, sd, processCollected E (o_handler s) now (Some sd))"
proof -
  let ?run = "(out_step E keyError canProcess)\<^sup>*\<^sup>*"
  have inv: "out_inv s" using out_reach_inv [OF assms(2) out_init_inv [OF assms(1)]] .
  obtain s1 c where s1: "?run s s1" "call_at s1 i (Sending c sd)" "o_handler s1 = o_handler s" "o_loop s1 \<noteq> LoopEnded" "\<not> o_lbClosed s1"
    using pending_sends [OF inv assms(3,4)] assms(5,6) by metis
  have inv1: "out_inv s1" using out_reach_inv [OF s1(1) inv] .
  then have c: "c \<in> set (forwarders (mh_outgoingCLB (o_handler s1)))" "o_fwd s1 c \<noteq> Ended" "closedChans (mh_outgoingCLB (o_handler s1)) = {}"
    using s1(2,5) nth_mem [of i "o_calls s1"] unfolding out_inv_def by metis+
  obtain s2 where s2: "?run s1 s2" "o_loop s2 \<noteq> LoopEnded" "o_handler s2 = o_handler s1" "o_calls s2 = o_calls s1" "o_fwd s2 c = Waiting"
    using free_forwarder [OF s1(4) c(1,2)] by blast
  let ?s3 = "set_call i (Sent sd) (s2\<lparr>o_fwd := (o_fwd s2)(c := Holding (Some sd)), o_sent := o_sent s2 @ [(c, sd)]\<rparr>)"
  have 3: "out_step E keyError canProcess s2 ?s3"
    using out_step.hand_over [of i s2 c sd E keyError canProcess] s1(2) s2 c by simp
  let ?s4 = "set_call i (Finished sd) (?s3\<lparr>o_processing := o_processing ?s3 - 1\<rparr>)"
  have "call_at ?s3 i (Sent sd)" using s1(2) s2(4) by (simp add: set_call_def)
  from out_step.finish [OF this] have 4: "out_step E keyError canProcess ?s3 ?s4" .
  have s4: "call_at ?s4 i (Finished sd)" "o_loop ?s4 \<noteq> LoopEnded" "o_handler ?s4 = o_handler s" "o_fwd ?s4 c = Holding (Some sd)"
    using s1 s2 by (simp_all add: set_call_def)
  obtain s5 where s5: "?run ?s4 s5" "o_loop s5 = Collecting" "o_handler s5 = o_handler s" "o_calls s5 = o_calls ?s4" "o_fwd s5 = o_fwd ?s4"
    using to_collecting [OF s4(2)] s4(3) by metis
  let ?s6 = "s5\<lparr>o_fwd := (o_fwd s5)(c := Waiting), o_collected := o_collected s5 @ [(c, Some sd)], o_loop := Publishing (Some c) (Some sd)\<rparr>"
  have "(Some c, Some sd) \<in> CollectOneElementFromChannels s5"
    using s5 s4(4) c(1) s1(3) by (simp add: CollectOneElementFromChannels_def)
  from out_step.collect [OF s5(2) this] have 6: "out_step E keyError canProcess s5 ?s6" .
  let ?s7 = "publish_turn E now (Some c) (Some sd) ?s6"
  have 7: "out_step E keyError canProcess ?s6 ?s7" by (rule out_step.publishing) simp
  have "?run s ?s7"
    using s1(1) s2(1) 3 4 s5(1) 6 7 by (meson rtranclp_trans rtranclp.rtrancl_into_rtrancl)
  then show ?thesis
    using s4(1) s5 by (intro exI [of _ ?s7] exI [of _ c]) (simp add: publish_turn_def)
qed

section \<open>Closing\<close>

text \<open>The contexts are cancelled, the loop has returned, and no forwarder takes anything from its channel.\<close>

definition shut_down :: "('ps, 'ev, 'c) out_state \<Rightarrow> bool" where
  "shut_down s \<longleftrightarrow> o_closed s \<and> o_lbClosed s \<and> o_loop s = LoopEnded"

definition stranded :: "('ps, 'ev, 'c) out_state \<Rightarrow> nat \<Rightarrow> chan \<Rightarrow> SendableData \<Rightarrow> bool" where
  "stranded s i c sd \<longleftrightarrow> call_at s i (Sending c sd) \<and> o_fwd s c \<noteq> Waiting"

lemma shut_down_step:
  assumes "out_step E keyError canProcess s s'" "out_inv s" "shut_down s"
  shows "shut_down s'" "o_handled s' = o_handled s" "stranded s i c sd \<Longrightarrow> stranded s' i c sd"
proof -
  note d = shut_down_def set_call_def oclb_Close_def publish_turn_def
  show "shut_down s'" "o_handled s' = o_handled s"
    using assms(1,3) by (cases rule: out_step.cases; auto simp: d)+
  assume st: "stranded s i c sd"
  from assms(1) show "stranded s' i c sd"
  proof (cases rule: out_step.cases)
    case (hand_over j c' sd')
    then show ?thesis using st by (cases "j = i") (auto simp: stranded_def set_call_def)
  next
    case (send_on_closed j c' sd')
    then show ?thesis using assms(2) by (simp add: out_inv_def)
  qed (use st assms(3) in \<open>auto simp: stranded_def d nth_append nth_list_update split: option.splits\<close>)
qed

lemma shut_down_run:
  assumes "(out_step E keyError canProcess)\<^sup>*\<^sup>* s s'" "out_inv s" "shut_down s"
  shows "out_inv s' \<and> shut_down s' \<and> o_handled s' = o_handled s \<and> (\<forall>i c sd. stranded s i c sd \<longrightarrow> stranded s' i c sd)"
  using assms
proof (induction rule: rtranclp_induct)
  case (step y z)
  then show ?case using shut_down_step [OF step(2)] out_step_inv [OF step(2)] by metis
qed simp

lemma forwarders_end:
  assumes "o_lbClosed s" "set cs \<subseteq> set (forwarders (mh_outgoingCLB (o_handler s)))"
  shows "\<exists>s'. (out_step E keyError canProcess)\<^sup>*\<^sup>* s s' \<and> o_calls s' = o_calls s \<and> o_handler s' = o_handler s \<and>
    (shut_down s \<longrightarrow> shut_down s') \<and> (\<forall>c \<in> set cs. o_fwd s' c \<noteq> Waiting) \<and> (\<forall>c. o_fwd s c \<noteq> Waiting \<longrightarrow> o_fwd s' c \<noteq> Waiting)"
  using assms
proof (induction cs arbitrary: s)
  case (Cons c cs)
  show ?case
  proof (cases "o_fwd s c = Waiting")
    case True
    let ?s = "s\<lparr>o_fwd := (o_fwd s)(c := Ended)\<rparr>"
    have st: "out_step E keyError canProcess s ?s" using out_step.forwarder_ends [of c s] True Cons.prems by simp
    obtain s' where s': "(out_step E keyError canProcess)\<^sup>*\<^sup>* ?s s'" "o_calls s' = o_calls s" "o_handler s' = o_handler s"
      "shut_down ?s \<longrightarrow> shut_down s'" "\<forall>c \<in> set cs. o_fwd s' c \<noteq> Waiting" "\<forall>c. o_fwd ?s c \<noteq> Waiting \<longrightarrow> o_fwd s' c \<noteq> Waiting"
      using Cons.IH [of ?s] Cons.prems by auto
    then show ?thesis
      using converse_rtranclp_into_rtranclp [of "out_step E keyError canProcess", OF st s'(1)]
      by (intro exI [of _ s']) (auto simp: shut_down_def split: if_splits)
  next
    case False
    then show ?thesis using Cons.IH [of s] Cons.prems by fastforce
  qed
qed auto

lemma loop_can_end:
  assumes "o_closed s" "o_lbClosed s"
  shows "\<exists>s'. (out_step E keyError canProcess)\<^sup>*\<^sup>* s s' \<and> shut_down s' \<and> o_calls s' = o_calls s \<and> o_handler s' = o_handler s"
proof -
  let ?step = "out_step E keyError canProcess"
  let ?goal = "\<lambda>s. \<exists>s'. ?step\<^sup>*\<^sup>* s s' \<and> shut_down s' \<and> o_calls s' = o_calls s \<and> o_handler s' = o_handler s"
  have via: "?goal s" if "?step s s1" "?goal s1" "o_calls s1 = o_calls s" "o_handler s1 = o_handler s" for s s1
    using that by (metis converse_rtranclp_into_rtranclp)
  have sleeping: "?goal s" if "o_closed s" "o_lbClosed s" "o_loop s = Sleeping" for s
    using out_step.loop_returns [OF that(3,1), of E keyError canProcess] that
    by (intro exI [of _ "s\<lparr>o_loop := LoopEnded\<rparr>"]) (auto simp: shut_down_def)
  have publishing: "?goal s" if "o_closed s" "o_lbClosed s" "o_loop s = Publishing src x" for s src x
    using that by (intro via [OF out_step.publishing [OF that(3), where now = 0]] sleeping) (simp_all add: publish_turn_def)
  have collecting: "?goal s" if "o_closed s" "o_lbClosed s" "o_loop s = Collecting" for s
  proof -
    have "(None, None) \<in> CollectOneElementFromChannels s" using that(2) by (simp add: CollectOneElementFromChannels_def)
    note st = out_step.collect_nothing [OF that(3) this, of E keyError canProcess]
    have "?goal (s\<lparr>o_loop := Publishing None None\<rparr>)"
      by (rule publishing [where src = None and x = None]) (use that in simp_all)
    from via [OF st this] show ?thesis by simp
  qed
  show ?thesis
    using assms sleeping collecting publishing by (cases "o_loop s") (auto simp: shut_down_def intro: exI [of _ s])
qed

lemma can_shut_down:
  "\<exists>s'. (out_step E keyError canProcess)\<^sup>*\<^sup>* s s' \<and> shut_down s' \<and> o_calls s' = o_calls s \<and> o_handler s' = o_handler s \<and>
     (\<forall>c \<in> set (forwarders (mh_outgoingCLB (o_handler s))). o_fwd s' c \<noteq> Waiting)"
proof -
  let ?step = "out_step E keyError canProcess"
  let ?s1 = "s\<lparr>o_closed := True\<rparr>"
  have 1: "?step s ?s1" by (rule out_step.close_handler)
  have 2: "?step ?s1 (oclb_Close ?s1)" by (rule out_step.close_balancer) simp
  obtain s3 where s3: "?step\<^sup>*\<^sup>* (oclb_Close ?s1) s3" "shut_down s3" "o_calls s3 = o_calls s" "o_handler s3 = o_handler s"
    using loop_can_end [of "oclb_Close ?s1" E keyError canProcess] by (auto simp: oclb_Close_def)
  obtain s4 where s4: "?step\<^sup>*\<^sup>* s3 s4" "o_calls s4 = o_calls s" "o_handler s4 = o_handler s" "shut_down s4"
    "\<forall>c \<in> set (forwarders (mh_outgoingCLB (o_handler s))). o_fwd s4 c \<noteq> Waiting"
    using forwarders_end [of s3 "forwarders (mh_outgoingCLB (o_handler s))" E keyError canProcess] s3 by (auto simp: shut_down_def)
  have "?step\<^sup>*\<^sup>* s s4"
    using converse_rtranclp_into_rtranclp [of ?step, OF 1 converse_rtranclp_into_rtranclp [of ?step, OF 2]] s3(1) s4(1)
    by (meson rtranclp_trans)
  with s4 show ?thesis by blast
qed

definition is_sending :: "bcast \<Rightarrow> bool" where
  "is_sending b = (case b of Sending _ _ \<Rightarrow> True | _ \<Rightarrow> False)"

lemma filter_length_mono:
  assumes "\<And>i. i < length xs \<Longrightarrow> P (xs ! i) \<Longrightarrow> i < length ys \<and> Q (ys ! i)"
  shows "length (filter P xs) \<le> length (filter Q ys)"
proof -
  have "{i. i < length xs \<and> P (xs ! i)} \<subseteq> {i. i < length ys \<and> Q (ys ! i)}" using assms by blast
  then show ?thesis by (simp add: length_filter_conv_card card_mono)
qed

text \<open>
  C39. Closing strands the broadcasts that wait for a channel: from every state that is reached, \<^verbatim>\<open>Close\<close> can go such that nothing is published any more,
  whatever happens afterwards, and every broadcast that was sending is sending for ever: its goroutine never returns and keeps its place with the
  throttler. When as many wait as the throttler admits, every broadcast after it is refused.
\<close>

theorem close_strands_broadcasts:
  assumes "NewOutgoingChannelLoadBalancer l = Inr (mh_outgoingCLB h)" "(out_step E keyError canProcess)\<^sup>*\<^sup>* (out_init h) s"
  shows "\<exists>s'. (out_step E keyError canProcess)\<^sup>*\<^sup>* s s' \<and>
    (\<forall>s''. (out_step E keyError canProcess)\<^sup>*\<^sup>* s' s'' \<longrightarrow>
      o_handled s'' = o_handled s' \<and> (\<forall>i c sd. call_at s i (Sending c sd) \<longrightarrow> call_at s'' i (Sending c sd)) \<and>
      length (filter is_sending (o_calls s)) \<le> o_processing s'' \<and>
      ((\<forall>n. canProcess n \<longrightarrow> n < length (filter is_sending (o_calls s))) \<longrightarrow> \<not> canProcess (o_processing s'')))"
proof -
  let ?run = "(out_step E keyError canProcess)\<^sup>*\<^sup>*"
  have inv: "out_inv s" using out_reach_inv [OF assms(2) out_init_inv [OF assms(1)]] .
  obtain s1 where s1: "?run s s1" "shut_down s1" "o_calls s1 = o_calls s" "o_handler s1 = o_handler s"
    "\<forall>c \<in> set (forwarders (mh_outgoingCLB (o_handler s))). o_fwd s1 c \<noteq> Waiting" using can_shut_down by blast
  have str: "stranded s1 i c sd" if "call_at s i (Sending c sd)" for i c sd
    using that s1(3,5) inv nth_mem [of i "o_calls s"] unfolding stranded_def out_inv_def by metis
  show ?thesis
  proof (intro exI [of _ s1] conjI allI impI)
    show "?run s s1" by fact
    fix s2 assume s2: "?run s1 s2"
    note after = shut_down_run [OF s2 out_reach_inv [OF s1(1) inv] s1(2)]
    have stay: "call_at s2 i (Sending c sd)" if "call_at s i (Sending c sd)" for i c sd
      using after str [OF that] unfolding stranded_def by blast
    have "length (filter is_sending (o_calls s)) \<le> length (filter in_process (o_calls s2))"
      by (rule filter_length_mono) (use stay in \<open>fastforce simp: is_sending_def in_process_def split: bcast.splits\<close>)
    then show le: "length (filter is_sending (o_calls s)) \<le> o_processing s2" using after by (simp add: out_inv_def)
    show "o_handled s2 = o_handled s1" using after by blast
    show "i < length (o_calls s2)" "o_calls s2 ! i = Sending c sd" if "call_at s i (Sending c sd)" for i c sd
      using stay [OF that] by auto
    show "\<not> canProcess (o_processing s2)" if "\<forall>n. canProcess n \<longrightarrow> n < length (filter is_sending (o_calls s))"
      using that le by (meson leD)
  qed
qed

section \<open>The limit on concurrent broadcasts\<close>

definition example_sd :: SendableData where
  "example_sd = \<lparr>sd_Buff = [104, 105], sd_Topic = ''t'', sd_Sk = None, sd_ID = ''self''\<rparr>"

lemma allowed_calls:
  assumes "checkSendableData buff = None" "canProcess 0" "sd = \<lparr>sd_Buff = buff, sd_Topic = topic, sd_Sk = None, sd_ID = h_peerID E\<rparr>"
  shows "(out_step E keyError canProcess)\<^sup>*\<^sup>* (out_init h) ((out_init h)\<lparr>o_calls := replicate n (Allowed channel sd)\<rparr>)"
proof (induction n)
  case 0
  show ?case by (simp add: out_init_def)
next
  case (Suc n)
  let ?s = "(out_init h)\<lparr>o_calls := replicate n (Allowed channel sd)\<rparr>"
  let ?s1 = "?s\<lparr>o_calls := o_calls ?s @ [Checked channel sd]\<rparr>"
  have 1: "out_step E keyError canProcess ?s ?s1"
    by (rule out_step.call [OF assms(3), where channel = channel]) (simp add: assms(1))
  have 2: "out_step E keyError canProcess ?s1 (set_call n (Allowed channel sd) ?s1)"
    by (rule out_step.allowed) (simp_all add: assms(2) out_init_def nth_append)
  have "set_call n (Allowed channel sd) ?s1 = (out_init h)\<lparr>o_calls := replicate (Suc n) (Allowed channel sd)\<rparr>"
    by (simp add: set_call_def list_update_append replicate_append_same)
  with Suc 1 2 show ?case by (metis (no_types, lifting) rtranclp.rtrancl_into_rtrancl)
qed

lemma started_calls:
  assumes "k \<le> n"
  shows "(out_step E keyError canProcess)\<^sup>*\<^sup>* ((out_init h)\<lparr>o_calls := replicate n (Allowed channel sd)\<rparr>)
    ((out_init h)\<lparr>o_calls := replicate k (Started channel sd) @ replicate (n - k) (Allowed channel sd), o_processing := k\<rparr>)"
  using assms
proof (induction k)
  case 0
  show ?case by (simp add: out_init_def)
next
  case (Suc k)
  let ?s = "(out_init h)\<lparr>o_calls := replicate k (Started channel sd) @ replicate (n - k) (Allowed channel sd), o_processing := k\<rparr>"
  obtain m where m: "n - k = Suc m" "n - Suc k = m" using Suc.prems by (metis Suc_diff_Suc Suc_le_lessD)
  have "out_step E keyError canProcess ?s (set_call k (Started channel sd) (?s\<lparr>o_processing := Suc (o_processing ?s)\<rparr>))"
    by (rule out_step.start) (use m in \<open>simp add: nth_append\<close>)
  moreover have "set_call k (Started channel sd) (?s\<lparr>o_processing := Suc (o_processing ?s)\<rparr>) =
      (out_init h)\<lparr>o_calls := replicate (Suc k) (Started channel sd) @ replicate (n - Suc k) (Allowed channel sd), o_processing := Suc k\<rparr>"
    using m by (simp add: set_call_def list_update_append replicate_app_Cons_same)
  ultimately show ?case using Suc by (metis (no_types, lifting) Suc_leD rtranclp.rtrancl_into_rtrancl)
qed

text \<open>
  The throttler does not limit the broadcasts: \<^verbatim>\<open>CanProcess\<close> and \<^verbatim>\<open>StartProcessing\<close> are two calls, so any number of broadcasts that start
  together pass the check before the first of them is counted. For every number there is a run after which that many are in process, however
  small the limit is.
\<close>

theorem broadcast_limit_overshot:
  assumes "canProcess 0" "0 < length (buff :: bytes)" "length buff \<le> maxSendBuffSize"
  shows "\<exists>s. (out_step E keyError canProcess)\<^sup>*\<^sup>* (out_init h) s \<and> o_processing s = n"
proof -
  let ?sd = "\<lparr>sd_Buff = buff, sd_Topic = [], sd_Sk = None, sd_ID = h_peerID E\<rparr>"
  have "(out_step E keyError canProcess)\<^sup>*\<^sup>* (out_init h) ((out_init h)\<lparr>o_calls := replicate n (Allowed [] ?sd)\<rparr>)"
    by (rule allowed_calls) (use assms in \<open>auto simp: checkSendableData_def\<close>)
  from rtranclp_trans [OF this started_calls [OF order_refl]] show ?thesis by (intro exI conjI) auto
qed

theorem broadcast_limit_overshot_witness:
  "\<exists>s. (out_step ex_mh_env (\<lambda>_. None) (\<lambda>k. k < 1))\<^sup>*\<^sup>* (out_init ex_mh) s \<and> o_processing s = 1000"
  by (rule broadcast_limit_overshot [where buff = "[1]"]) (simp_all add: maxSendBuffSize_def)

section \<open>Examples\<close>

definition ex_sending :: "(string set, peer_id set, peer_id \<rightharpoonup> cache_val) out_state" where
  "ex_sending = (out_init ex_mh)\<lparr>o_calls := [Sending 0 example_sd], o_processing := 1\<rparr>"

definition ex_held :: "(string set, peer_id set, peer_id \<rightharpoonup> cache_val) out_state" where
  "ex_held = set_call 0 (Sent example_sd) (ex_sending\<lparr>o_fwd := (o_fwd ex_sending)(0 := Holding (Some example_sd)),
     o_sent := o_sent ex_sending @ [(0, example_sd)]\<rparr>)"

abbreviation ex_run :: "(string set, peer_id set, peer_id \<rightharpoonup> cache_val) out_state \<Rightarrow> (string set, peer_id set, peer_id \<rightharpoonup> cache_val) out_state \<Rightarrow> bool" where
  "ex_run \<equiv> (out_step ex_mh_env (\<lambda>_. None) (\<lambda>n. n < 1))\<^sup>*\<^sup>*"

lemma ex_sending_reached: "ex_run (out_init ex_mh) ex_sending"
proof -
  let ?step = "out_step ex_mh_env (\<lambda>_. None) (\<lambda>n. n < 1)"
  let ?s = "(out_init ex_mh)\<lparr>o_calls := [Started ''t'' example_sd], o_processing := 1\<rparr>"
  have sd: "example_sd = \<lparr>sd_Buff = [104, 105], sd_Topic = ''t'', sd_Sk = None, sd_ID = h_peerID ex_mh_env\<rparr>"
    by (simp add: example_sd_def)
  have "ex_run (out_init ex_mh) ((out_init ex_mh)\<lparr>o_calls := replicate 1 (Allowed ''t'' example_sd)\<rparr>)"
    by (rule allowed_calls [OF _ _ sd]) (simp_all add: checkSendableData_def maxSendBuffSize_def)
  moreover have "ex_run ((out_init ex_mh)\<lparr>o_calls := replicate 1 (Allowed ''t'' example_sd)\<rparr>) ?s"
    using started_calls [where k = 1 and n = 1 and channel = "''t''" and sd = example_sd and h = ex_mh] by simp
  moreover have "?step ?s (set_call 0 (Sending 0 example_sd) ?s)"
    by (rule out_step.look_up [where channel = "''t''"])
       (simp_all add: out_init_def ex_mh_def GetChannelOrDefault_def bal0_def appendChannel_def defaultSendChannel_def)
  moreover have "set_call 0 (Sending 0 example_sd) ?s = ex_sending" by (simp add: set_call_def ex_sending_def)
  ultimately show ?thesis by (metis (no_types, lifting) rtranclp.rtrancl_into_rtrancl rtranclp_trans)
qed

lemma ex_held_reached: "ex_run (out_init ex_mh) ex_held"
proof -
  have "out_step ex_mh_env (\<lambda>_. None) (\<lambda>n. n < 1) ex_sending ex_held"
    unfolding ex_held_def
    by (rule out_step.hand_over) (simp_all add: ex_sending_def out_init_def ex_mh_def bal0_def appendChannel_def)
  with ex_sending_reached show ?thesis by (rule rtranclp.rtrancl_into_rtrancl)
qed

lemma ex_mh_new: "NewOutgoingChannelLoadBalancer True = Inr (mh_outgoingCLB ex_mh)"
  using bal0_new by (simp add: ex_mh_def)

theorem outgoing_in_order_witness:
  "ex_run (out_init ex_mh) ex_held \<and> on_chan 0 (o_sent ex_held) = [example_sd] \<and> BPanicked \<notin> set (o_calls ex_held) \<and>
   on_chan 0 (o_sent ex_held) = on_chan 0 (handled_data ex_held) @ on_chan 0 (publishing_from (o_loop ex_held)) @ [example_sd]"
  using outgoing_in_order [OF ex_mh_new ex_held_reached, of 0] ex_held_reached
  by (simp add: ex_held_def ex_sending_def out_init_def on_chan_def set_call_def)

theorem broadcast_can_complete_witness:
  "\<exists>s' c. ex_run ex_sending s' \<and> call_at s' 0 (Finished example_sd) \<and> o_handled s' \<noteq> [] \<and>
     last (o_handled s') = (c, example_sd, processCollected ex_mh_env ex_mh 100 (Some example_sd))"
  using broadcast_can_complete [OF ex_mh_new ex_sending_reached, of 0 "Sending 0 example_sd" example_sd 100]
  by (simp add: ex_sending_def out_init_def pending_def)

theorem close_strands_broadcasts_witness:
  "\<exists>s'. ex_run ex_sending s' \<and> {s''. ex_run s' s''} \<subseteq> {s''. call_at s'' 0 (Sending 0 example_sd) \<and> 1 \<le> o_processing s''}"
proof -
  have "call_at ex_sending 0 (Sending 0 example_sd)" "length (filter is_sending (o_calls ex_sending)) = 1"
    by (simp_all add: ex_sending_def is_sending_def)
  moreover obtain s' where s': "ex_run ex_sending s'" "\<And>s''. ex_run s' s'' \<Longrightarrow>
      (\<forall>i c sd. call_at ex_sending i (Sending c sd) \<longrightarrow> call_at s'' i (Sending c sd)) \<and>
      length (filter is_sending (o_calls ex_sending)) \<le> o_processing s''"
    using close_strands_broadcasts [OF ex_mh_new ex_sending_reached] by blast
  ultimately show ?thesis by (intro exI [of _ s']) force
qed

end
