(* ===== verification/Wire_Types.thy ===== *)
theory Wire_Types
  imports Topic_Message Ws_Message
begin

text \<open>
  What the generated \<^verbatim>\<open>Unmarshal\<close> methods accept. The wire format is given as a grammar, independent of the decoding loops: variable-length integers
  of at most ten bytes, values by wire type with nested groups, and messages as sequences of numbered values. A schema says which wire type a known field
  has. The theorems show that \<^verbatim>\<open>Unmarshal\<close> of the three messages succeeds exactly on the byte strings that the grammar derives with
  well-typed fields, and what it then computes: every field has its last value.
\<close>

section \<open>Grammar\<close>

inductive varint :: "bytes \<Rightarrow> nat \<Rightarrow> bool" where
  last_byte: "b < 128 \<Longrightarrow> varint [b] (unat b)"
| more_bytes: "\<not> b < 128 \<Longrightarrow> varint bs n \<Longrightarrow> varint (b # bs) (unat b mod 128 + 128 * n)"

inductive_cases varint_NilE: "varint [] n"
inductive_simps varint_Cons: "varint (b # bs) n"

definition vint :: "bytes \<Rightarrow> nat \<Rightarrow> bool" where
  "vint bs n \<longleftrightarrow> varint bs n \<and> length bs \<le> 10"

datatype wire_value = VInt nat | VFixed64 bytes | VBytes bytes | VGroup | VFixed32 bytes

fun wire_type :: "wire_value \<Rightarrow> nat" where
  "wire_type (VInt _) = 0"
| "wire_type (VFixed64 _) = 1"
| "wire_type (VBytes _) = 2"
| "wire_type VGroup = 3"
| "wire_type (VFixed32 _) = 5"

text \<open>The number of a field, a signed 32-bit integer, from the integer of its tag, which is cut to 64 bits.\<close>

definition field_number :: "nat \<Rightarrow> int" where
  "field_number n = (let k = n mod 2 ^ 64 div 8 mod 2 ^ 32 in if k < 2 ^ 31 then int k else int k - 2 ^ 32)"

inductive value_bytes :: "wire_value \<Rightarrow> bytes \<Rightarrow> bool" and group_body :: "bytes \<Rightarrow> bool" where
  v_int: "vint bs n \<Longrightarrow> value_bytes (VInt n) bs"
| v_fixed64: "length bs = 8 \<Longrightarrow> value_bytes (VFixed64 bs) bs"
| v_bytes: "vint l n \<Longrightarrow> n mod 2 ^ 64 < 2 ^ 63 \<Longrightarrow> length bs = n mod 2 ^ 64 \<Longrightarrow> value_bytes (VBytes bs) (l @ bs)"
| v_group: "group_body bs \<Longrightarrow> value_bytes VGroup bs"
| v_fixed32: "length bs = 4 \<Longrightarrow> value_bytes (VFixed32 bs) bs"
| g_end: "vint t n \<Longrightarrow> n mod 8 = 4 \<Longrightarrow> group_body t"
| g_item: "vint t n \<Longrightarrow> n mod 8 = wire_type v \<Longrightarrow> value_bytes v bs \<Longrightarrow> group_body r \<Longrightarrow> group_body (t @ bs @ r)"

inductive_simps value_bytes_simps: "value_bytes (VInt n) bs" "value_bytes (VBytes xs) bs"

inductive message_wire :: "bytes \<Rightarrow> (int \<times> wire_value) list \<Rightarrow> bool" where
  m_end: "message_wire [] []"
| m_field: "vint t n \<Longrightarrow> n mod 8 = wire_type v \<Longrightarrow> 0 < field_number n \<Longrightarrow> value_bytes v bs \<Longrightarrow> message_wire r es \<Longrightarrow>
    message_wire (t @ bs @ r) ((field_number n, v) # es)"

text \<open>A schema gives the wire type of the fields that a message knows; other fields may have any value.\<close>

type_synonym schema = "int \<rightharpoonup> nat"

definition typed :: "schema \<Rightarrow> int \<times> wire_value \<Rightarrow> bool" where
  "typed S e = (case S (fst e) of None \<Rightarrow> True | Some w \<Rightarrow> wire_type (snd e) = w)"

section \<open>Integers\<close>

lemma varint_not_Nil: "varint bs n \<Longrightarrow> bs \<noteq> []"
  by (auto elim: varint_NilE)

lemma decodeVarint_varint:
  assumes "varint bs n" "drop i d = bs @ rest" "shift + 7 * (length bs - 1) < 64"
  shows "decodeVarint d i shift (acc :: 'w::len word) = Inr (acc OR push_bit shift (of_nat n), i + length bs)"
  using assms
proof (induction bs n arbitrary: i shift acc rule: varint.induct)
  case (last_byte b)
  then have i: "i < length d" "d ! i = b" by (auto dest: drop_eq_ConsD)
  have "unat b mod 128 = unat b" using last_byte(1) by (simp add: word_less_nat_alt)
  then show ?case
    using i last_byte(1,3) by (simp add: decodeVarint.simps [of d i] Let_def ucast_and_127)
next
  case (more_bytes b bs n)
  then have i: "i < length d" "d ! i = b" "drop (Suc i) d = bs @ rest" by (auto dest: drop_eq_ConsD)
  have bs: "bs \<noteq> []" using varint_not_Nil [OF more_bytes(2)] .
  then have sh: "shift + 7 + 7 * (length bs - 1) < 64" using more_bytes(5) by (cases bs) auto
  have "(acc OR push_bit shift (of_nat (unat b mod 128))) OR push_bit (shift + 7) (of_nat n) =
      (acc OR push_bit shift (of_nat (unat b mod 128 + 128 * n)) :: 'w word)"
    by (subst word_of_nat_split_7 [of "unat b mod 128 + 128 * n"])
       (simp add: push_bit_or or.assoc push_bit_push_bit add.commute)
  then show ?case
    using more_bytes(1) i more_bytes.IH [OF i(3) sh, of "acc OR push_bit shift (of_nat (unat b mod 128))"] sh
    by (simp add: decodeVarint.simps [of d i] Let_def ucast_and_127)
qed

lemma ten_bytes: "7 * (k - 1) < (64 :: nat) \<longleftrightarrow> k \<le> 10"
  by presburger

lemma decodeVarint_vint:
  "vint bs n \<Longrightarrow> drop i d = bs @ rest \<Longrightarrow> decodeVarint d i 0 (0 :: 'w::len word) = Inr (of_nat n, i + length bs)"
  using decodeVarint_varint [of bs n i d rest 0 "0 :: 'w word"] ten_bytes [of "length bs"] by (simp add: vint_def)

lemma decodeVarint_inv:
  assumes "decodeVarint d i shift (acc :: 'w::len word) = Inr (v, j)"
  shows "\<exists>bs n. varint bs n \<and> drop i d = bs @ drop j d \<and> j = i + length bs \<and> shift + 7 * (length bs - 1) < 64"
  using assms
proof (induction d i shift acc rule: decodeVarint.induct)
  case (1 d i shift acc)
  let ?b = "d ! i" and ?acc = "acc OR push_bit shift (ucast (d ! i AND 127))"
  have c: "shift < 64" "i < length d" using "1.prems" by (auto simp: decodeVarint.simps [of d i] not_le split: if_splits)
  have d: "drop i d = ?b # drop (Suc i) d" using c(2) by (simp add: Cons_nth_drop_Suc)
  show ?case
  proof (cases "?b < 128")
    case True
    then have "j = Suc i" using "1.prems" c by (simp add: decodeVarint.simps [of d i] Let_def)
    then show ?thesis using c d varint.last_byte [OF True] by (intro exI [of _ "[?b]"] exI) auto
  next
    case False
    then have "decodeVarint d (Suc i) (shift + 7) ?acc = Inr (v, j)"
      using "1.prems" c by (simp add: decodeVarint.simps [of d i] Let_def)
    then obtain bs n where bs: "varint bs n" "drop (Suc i) d = bs @ drop j d" "j = Suc i + length bs" "shift + 7 + 7 * (length bs - 1) < 64"
      using "1.IH" [of ?b ?acc] False c unfolding not_le by blast
    moreover have "bs \<noteq> []" using varint_not_Nil [OF bs(1)] .
    ultimately show ?thesis
      using d varint.more_bytes [OF False bs(1)] by (intro exI [of _ "?b # bs"] exI) (cases bs; auto)
  qed
qed

lemma decodeVarint_iff:
  "decodeVarint d i 0 (0 :: 'w::len word) = Inr (v, j) \<longleftrightarrow>
   (\<exists>bs n. vint bs n \<and> drop i d = bs @ drop j d \<and> j = i + length bs \<and> v = of_nat n)"
proof
  assume l: "decodeVarint d i 0 (0 :: 'w word) = Inr (v, j)"
  from decodeVarint_inv [OF this] obtain bs n where "vint bs n" "drop i d = bs @ drop j d" "j = i + length bs"
    unfolding vint_def add_0 ten_bytes by blast
  with l decodeVarint_vint [of bs n i d "drop j d", where 'w = 'w]
  show "\<exists>bs n. vint bs n \<and> drop i d = bs @ drop j d \<and> j = i + length bs \<and> v = of_nat n" by auto
qed (auto simp: decodeVarint_vint)

lemma skipVarint_decode: "skipVarint d i shift = map_sum (\<lambda>e. e) snd (decodeVarint d i shift (acc :: uint64))"
proof (induction d i shift acc rule: decodeVarint.induct)
  case (1 d i shift acc)
  show ?case
    by (subst skipVarint.simps, subst decodeVarint.simps) (simp add: 1 [OF _ _ refl refl] Let_def)
qed

lemma skipVarint_iff: "skipVarint d i 0 = Inr j \<longleftrightarrow> (\<exists>bs n. vint bs n \<and> drop i d = bs @ drop j d \<and> j = i + length bs)"
proof -
  have "skipVarint d i 0 = Inr j \<longleftrightarrow> (\<exists>v. decodeVarint d i 0 (0 :: uint64) = Inr (v, j))"
    unfolding skipVarint_decode [of d i 0 0] by (cases "decodeVarint d i 0 (0 :: uint64)") auto
  then show ?thesis by (auto simp: decodeVarint_iff)
qed

lemma signed_by_cases:
  assumes "0 \<le> u" "u < 2 * M" "(0 :: int) < M"
  shows "(u + M) mod (2 * M) - M = (if u < M then u else u - 2 * M)"
proof (cases "u < M")
  case True
  then show ?thesis using assms by (simp add: mod_pos_pos_trivial)
next
  case False
  then have "(u + M) mod (2 * M) = (u - M) mod (2 * M)"
    using mod_add_self2 [of "u - M" "2 * M"] by (simp add: algebra_simps)
  then show ?thesis using False assms by (simp add: mod_pos_pos_trivial)
qed

lemma int_less_power: "int u < 2 ^ 31 \<longleftrightarrow> u < 2 ^ 31" "int u < 2 ^ 63 \<longleftrightarrow> u < 2 ^ 63" "(2 :: int) * 2 ^ 31 = 2 ^ 32"
  by simp_all

lemma sint_by_unat_32: "sint (w :: 32 word) = (if unat w < 2 ^ 31 then int (unat w) else int (unat w) - 2 ^ 32)"
proof -
  have "sint w = (uint w + 2 ^ 31) mod (2 * 2 ^ 31) - 2 ^ 31"
    unfolding sint_uint signed_take_bit_eq_take_bit_shift take_bit_eq_mod by simp
  also have "\<dots> = (if uint w < 2 ^ 31 then uint w else uint w - 2 * 2 ^ 31)"
    by (rule signed_by_cases) (use uint_bounded [of w] in simp_all)
  finally show ?thesis unfolding uint_nat int_less_power .
qed

lemma sint_neg_64: "sint (w :: int64) < 0 \<longleftrightarrow> \<not> unat w < 2 ^ 63"
proof -
  have "sint w = (uint w + 2 ^ 63) mod (2 * 2 ^ 63) - 2 ^ 63"
    unfolding sint_uint signed_take_bit_eq_take_bit_shift take_bit_eq_mod by simp
  also have "\<dots> = (if uint w < 2 ^ 63 then uint w else uint w - 2 * 2 ^ 63)"
    by (rule signed_by_cases) (use uint_bounded [of w] in simp_all)
  finally have "sint w < 0 \<longleftrightarrow> \<not> uint w < 2 ^ 63" using uint_bounded [of w] by (simp split: if_splits)
  then show ?thesis unfolding uint_nat int_less_power .
qed

lemma tag_fields:
  "unat ((of_nat n :: uint64) AND 7) = n mod 8" "sint (ucast (drop_bit 3 (of_nat n :: uint64)) :: 32 word) = field_number n"
proof -
  have "n mod 2 ^ 64 mod 8 = n mod 8" by (rule mod_mod_cancel) simp
  then show "unat ((of_nat n :: uint64) AND 7) = n mod 8" by (simp add: unsigned_and_eq nat_and_7 unat_of_nat)
  have "unat (ucast (drop_bit 3 (of_nat n :: uint64)) :: 32 word) = n mod 2 ^ 64 div 8 mod 2 ^ 32"
    by (simp add: unsigned_ucast_eq unat_drop_bit_eq drop_bit_eq_div unat_of_nat take_bit_eq_mod unat_div)
  then show "sint (ucast (drop_bit 3 (of_nat n :: uint64)) :: 32 word) = field_number n"
    unfolding sint_by_unat_32 field_number_def Let_def by simp
qed

lemma decodeTag_iff:
  "decodeTag d i = Inr (f, w, j) \<longleftrightarrow>
   (\<exists>t n. vint t n \<and> drop i d = t @ drop j d \<and> j = i + length t \<and> f = field_number n \<and> w = n mod 8 \<and> w \<noteq> 4 \<and> 0 < f)"
  (is "?l \<longleftrightarrow> ?r")
proof
  assume ?l
  then obtain v where v: "decodeVarint d i 0 (0 :: uint64) = Inr (v, j)" "f = sint (ucast (drop_bit 3 v) :: 32 word)" "w = unat (v AND 7)"
    "w \<noteq> 4" "0 < f"
    by (auto simp: decodeTag_def Let_def not_le split: sum.splits if_splits)
  then show ?r unfolding decodeVarint_iff by (auto simp: tag_fields)
next
  assume ?r
  then obtain t n where "decodeVarint d i 0 (0 :: uint64) = Inr (of_nat n, j)" "f = field_number n" "w = n mod 8" "w \<noteq> 4" "0 < f"
    unfolding decodeVarint_iff by blast
  then show ?l by (simp add: decodeTag_def Let_def tag_fields)
qed

lemma decodeBytes_iff:
  assumes "fits_int (length d)"
  shows "decodeBytes d i = Inr (bs, j) \<longleftrightarrow>
    (\<exists>l n. vint l n \<and> n mod 2 ^ 64 < 2 ^ 63 \<and> length bs = n mod 2 ^ 64 \<and> drop i d = l @ bs @ drop j d \<and> j = i + length (l @ bs))"
  (is "?l \<longleftrightarrow> ?r")
proof
  assume ?l
  then obtain v i1 where v: "decodeVarint d i 0 (0 :: int64) = Inr (v, i1)" "\<not> sint v < 0" "i1 + unat v \<le> length d" "j = i1 + unat v"
    "bs = take (unat v) (drop i1 d)"
    by (auto simp: decodeBytes_def Let_def not_le not_less split: sum.splits if_splits)
  then obtain l n where l: "vint l n" "drop i d = l @ drop i1 d" "i1 = i + length l" "v = of_nat n" unfolding decodeVarint_iff by blast
  have u: "unat v = n mod 2 ^ 64" using l(4) by (simp add: unat_of_nat take_bit_eq_mod)
  have "drop i1 d = bs @ drop j d" using v(4,5) by (metis append_take_drop_id drop_drop add.commute)
  moreover have "length bs = unat v" using v(3,5) by simp
  ultimately show ?r using v(2,4) l u sint_neg_64 [of v] by auto
next
  assume ?r
  then obtain l n where l: "vint l n" "n mod 2 ^ 64 < 2 ^ 63" "length bs = n mod 2 ^ 64" "drop i d = l @ bs @ drop j d" "j = i + length (l @ bs)" by blast
  let ?v = "of_nat n :: int64"
  have u: "unat ?v = n mod 2 ^ 64" by (simp add: unat_of_nat take_bit_eq_mod)
  have dec: "decodeVarint d i 0 (0 :: int64) = Inr (?v, i + length l)" using decodeVarint_vint [OF l(1), of i d "bs @ drop j d"] l(4) by simp
  have dl: "drop (i + length l) d = bs @ drop j d" using drop_appendD [OF l(4)] .
  have le: "j \<le> length d"
  proof (rule ccontr)
    assume "\<not> j \<le> length d"
    then have "drop (i + length l) d = bs" using dl by simp
    then have "length d - (i + length l) = length bs" by (metis length_drop)
    moreover have "i + length l \<le> length d" using decodeVarint_progress [OF dec] by blast
    ultimately show False using \<open>\<not> j \<le> length d\<close> l(5) unfolding length_append by linarith
  qed
  have "take (length bs) (drop (i + length l) d) = bs" using dl by simp
  then show ?l
    using dec l(2,3,5) u le assms sint_neg_64 [of ?v] by (simp add: decodeBytes_def Let_def fits_int_def add.assoc)
qed

section \<open>Skipping\<close>

lemma vint_not_Nil: "vint bs n \<Longrightarrow> bs \<noteq> []"
  using varint_not_Nil by (auto simp: vint_def)

lemma drop_vint_within: "vint t n \<Longrightarrow> drop i d = t @ rest \<Longrightarrow> i < length d"
  using vint_not_Nil by (metis append_is_Nil_conv drop_all not_le)

lemma skip_step_value:
  assumes "vint t n" "n mod 8 = wire_type v" "value_bytes v bs" "v \<noteq> VGroup" "drop i d = t @ bs @ rest"
  shows "skip_step d i depth = Inr (i + length (t @ bs), depth)"
proof -
  have dec: "decodeVarint d i 0 (0 :: uint64) = Inr (of_nat n, i + length t)" using decodeVarint_vint [OF assms(1,5)] .
  have db: "drop (i + length t) d = bs @ rest" using drop_appendD [OF assms(5)] .
  show ?thesis
    using assms(3)
  proof (cases rule: value_bytes.cases)
    case (v_int m)
    then have "skipVarint d (i + length t) 0 = Inr (i + length t + length bs)"
      unfolding skipVarint_iff using db drop_appendD [OF db] by metis
    then show ?thesis using dec assms(2) v_int by (simp add: skip_step_def Let_def tag_fields)
  next
    case (v_bytes l m xs)
    then have "drop (i + length t) d = l @ xs @ rest" using db by simp
    from decodeVarint_vint [OF v_bytes(3) this, where 'w = 64]
    have len: "decodeVarint d (i + length t) 0 (0 :: int64) = Inr (of_nat m, i + length t + length l)" .
    have "unat (of_nat m :: int64) = length xs" using v_bytes(5) by (simp add: unat_of_nat take_bit_eq_mod)
    then show ?thesis
      using dec len assms(2) v_bytes sint_neg_64 [of "of_nat m"] by (simp add: skip_step_def Let_def tag_fields)
  qed (use dec assms(2,4) in \<open>simp_all add: skip_step_def Let_def tag_fields\<close>)
qed

lemma skip_step_group:
  assumes "vint t n" "drop i d = t @ rest"
  shows "n mod 8 = 3 \<Longrightarrow> skip_step d i depth = Inr (i + length t, Suc depth)"
    and "n mod 8 = 4 \<Longrightarrow> skip_step d i (Suc k) = Inr (i + length t, k)"
  using decodeVarint_vint [OF assms, where 'w = 64] by (simp_all add: skip_step_def Let_def tag_fields)

lemma skip_loop_turn:
  assumes "skip_step d i depth = Inr (j, depth')" "i < length d" "j < 2 ^ 63"
  shows "skip_loop d i depth = (if depth' = 0 then Inr j else skip_loop d j depth')"
  using assms by (simp add: skip_loop.simps [of d i])

lemma within: "drop i d = xs @ rest \<Longrightarrow> i \<le> length d \<Longrightarrow> i + length xs \<le> length d"
proof -
  assume "drop i d = xs @ rest" "i \<le> length d"
  then have "length d - i = length xs + length rest" by (metis length_append length_drop)
  with \<open>i \<le> length d\<close> show ?thesis by linarith
qed

lemma skip_loop_flat:
  assumes "fits_int (length d)" "value_bytes v bs" "v \<noteq> VGroup" "vint t n" "n mod 8 = wire_type v" "drop i d = t @ bs @ rest"
  shows "skip_loop d i depth = (if depth = 0 then Inr (i + length (t @ bs)) else skip_loop d (i + length (t @ bs)) depth)"
proof -
  have i: "i < length d" using drop_vint_within [OF assms(4,6)] .
  have d: "drop i d = (t @ bs) @ rest" using assms(6) by simp
  have "i + length (t @ bs) < 2 ^ 63" using within [OF d] i assms(1) by (simp add: fits_int_def)
  from skip_loop_turn [OF skip_step_value [OF assms(4,5,2,3,6)] i this] show ?thesis .
qed

lemma skip_loop_value:
  assumes "fits_int (length d)"
  shows "value_bytes v bs \<Longrightarrow> vint t n \<Longrightarrow> n mod 8 = wire_type v \<Longrightarrow> drop i d = t @ bs @ rest \<Longrightarrow>
      skip_loop d i (Suc k) = skip_loop d (i + length (t @ bs)) (Suc k)"
    and "group_body gs \<Longrightarrow> drop i' d = gs @ rest' \<Longrightarrow> i' \<le> length d \<Longrightarrow>
      skip_loop d i' (Suc k') = (if k' = 0 then Inr (i' + length gs) else skip_loop d (i' + length gs) k')"
proof (induction v bs and gs arbitrary: t n i k rest and i' k' rest' rule: value_bytes_group_body.inducts)
  case (v_group bs)
  have i: "i < length d" using drop_vint_within [OF v_group.prems(1,3)] .
  have le: "i + length t \<le> length d" using within [OF v_group.prems(3)] i by simp
  have "skip_loop d i (Suc k) = skip_loop d (i + length t) (Suc (Suc k))"
    using skip_loop_turn [OF skip_step_group(1) [OF v_group.prems(1,3)] i] v_group.prems(2) le assms by (simp add: fits_int_def)
  then show ?case using v_group.IH [OF drop_appendD [OF v_group.prems(3)] le, of "Suc k"] by (simp add: add.assoc)
next
  case (g_end t n)
  have i: "i' < length d" using drop_vint_within [OF g_end.hyps(1) g_end.prems(1)] .
  have le: "i' + length t \<le> length d" using within [OF g_end.prems(1)] i by simp
  then show ?case
    using skip_loop_turn [OF skip_step_group(2) [OF g_end.hyps(1) g_end.prems(1) g_end.hyps(2)] i] assms by (simp add: fits_int_def)
next
  case (g_item t n v bs r)
  have d: "drop i' d = t @ bs @ r @ rest'" using g_item.prems(1) by simp
  have 1: "skip_loop d i' (Suc k') = skip_loop d (i' + length (t @ bs)) (Suc k')" using g_item.IH(1) [OF g_item.hyps(1,2) d] .
  have d2: "drop i' d = (t @ bs) @ r @ rest'" using d by simp
  have le: "i' + length (t @ bs) \<le> length d" using within [OF d2 g_item.prems(2)] .
  show ?case using 1 g_item.IH(2) [OF drop_appendD [OF d2] le] by (simp add: add.assoc)
next
  case (v_int bs m)
  then show ?case using skip_loop_flat [OF assms value_bytes_group_body.v_int [OF v_int.hyps]] by simp
next
  case (v_fixed64 bs)
  then show ?case using skip_loop_flat [OF assms value_bytes_group_body.v_fixed64 [OF v_fixed64.hyps]] by simp
next
  case (v_bytes l m bs)
  show ?case using skip_loop_flat [OF assms value_bytes_group_body.v_bytes [OF v_bytes.hyps] _ v_bytes.prems, of "Suc k"] by simp
next
  case (v_fixed32 bs)
  then show ?case using skip_loop_flat [OF assms value_bytes_group_body.v_fixed32 [OF v_fixed32.hyps]] by simp
qed

lemma skip_accepts:
  assumes "fits_int (length d)" "vint t n" "n mod 8 = wire_type v" "value_bytes v bs" "drop i d = t @ bs @ rest"
  shows "skip_loop d i 0 = Inr (i + length (t @ bs))"
proof (cases "v = VGroup")
  case True
  have i: "i < length d" using drop_vint_within [OF assms(2,5)] .
  have le: "i + length t \<le> length d" using within [OF assms(5)] i by simp
  have "group_body bs" using assms(4) True by (auto elim: value_bytes.cases)
  from skip_loop_value(2) [OF assms(1) this drop_appendD [OF assms(5)] le, of 0]
  show ?thesis
    using skip_loop_turn [OF skip_step_group(1) [OF assms(2,5)] i] True assms(1,3) le by (simp add: fits_int_def add.assoc)
next
  case False
  from skip_loop_flat [OF assms(1,4) False assms(2,3,5), of 0] show ?thesis by simp
qed

text \<open>The turns of the loop of \<^verbatim>\<open>skip\<close>: a value that is no group, or the start or the end of a group.\<close>

definition flat_at :: "bytes \<Rightarrow> nat \<Rightarrow> nat \<Rightarrow> bool" where
  "flat_at d i j \<longleftrightarrow> (\<exists>t n v bs. vint t n \<and> n mod 8 = wire_type v \<and> v \<noteq> VGroup \<and> value_bytes v bs \<and>
     drop i d = t @ bs @ drop j d \<and> j = i + length (t @ bs))"

definition mark_at :: "nat \<Rightarrow> bytes \<Rightarrow> nat \<Rightarrow> nat \<Rightarrow> bool" where
  "mark_at w d i j \<longleftrightarrow> (\<exists>t n. vint t n \<and> n mod 8 = w \<and> drop i d = t @ drop j d \<and> j = i + length t)"

lemma take_drop_at: "i1 + k \<le> length d \<Longrightarrow> drop i1 d = take k (drop i1 d) @ drop (i1 + k) d \<and> length (take k (drop i1 d)) = k"
  using append_take_drop_id [of k "drop i1 d"] by (simp add: add.commute)

lemma flat_atI:
  assumes "vint t n" "drop i d = t @ drop i1 d" "i1 = i + length t" "n mod 8 = wire_type v" "v \<noteq> VGroup" "value_bytes v bs"
    "drop i1 d = bs @ drop j d" "j = i1 + length bs"
  shows "flat_at d i j"
  using assms unfolding flat_at_def by (intro exI [of _ t] exI [of _ n] exI [of _ v] exI [of _ bs]) simp

lemma skip_step_inv:
  assumes "skip_step d i depth = Inr (j, depth')" "j \<le> length d"
  shows "flat_at d i j \<and> depth' = depth \<or> mark_at 3 d i j \<and> depth' = Suc depth \<or> mark_at 4 d i j \<and> depth = Suc depth'"
proof -
  obtain wire i1 where w: "decodeVarint d i 0 (0 :: uint64) = Inr (wire, i1)"
    using assms(1) by (auto simp: skip_step_def split: sum.splits)
  then obtain t n where t: "vint t n" "drop i d = t @ drop i1 d" "i1 = i + length t" "wire = of_nat n" unfolding decodeVarint_iff by blast
  have wt: "unat (wire AND 7) = n mod 8" using t(4) by (simp add: tag_fields)
  note step = assms(1) [unfolded skip_step_def w sum.case prod.case Let_def wt]
  note flat = flat_atI [OF t(1-3)]
  have "n mod 8 = 0 \<or> n mod 8 = 1 \<or> n mod 8 = 2 \<or> n mod 8 = 3 \<or> n mod 8 = 4 \<or> n mod 8 = 5 \<or> 5 < n mod 8" by presburger
  then show ?thesis
  proof (elim disjE)
    assume c: "n mod 8 = 0"
    then have "skipVarint d i1 0 = Inr j" "depth' = depth" using step by (auto split: sum.splits)
    then show ?thesis unfolding skipVarint_iff using flat [of "VInt _"] c by (auto intro: value_bytes_group_body.v_int)
  next
    assume c: "n mod 8 = 1"
    then have "j = i1 + 8" "depth' = depth" using step by auto
    then show ?thesis
      using flat [OF _ _ v_fixed64, of "take 8 (drop i1 d)"] c take_drop_at [of i1 8 d] assms(2) by auto
  next
    assume c: "n mod 8 = 2"
    then obtain len i2 where len: "decodeVarint d i1 0 (0 :: int64) = Inr (len, i2)" "\<not> sint len < 0" "j = i2 + unat len" "depth' = depth"
      using step by (auto split: sum.splits if_splits)
    then obtain l m where l: "vint l m" "drop i1 d = l @ drop i2 d" "i2 = i1 + length l" "len = of_nat m" unfolding decodeVarint_iff by blast
    have u: "unat len = m mod 2 ^ 64" using l(4) by (simp add: unat_of_nat take_bit_eq_mod)
    let ?bs = "take (unat len) (drop i2 d)"
    note td = take_drop_at [OF assms(2) [unfolded len(3)]]
    have "value_bytes (VBytes ?bs) (l @ ?bs)"
      using value_bytes_group_body.v_bytes [OF l(1), of ?bs] td len(2) u sint_neg_64 [of len] by simp
    from flat [OF _ _ this, of j] show ?thesis using c len(3,4) l(2,3) td by auto
  next
    assume c: "n mod 8 = 3"
    then show ?thesis using step t by (auto simp: mark_at_def)
  next
    assume c: "n mod 8 = 4"
    then show ?thesis using step t by (auto simp: mark_at_def split: if_splits)
  next
    assume c: "n mod 8 = 5"
    then have "j = i1 + 4" "depth' = depth" using step by auto
    then show ?thesis
      using flat [OF _ _ v_fixed32, of "take 4 (drop i1 d)"] c take_drop_at [of i1 4 d] assms(2) by auto
  next
    assume "5 < n mod 8"
    then show ?thesis using step by auto
  qed
qed

text \<open>What a successful skip has passed over: one value at depth 0, the rests of as many groups as are open otherwise.\<close>

definition value_at :: "bytes \<Rightarrow> nat \<Rightarrow> nat \<Rightarrow> bool" where
  "value_at d i j \<longleftrightarrow> (\<exists>t n v bs. vint t n \<and> n mod 8 = wire_type v \<and> value_bytes v bs \<and> drop i d = t @ bs @ drop j d \<and> j = i + length (t @ bs))"

definition groups_at :: "nat \<Rightarrow> bytes \<Rightarrow> nat \<Rightarrow> nat \<Rightarrow> bool" where
  "groups_at k d i j \<longleftrightarrow> (\<exists>gs. length gs = k \<and> list_all group_body gs \<and> drop i d = concat gs @ drop j d \<and> j = i + length (concat gs))"

lemma groups_flat:
  assumes "flat_at d i i1" "groups_at (Suc k) d i1 j"
  shows "groups_at (Suc k) d i j"
proof -
  obtain t n v bs where f: "vint t n" "n mod 8 = wire_type v" "value_bytes v bs" "drop i d = t @ bs @ drop i1 d" "i1 = i + length (t @ bs)"
    using assms(1) unfolding flat_at_def by blast
  obtain g gs where g: "length gs = k" "list_all group_body (g # gs)" "drop i1 d = concat (g # gs) @ drop j d" "j = i1 + length (concat (g # gs))"
    using assms(2) unfolding groups_at_def by (auto simp: length_Suc_conv)
  have "group_body (t @ bs @ g)" using g_item [OF f(1-3)] g(2) by simp
  then show ?thesis
    unfolding groups_at_def using f(4,5) g by (intro exI [of _ "(t @ bs @ g) # gs"]) simp
qed

lemma groups_start:
  assumes "mark_at 3 d i i1" "groups_at (Suc (Suc k)) d i1 j"
  shows "groups_at (Suc k) d i j"
proof -
  obtain t n where f: "vint t n" "n mod 8 = 3" "drop i d = t @ drop i1 d" "i1 = i + length t"
    using assms(1) unfolding mark_at_def by blast
  obtain g h gs where g: "length gs = k" "list_all group_body (g # h # gs)" "drop i1 d = concat (g # h # gs) @ drop j d"
      "j = i1 + length (concat (g # h # gs))"
    using assms(2) unfolding groups_at_def by (auto simp: length_Suc_conv)
  have "group_body (t @ g @ h)" using g_item [OF f(1), of VGroup g h] f(2) g(2) by (simp add: v_group)
  then show ?thesis
    unfolding groups_at_def using f(3,4) g by (intro exI [of _ "(t @ g @ h) # gs"]) simp
qed

lemma value_start:
  assumes "mark_at 3 d i i1" "groups_at (Suc 0) d i1 j"
  shows "value_at d i j"
proof -
  obtain t n where f: "vint t n" "n mod 8 = 3" "drop i d = t @ drop i1 d" "i1 = i + length t"
    using assms(1) unfolding mark_at_def by blast
  obtain g where "group_body g" "drop i1 d = g @ drop j d" "j = i1 + length g"
    using assms(2) unfolding groups_at_def by (auto simp: length_Suc_conv)
  then show ?thesis
    unfolding value_at_def using f by (intro exI [of _ t] exI [of _ n] exI [of _ VGroup] exI [of _ g]) (simp add: v_group)
qed

lemma groups_end:
  assumes "mark_at 4 d i i1"
  shows "groups_at k d i1 j \<Longrightarrow> groups_at (Suc k) d i j" and "groups_at 0 d i1 i1"
proof -
  obtain t n where f: "vint t n" "n mod 8 = 4" "drop i d = t @ drop i1 d" "i1 = i + length t"
    using assms(1) unfolding mark_at_def by blast
  show "groups_at 0 d i1 i1" unfolding groups_at_def by simp
  assume "groups_at k d i1 j"
  then obtain gs where g: "length gs = k" "list_all group_body gs" "drop i1 d = concat gs @ drop j d" "j = i1 + length (concat gs)"
    unfolding groups_at_def by blast
  then show "groups_at (Suc k) d i j"
    unfolding groups_at_def using f g_end [OF f(1,2)] by (intro exI [of _ "t # gs"]) simp
qed

lemma skip_loop_sound:
  assumes "skip_loop d i depth = Inr j" "j \<le> length d"
  shows "if depth = 0 then value_at d i j else groups_at depth d i j"
  using assms
proof (induction d i depth rule: skip_loop.induct)
  case (1 d i depth)
  from "1.prems"(1) obtain i1 depth1 where st: "i < length d" "skip_step d i depth = Inr (i1, depth1)" "\<not> 2 ^ 63 \<le> i1"
    by (auto simp: skip_loop.simps [of d i] split: if_splits sum.splits)
  have nxt: "if depth1 = 0 then j = i1 else skip_loop d i1 depth1 = Inr j"
    using "1.prems"(1) st by (simp add: skip_loop.simps [of d i] split: if_splits)
  then have le: "i1 \<le> length d" using "1.prems"(2) skip_loop_progress [of d i1 depth1 j] by (auto split: if_splits)
  have IH: "groups_at depth1 d i1 j" if "depth1 \<noteq> 0"
    using "1.IH" [OF st(1,2) refl st(3) that] nxt that "1.prems"(2) by simp
  from skip_step_inv [OF st(2) le] show ?case
  proof (elim disjE conjE)
    assume f: "flat_at d i i1" "depth1 = depth"
    then have "value_at d i i1" unfolding flat_at_def value_at_def by blast
    then show ?thesis using f nxt IH groups_flat [OF f(1)] by (cases depth) auto
  next
    assume f: "mark_at 3 d i i1" "depth1 = Suc depth"
    then show ?thesis using IH groups_start [OF f(1)] value_start [OF f(1)] by (cases depth) auto
  next
    assume f: "mark_at 4 d i i1" "depth = Suc depth1"
    then show ?thesis using IH groups_end [OF f(1)] nxt by (cases depth1) auto
  qed
qed

lemma skipUnknown_iff:
  assumes "fits_int (length d)" "i \<le> length d"
  shows "skipUnknown d i = Inr j \<longleftrightarrow> value_at d i j"
proof
  assume "skipUnknown d i = Inr j"
  then obtain k where k: "skip_loop (drop i d) 0 0 = Inr k" "j = i + k" "j \<le> length d"
    by (auto simp: skipUnknown_def skip_def split: sum.splits if_splits)
  with skip_loop_sound [OF k(1)] assms(2) have "value_at (drop i d) 0 k" by auto
  then show "value_at d i j" unfolding value_at_def using k(2) by (simp add: add.commute)
next
  assume "value_at d i j"
  then obtain t n v bs where v: "vint t n" "n mod 8 = wire_type v" "value_bytes v bs" "drop 0 (drop i d) = t @ bs @ drop j d" "j = i + length (t @ bs)"
    unfolding value_at_def by auto
  have f: "fits_int (length (drop i d))" using assms(1) by (simp add: fits_int_def)
  have d: "drop i d = (t @ bs) @ drop j d" using v(4) by simp
  have "j \<le> length d" using within [OF d assms(2)] v(5) by simp
  then show "skipUnknown d i = Inr j"
    using skip_accepts [OF f v(1-4)] v(5) assms(1) by (simp add: skipUnknown_def skip_def fits_int_def)
qed

section \<open>Fields\<close>

definition entry_at :: "bytes \<Rightarrow> nat \<Rightarrow> int \<times> wire_value \<Rightarrow> nat \<Rightarrow> bool" where
  "entry_at d i e j \<longleftrightarrow> (\<exists>t n bs. vint t n \<and> n mod 8 = wire_type (snd e) \<and> 0 < field_number n \<and> fst e = field_number n \<and>
     value_bytes (snd e) bs \<and> drop i d = t @ bs @ drop j d \<and> j = i + length (t @ bs))"

lemma varint_fun: "varint bs n \<Longrightarrow> varint bs m \<Longrightarrow> n = m"
proof (induction bs arbitrary: n m)
  case (Cons b bs)
  then show ?case unfolding varint_Cons by (metis varint_NilE)
qed (auto elim: varint_NilE)

lemma vint_unique:
  assumes "vint t n" "vint t' n'" "drop i d = t @ r" "drop i d = t' @ r'"
  shows "t' = t \<and> n' = n \<and> r' = r"
proof -
  have "length t = length t'"
    using decodeVarint_vint [OF assms(1,3), where 'w = 64] decodeVarint_vint [OF assms(2,4), where 'w = 64] by simp
  then have "t' = t" "r' = r" using assms(3,4) by (metis append_eq_append_conv)+
  then show ?thesis using varint_fun assms(1,2) unfolding vint_def by blast
qed

lemma wire_type_4: "wire_type v \<noteq> 4"
  by (cases v) simp_all

lemma entry_tag: "entry_at d i e j \<Longrightarrow> \<exists>i1. decodeTag d i = Inr (fst e, wire_type (snd e), i1)"
  unfolding entry_at_def decodeTag_iff using wire_type_4 drop_appendD by metis

lemma entry_after_tag:
  assumes "decodeTag d i = Inr (f, w, i1)"
  shows "entry_at d i (f, v) j \<longleftrightarrow> w = wire_type v \<and> (\<exists>bs. value_bytes v bs \<and> drop i1 d = bs @ drop j d \<and> j = i1 + length bs)"
proof -
  obtain t n where t: "vint t n" "drop i d = t @ drop i1 d" "i1 = i + length t" "f = field_number n" "w = n mod 8" "0 < f"
    using assms unfolding decodeTag_iff by blast
  have u: "t' = t \<and> n' = n \<and> r = drop i1 d" if "vint t' n'" "drop i d = t' @ r" for t' n' r
    using vint_unique [OF t(1) that(1) t(2) that(2)] by blast
  show ?thesis (is "?l \<longleftrightarrow> ?r")
  proof
    assume ?l
    then obtain t' n' bs where e: "vint t' n'" "n' mod 8 = wire_type v" "value_bytes v bs" "drop i d = t' @ bs @ drop j d" "j = i + length (t' @ bs)"
      unfolding entry_at_def by auto
    with u [OF e(1,4)] t(3,5) show ?r by (metis add.assoc length_append)
  next
    assume ?r
    then obtain bs where "w = wire_type v" "value_bytes v bs" "drop i1 d = bs @ drop j d" "j = i1 + length bs" by blast
    with t show ?l unfolding entry_at_def by (intro exI [of _ t] exI [of _ n] exI [of _ bs]) simp
  qed
qed

lemma get_varint_iff:
  assumes "decodeTag d i = Inr (f, w, i1)"
  shows "get_varint_field w nm d i1 store = Inr (m', j) \<longleftrightarrow> (\<exists>n. entry_at d i (f, VInt n) j \<and> m' = store (of_nat n))"
proof -
  have "get_varint_field w nm d i1 store = Inr (m', j) \<longleftrightarrow> w = 0 \<and> (\<exists>u. decodeVarint d i1 0 0 = Inr (u, j) \<and> m' = store u)"
    by (auto simp: get_varint_field_def split: sum.splits)
  then show ?thesis unfolding entry_after_tag [OF assms] value_bytes_simps decodeVarint_iff by auto
qed

lemma get_bytes_iff:
  assumes "decodeTag d i = Inr (f, w, i1)" "fits_int (length d)"
  shows "get_bytes_field w nm d i1 store = Inr (m', j) \<longleftrightarrow> (\<exists>bs. entry_at d i (f, VBytes bs) j \<and> m' = store bs)"
proof -
  have "get_bytes_field w nm d i1 store = Inr (m', j) \<longleftrightarrow> w = 2 \<and> (\<exists>u. decodeBytes d i1 = Inr (u, j) \<and> m' = store u)"
    by (auto simp: get_bytes_field_def split: sum.splits)
  moreover have "entry_at d i (f, VBytes bs) j \<longleftrightarrow> w = 2 \<and> decodeBytes d i1 = Inr (bs, j)" for bs
  proof -
    have v: "value_bytes (VBytes bs) y \<longleftrightarrow> (\<exists>l n. y = l @ bs \<and> vint l n \<and> n mod 2 ^ 64 < 2 ^ 63 \<and> length bs = n mod 2 ^ 64)" for y
      by (simp add: value_bytes_simps)
    have "(\<exists>y. (\<exists>l n. y = l @ bs \<and> P l n) \<and> drop i1 d = y @ drop j d \<and> j = i1 + length y) \<longleftrightarrow>
        (\<exists>l n. P l n \<and> drop i1 d = l @ bs @ drop j d \<and> j = i1 + length (l @ bs))" for P :: "bytes \<Rightarrow> nat \<Rightarrow> bool"
      by auto
    from this [of "\<lambda>l n. vint l n \<and> n mod 2 ^ 64 < 2 ^ 63 \<and> length bs = n mod 2 ^ 64"] show ?thesis
      unfolding entry_after_tag [OF assms(1)] decodeBytes_iff [OF assms(2)] wire_type.simps v by (simp only: conj_assoc)
  qed
  ultimately show ?thesis by blast
qed

lemma get_unknown_iff:
  assumes "decodeTag d i = Inr (f, w, i1)" "fits_int (length d)" "i < length d"
  shows "get_unknown_field d i m = Inr (m', j) \<longleftrightarrow> m' = m \<and> (\<exists>v. entry_at d i (f, v) j)"
proof -
  obtain t n where t: "vint t n" "drop i d = t @ drop i1 d" "i1 = i + length t" "f = field_number n" "w = n mod 8" "0 < f"
    using assms(1) unfolding decodeTag_iff by blast
  have "value_at d i j \<longleftrightarrow> (\<exists>v. entry_at d i (f, v) j)"
  proof
    assume "value_at d i j"
    then obtain t' n' v bs where v: "vint t' n'" "n' mod 8 = wire_type v" "value_bytes v bs" "drop i d = t' @ bs @ drop j d" "j = i + length (t' @ bs)"
      unfolding value_at_def by blast
    then have "n' = n" using vint_unique [OF t(1) v(1) t(2)] by blast
    then show "\<exists>v. entry_at d i (f, v) j" unfolding entry_at_def using v t(4,6) by auto
  next
    assume "\<exists>v. entry_at d i (f, v) j"
    then show "value_at d i j" unfolding entry_at_def value_at_def by auto
  qed
  then have "skipUnknown d i = Inr j \<longleftrightarrow> (\<exists>v. entry_at d i (f, v) j)"
    using skipUnknown_iff [OF assms(2)] assms(3) by simp
  then show ?thesis by (auto simp: get_unknown_field_def split: sum.splits)
qed

section \<open>Messages\<close>

text \<open>
  A message type with its schema: one turn of its loop reads a well-typed entry and stores it. What the whole loop does is derived
  from this once.
\<close>

locale typed_message = proto_message field loop
  for field :: "bytes \<Rightarrow> nat \<Rightarrow> 'm \<Rightarrow> proto_error + ('m \<times> nat)" and loop :: "bytes \<Rightarrow> nat \<Rightarrow> 'm \<Rightarrow> proto_error + 'm" +
  fixes S :: schema and store :: "int \<times> wire_value \<Rightarrow> 'm \<Rightarrow> 'm"
  assumes field_iff: "fits_int (length d) \<Longrightarrow> i < length d \<Longrightarrow>
    field d i m = Inr (m', j) \<longleftrightarrow> (\<exists>e. entry_at d i e j \<and> typed S e \<and> m' = store e m)"
begin

lemma loop_iff:
  assumes "fits_int (length d)" "i \<le> length d"
  shows "loop d i m = Inr m' \<longleftrightarrow> (\<exists>es. message_wire (drop i d) es \<and> list_all (typed S) es \<and> m' = fold store es m)"
  using assms(2)
proof (induction "length d - i" arbitrary: i m rule: less_induct)
  case less
  show ?case
  proof (cases "i = length d")
    case True
    then have "loop d i m = Inr m" using loop_end by simp
    moreover have "message_wire [] es \<longleftrightarrow> es = []" for es
      by (subst message_wire.simps) (auto dest: vint_not_Nil)
    ultimately show ?thesis using True by auto
  next
    case False
    then have i: "i < length d" using less.prems by simp
    show ?thesis
    proof
      assume l: "loop d i m = Inr m'"
      obtain m1 j where f: "field d i m = Inr (m1, j)"
        using l loop_error [OF i, of m] by (cases "field d i m") auto
      then have j: "i < j" "j \<le> length d" using field_progress by blast+
      from f obtain e where e: "entry_at d i e j" "typed S e" "m1 = store e m" using field_iff [OF assms(1) i] by blast
      have "loop d j m1 = Inr m'" using l loop_step [OF i f] by simp
      then obtain es where es: "message_wire (drop j d) es" "list_all (typed S) es" "m' = fold store es m1"
        using less.hyps [of j] j by auto
      have "message_wire (drop i d) (e # es)"
        using e(1) m_field [OF _ _ _ _ es(1)] unfolding entry_at_def by (metis prod.collapse)
      then show "\<exists>es. message_wire (drop i d) es \<and> list_all (typed S) es \<and> m' = fold store es m"
        using e es by (intro exI [of _ "e # es"]) simp
    next
      assume "\<exists>es. message_wire (drop i d) es \<and> list_all (typed S) es \<and> m' = fold store es m"
      then obtain es where es: "message_wire (drop i d) es" "list_all (typed S) es" "m' = fold store es m" by blast
      from es(1) i obtain t n v bs r es' where w: "drop i d = t @ bs @ r" "es = (field_number n, v) # es'" "vint t n" "n mod 8 = wire_type v"
        "0 < field_number n" "value_bytes v bs" "message_wire r es'" by (cases rule: message_wire.cases) auto
      let ?j = "i + length (t @ bs)" and ?e = "(field_number n, v)"
      have d: "drop i d = (t @ bs) @ r" using w(1) by simp
      have r: "r = drop ?j d" using drop_appendD [OF d] by simp
      have j: "i < ?j" "?j \<le> length d" using vint_not_Nil [OF w(3)] within [OF d] i by auto
      have "entry_at d i ?e ?j" unfolding entry_at_def using w r by auto
      then have "field d i m = Inr (store ?e m, ?j)" using field_iff [OF assms(1) i] es(2) w(2) by auto
      then have "loop d i m = loop d ?j (store ?e m)" using loop_step [OF i] by blast
      moreover have "loop d ?j (store ?e m) = Inr m'"
      proof (rule iffD2 [OF less.hyps], goal_cases)
        case 3
        show ?case using w(2,7) es(2,3) r by (intro exI [of _ es']) simp
      qed (use j in linarith)+
      ultimately show "loop d i m = Inr m'" by simp
    qed
  qed
qed

lemma unmarshal_iff:
  "fits_int (length d) \<Longrightarrow> loop d 0 m = Inr m' \<longleftrightarrow> (\<exists>es. message_wire d es \<and> list_all (typed S) es \<and> m' = fold store es m)"
  using loop_iff [of d 0] by simp

lemma unmarshal_append:
  assumes "fits_int (length (d @ d'))" "loop d 0 m = Inr m1" "loop d' 0 m1 = Inr m2"
  shows "loop (d @ d') 0 m = Inr m2"
proof -
  have fits: "fits_int (length d)" "fits_int (length d')" using assms(1) by (simp_all add: fits_int_def)
  obtain es es' where e: "message_wire d es" "list_all (typed S) es" "m1 = fold store es m"
      "message_wire d' es'" "list_all (typed S) es'" "m2 = fold store es' m1"
    using assms(2,3) unfolding unmarshal_iff [OF fits(1)] unmarshal_iff [OF fits(2)] by blast
  have "message_wire (d @ d') (es @ es')"
    using e(1,4) by (induction d es rule: message_wire.induct) (auto dest: m_field)
  then show ?thesis unfolding unmarshal_iff [OF assms(1)] using e by (intro exI [of _ "es @ es'"]) simp
qed

end

section \<open>The messages of the repository\<close>

definition topic_schema :: schema where
  "topic_schema = [1 \<mapsto> 0, 2 \<mapsto> 2, 3 \<mapsto> 0, 4 \<mapsto> 2, 5 \<mapsto> 2]"

definition ws_schema :: schema where
  "ws_schema = [1 \<mapsto> 0, 2 \<mapsto> 0, 3 \<mapsto> 0, 4 \<mapsto> 2, 5 \<mapsto> 2, 6 \<mapsto> 0]"

definition shard_schema :: schema where
  "shard_schema = [1 \<mapsto> 2]"

fun int_of :: "wire_value \<Rightarrow> nat" where
  "int_of (VInt n) = n"
| "int_of _ = 0"

fun bytes_of :: "wire_value \<Rightarrow> bytes" where
  "bytes_of (VBytes bs) = bs"
| "bytes_of _ = []"

definition topic_store :: "int \<times> wire_value \<Rightarrow> TopicMessage \<Rightarrow> TopicMessage" where
  "topic_store e m = (case e of (f, v) \<Rightarrow>
     if f = 1 then m\<lparr>tm_Version := of_nat (int_of v)\<rparr>
     else if f = 2 then m\<lparr>tm_Payload := bytes_of v\<rparr>
     else if f = 3 then m\<lparr>tm_Timestamp := of_nat (int_of v)\<rparr>
     else if f = 4 then m\<lparr>tm_Pk := bytes_of v\<rparr>
     else if f = 5 then m\<lparr>tm_SignatureOnPid := bytes_of v\<rparr>
     else m)"

definition ws_store :: "int \<times> wire_value \<Rightarrow> WsMessage \<Rightarrow> WsMessage" where
  "ws_store e m = (case e of (f, v) \<Rightarrow>
     if f = 1 then m\<lparr>wm_WithAcknowledge := ((of_nat (int_of v) :: int64) \<noteq> 0)\<rparr>
     else if f = 2 then m\<lparr>wm_Counter := of_nat (int_of v)\<rparr>
     else if f = 3 then m\<lparr>wm_Type := of_nat (int_of v)\<rparr>
     else if f = 4 then m\<lparr>wm_Payload := bytes_of v\<rparr>
     else if f = 5 then m\<lparr>wm_Topic := string_of_bytes (bytes_of v)\<rparr>
     else if f = 6 then m\<lparr>wm_Version := of_nat (int_of v)\<rparr>
     else m)"

definition shard_store :: "int \<times> wire_value \<Rightarrow> PeerShard \<Rightarrow> PeerShard" where
  "shard_store e m = (if fst e = 1 then m\<lparr>ps_ShardId := string_of_bytes (bytes_of (snd e))\<rparr> else m)"

lemma typed_int: "wire_type v = 0 \<longleftrightarrow> (\<exists>n. v = VInt n)" and typed_bytes: "wire_type v = 2 \<longleftrightarrow> (\<exists>bs. v = VBytes bs)"
  by (cases v; simp)+

text \<open>The entries with a given tag, by the wire type that the schema asks for.\<close>

lemma entries:
  assumes "decodeTag d i = Inr (f, w, i1)"
  shows "(\<exists>e. entry_at d i e j \<and> P e) \<longleftrightarrow> (\<exists>v. entry_at d i (f, v) j \<and> P (f, v))"
proof -
  have "fst e = f" if "entry_at d i e j" for e using entry_tag [OF that] assms by simp
  then show ?thesis by (metis prod.collapse)
qed

lemma no_entry: "decodeTag d i = Inl err \<Longrightarrow> \<not> entry_at d i e j"
  using entry_tag by fastforce

lemma typed_cases:
  "S f = Some 0 \<Longrightarrow> (\<exists>v. entry_at d i (f, v) j \<and> typed S (f, v) \<and> P v) \<longleftrightarrow> (\<exists>n. entry_at d i (f, VInt n) j \<and> P (VInt n))"
  "S f = Some 2 \<Longrightarrow> (\<exists>v. entry_at d i (f, v) j \<and> typed S (f, v) \<and> P v) \<longleftrightarrow> (\<exists>bs. entry_at d i (f, VBytes bs) j \<and> P (VBytes bs))"
  "S f = None \<Longrightarrow> (\<exists>v. entry_at d i (f, v) j \<and> typed S (f, v) \<and> P v) \<longleftrightarrow> (\<exists>v. entry_at d i (f, v) j \<and> P v)"
  by (auto simp: typed_def typed_int typed_bytes)

lemma field_decoded:
  assumes "\<And>err. decodeTag d i = Inl err \<Longrightarrow> fld = Inl err"
    and "\<And>f w i1. decodeTag d i = Inr (f, w, i1) \<Longrightarrow>
      fld = Inr (m', j) \<longleftrightarrow> (\<exists>v. entry_at d i (f, v) j \<and> typed S (f, v) \<and> m' = store (f, v) m)"
  shows "fld = Inr (m', j) \<longleftrightarrow> (\<exists>e. entry_at d i e j \<and> typed S e \<and> m' = store e m)"
proof (cases "decodeTag d i")
  case (Inl err)
  then show ?thesis using assms(1) no_entry by auto
next
  case (Inr r)
  obtain f w i1 where r: "r = (f, w, i1)" by (cases r)
  show ?thesis
    using assms(2) [OF Inr [unfolded r]] entries [OF Inr [unfolded r], of j "\<lambda>e. typed S e \<and> m' = store e m"] by simp
qed

interpretation topic_typed: typed_message TopicMessage_field TopicMessage_loop topic_schema topic_store
proof (unfold_locales, rule field_decoded, goal_cases)
  case (2 d i m m' j f w i1)
  note t = get_varint_iff [OF 2(3)] get_bytes_iff [OF 2(3,1)] get_unknown_iff [OF 2(3,1,2)]
  consider "f = 1" | "f = 2" | "f = 3" | "f = 4" | "f = 5" | "topic_schema f = None" "f \<notin> {1, 2, 3, 4, 5}"
    by (auto simp: topic_schema_def)
  then show ?case
    by cases (simp_all add: TopicMessage_field_def 2(3) t typed_cases topic_schema_def topic_store_def, blast)
qed (simp add: TopicMessage_field_def)

interpretation ws_typed: typed_message WsMessage_field WsMessage_loop ws_schema ws_store
proof (unfold_locales, rule field_decoded, goal_cases)
  case (2 d i m m' j f w i1)
  note t = get_varint_iff [OF 2(3)] get_bytes_iff [OF 2(3,1)] get_unknown_iff [OF 2(3,1,2)]
  consider "f = 1" | "f = 2" | "f = 3" | "f = 4" | "f = 5" | "f = 6" | "ws_schema f = None" "f \<notin> {1, 2, 3, 4, 5, 6}"
    by (auto simp: ws_schema_def)
  then show ?case
    by cases (simp_all add: WsMessage_field_def 2(3) t typed_cases ws_schema_def ws_store_def, blast)
qed (simp add: WsMessage_field_def)

interpretation shard_typed: typed_message PeerShard_field PeerShard_loop shard_schema shard_store
proof (unfold_locales, rule field_decoded, goal_cases)
  case (2 d i m m' j f w i1)
  note t = get_bytes_iff [OF 2(3,1)] get_unknown_iff [OF 2(3,1,2)]
  consider "f = 1" | "shard_schema f = None" "f \<noteq> 1" by (auto simp: shard_schema_def)
  then show ?case
    by cases (simp_all add: PeerShard_field_def 2(3) t typed_cases shard_schema_def shard_store_def, blast)
qed (simp add: PeerShard_field_def)

text \<open>
  C14. What \<^verbatim>\<open>Unmarshal\<close> accepts and computes, for the three messages and any bytes that fit in memory: it succeeds exactly when the bytes are a sequence of fields in
  the wire format, with integers of at most ten bytes and balanced groups, in which every field that the message knows has the wire type of its declaration; and
  the result is the given message with the fields stored in their order, so that the last value of a field counts and
  unknown fields are passed over.
\<close>

theorem unmarshal_typed:
  assumes "fits_int (length d)"
  shows "(TopicMessage_Unmarshal d tm = Inr tm' \<longleftrightarrow>
      (\<exists>es. message_wire d es \<and> list_all (typed topic_schema) es \<and> tm' = fold topic_store es tm)) \<and>
    (WsMessage_Unmarshal d wm = Inr wm' \<longleftrightarrow>
      (\<exists>es. message_wire d es \<and> list_all (typed ws_schema) es \<and> wm' = fold ws_store es wm)) \<and>
    (PeerShard_Unmarshal d ps = Inr ps' \<longleftrightarrow>
      (\<exists>es. message_wire d es \<and> list_all (typed shard_schema) es \<and> ps' = fold shard_store es ps))"
  unfolding TopicMessage_Unmarshal_def WsMessage_Unmarshal_def PeerShard_Unmarshal_def
  using topic_typed.unmarshal_iff [OF assms] ws_typed.unmarshal_iff [OF assms] shard_typed.unmarshal_iff [OF assms] by blast

text \<open>A version, then an unknown group with an integer in it, then the version again.\<close>

definition example_wire :: bytes where
  "example_wire = [8, 1, 83, 8, 5, 84, 8, 2]"

lemma vint_byte: "b < 128 \<Longrightarrow> vint [b] (unat b)"
  by (simp add: vint_def varint.last_byte)

lemma example_wire_parsed: "message_wire example_wire [(1, VInt 1), (10, VGroup), (1, VInt 2)]"
proof -
  have v: "vint [8] 8" "vint [1] 1" "vint [83] 83" "vint [5] 5" "vint [84] 84" "vint [2] 2"
    using vint_byte [of 8] vint_byte [of 1] vint_byte [of 83] vint_byte [of 5] vint_byte [of 84] vint_byte [of 2] by simp_all
  have n: "field_number 8 = 1" "field_number 83 = 10" by (simp_all add: field_number_def)
  have g: "group_body ([8] @ [5] @ [84])" by (rule g_item [OF v(1) _ v_int [OF v(4)] g_end [OF v(5)]]) simp_all
  have 3: "message_wire ([8] @ [2] @ []) [(field_number 8, VInt 2)]"
    by (rule m_field [OF v(1) _ _ v_int [OF v(6)] m_end]) (simp_all add: n)
  have 2: "message_wire ([83] @ ([8] @ [5] @ [84]) @ [8] @ [2] @ []) [(field_number 83, VGroup), (field_number 8, VInt 2)]"
    by (rule m_field [OF v(3) _ _ v_group [OF g] 3]) (simp_all add: n)
  have 1: "message_wire ([8] @ [1] @ [83] @ ([8] @ [5] @ [84]) @ [8] @ [2] @ [])
      [(field_number 8, VInt 1), (field_number 83, VGroup), (field_number 8, VInt 2)]"
    by (rule m_field [OF v(1) _ _ v_int [OF v(2)] 2]) (simp_all add: n)
  then show ?thesis by (simp add: example_wire_def n)
qed

theorem unmarshal_typed_witness:
  "TopicMessage_Unmarshal example_wire TopicMessage_zero = Inr (TopicMessage_zero\<lparr>tm_Version := 2\<rparr>)"
proof -
  have "fits_int (length example_wire)" by (simp add: fits_int_def example_wire_def)
  from unmarshal_typed [OF this, of TopicMessage_zero "TopicMessage_zero\<lparr>tm_Version := 2\<rparr>"] show ?thesis
    using example_wire_parsed
    by (auto simp: typed_def topic_schema_def topic_store_def intro!: exI [of _ "[(1, VInt 1), (10, VGroup), (1, VInt 2)]"])
qed

end
