(* ===== verification/Ws_Listening.thy ===== *)
theory Ws_Listening
  imports Ws_Handlers
begin

text \<open>
  The goroutines that listen on a websocket connection, down to the retries of an acknowledge: those of \<^verbatim>\<open>start\<close> in
  \<^verbatim>\<open>websocket/client/client.go\<close>, and in \<^verbatim>\<open>websocket/server/server.go\<close> one for each client, from the request that
  \<^verbatim>\<open>initializeServer\<close> serves to the removal from \<^verbatim>\<open>transceiversAndConnHolder.go\<close>, with \<^verbatim>\<open>Close\<close> running beside them.

  A connection of the library that has failed once fails from then on; any connection may fail at any time. \<^verbatim>\<open>Shutdown\<close> of the http server
  stops the accepting of connections and does not wait for those that were upgraded, as its documentation says.
\<close>

section \<open>The listening goroutine\<close>

text \<open>In \<^verbatim>\<open>ReadMessage\<close>; about to write an acknowledge; in the select after a write that failed; \<^verbatim>\<open>Listen\<close> returned.\<close>

datatype listen_pc = AtRead | AtWrite bytes | AtSelect bytes | AtReturn bool

record 'c listener =
  ls_pc :: listen_pc
  ls_transceiver :: wsTransceiver
  ls_closing :: bool
  ls_conn :: "'c wsConnClient"
  ls_broken :: "'c set"

definition conn_write :: "'c set \<Rightarrow> 'c \<Rightarrow> bytes \<Rightarrow> string option" where
  "conn_write broken conn d = (if conn \<in> broken then Some ''broken pipe'' else None)"

definition after_message :: "received \<Rightarrow> listen_pc" where
  "after_message r = (case r_ack r of None \<Rightarrow> AtRead | Some d \<Rightarrow> AtWrite d)"

inductive listen_step ::
    "converter_ops \<Rightarrow> (bytes \<Rightarrow> string \<Rightarrow> uint32 \<Rightarrow> string option) \<Rightarrow> 'c listener \<Rightarrow> 'c listener \<Rightarrow> bool"
  for C :: converter_ops and handler :: "bytes \<Rightarrow> string \<Rightarrow> uint32 \<Rightarrow> string option" where
  message_read: "ls_pc l = AtRead \<Longrightarrow> wsc_conn (ls_conn l) = Some conn \<Longrightarrow> conn \<notin> ls_broken l \<Longrightarrow>
    verifyPayloadAndSendAckIfNeeded C handler (ls_transceiver l) message = Some (r, wt) \<Longrightarrow>
    listen_step C handler l (l\<lparr>ls_pc := after_message r, ls_transceiver := wt\<rparr>)"
| read_failed: "ls_pc l = AtRead \<Longrightarrow> listen_step C handler l (l\<lparr>ls_pc := AtReturn (\<not> ls_closing l)\<rparr>)"
| ack_written: "ls_pc l = AtWrite d \<Longrightarrow> WriteMessage (conn_write (ls_broken l)) (ls_conn l) d = None \<Longrightarrow>
    listen_step C handler l (l\<lparr>ls_pc := AtRead\<rparr>)"
| ack_failed: "ls_pc l = AtWrite d \<Longrightarrow> WriteMessage (conn_write (ls_broken l)) (ls_conn l) d \<noteq> None \<Longrightarrow>
    listen_step C handler l (l\<lparr>ls_pc := AtSelect d\<rparr>)"
| timer_fired: "ls_pc l = AtSelect d \<Longrightarrow> listen_step C handler l (l\<lparr>ls_pc := AtWrite d\<rparr>)"
| closed_meanwhile: "ls_pc l = AtSelect d \<Longrightarrow> ls_closing l \<Longrightarrow> listen_step C handler l (l\<lparr>ls_pc := AtRead\<rparr>)"
| breaks: "listen_step C handler l (l\<lparr>ls_broken := insert conn (ls_broken l)\<rparr>)"

inductive_cases listen_stepE: "listen_step C handler l l'"

lemma verify_keeps_inv: "verifyPayloadAndSendAckIfNeeded C handler wt d = Some (r, wt1) \<Longrightarrow> chan_inv wt \<Longrightarrow> chan_inv wt1"
  using verify_chan_inv [of wt C handler d] by auto

lemma listen_step_keeps:
  "listen_step C handler l l' \<Longrightarrow>
   ls_closing l' = ls_closing l \<and> ls_conn l' = ls_conn l \<and> ls_broken l \<subseteq> ls_broken l' \<and>
   (chan_inv (ls_transceiver l) \<longrightarrow> chan_inv (ls_transceiver l'))"
  by (induction rule: listen_step.induct) (auto dest: verify_keeps_inv)

text \<open>An acknowledge that cannot be written holds the goroutine until the transceiver is closed.\<close>

definition acking :: "bytes \<Rightarrow> 'c \<Rightarrow> 'c listener \<Rightarrow> bool" where
  "acking d conn l \<longleftrightarrow> ls_pc l \<in> {AtWrite d, AtSelect d} \<and> wsc_conn (ls_conn l) = Some conn \<and> conn \<in> ls_broken l"

lemma acking_step: "listen_step C handler l l' \<Longrightarrow> acking d conn l \<Longrightarrow> \<not> ls_closing l \<Longrightarrow> acking d conn l'"
  by (erule listen_stepE) (auto simp: acking_def WriteMessage_def conn_write_def)

text \<open>A goroutine whose transceiver was closed, on a connection that is closed or broken, can return from \<^verbatim>\<open>Listen\<close>.\<close>

definition unwritable :: "'c listener \<Rightarrow> bool" where
  "unwritable l \<longleftrightarrow> (\<forall>d. WriteMessage (conn_write (ls_broken l)) (ls_conn l) d \<noteq> None)"

lemma closed_listener_returns:
  assumes "ls_closing l" "unwritable l"
  shows "\<exists>b. (listen_step C handler)\<^sup>*\<^sup>* l (l\<lparr>ls_pc := AtReturn b\<rparr>)"
proof -
  have read: "(listen_step C handler)\<^sup>*\<^sup>* (l\<lparr>ls_pc := AtRead\<rparr>) (l\<lparr>ls_pc := AtReturn (\<not> ls_closing l)\<rparr>)"
    using read_failed [of "l\<lparr>ls_pc := AtRead\<rparr>" C handler] by auto
  have sel: "(listen_step C handler)\<^sup>*\<^sup>* (l\<lparr>ls_pc := AtSelect d\<rparr>) (l\<lparr>ls_pc := AtReturn (\<not> ls_closing l)\<rparr>)" for d
    using closed_meanwhile [of "l\<lparr>ls_pc := AtSelect d\<rparr>" d C handler] assms(1) read
    by (auto intro: converse_rtranclp_into_rtranclp)
  have wr: "(listen_step C handler)\<^sup>*\<^sup>* (l\<lparr>ls_pc := AtWrite d\<rparr>) (l\<lparr>ls_pc := AtReturn (\<not> ls_closing l)\<rparr>)" for d
    using ack_failed [of "l\<lparr>ls_pc := AtWrite d\<rparr>" d C handler] assms(2) sel [of d]
    by (auto simp: unwritable_def intro: converse_rtranclp_into_rtranclp)
  have l: "l\<lparr>ls_pc := ls_pc l\<rparr> = l" by simp
  show ?thesis
  proof (cases "ls_pc l")
    case (AtReturn b)
    then show ?thesis using l by (metis rtranclp.rtrancl_refl)
  qed (use read sel wr l in metis)+
qed

section \<open>The client\<close>

text \<open>
  The client with its listening goroutine: its loop in \<^verbatim>\<open>Listen\<close>, in the select at the end of a turn, returned. The transceiver, its
  closer and the connection of the client are those of the listener.
\<close>

datatype client_loop = InListen listen_pc | AtTimer | LoopReturned

record 'c client_run =
  cr_client :: "'c client"
  cr_loop :: client_loop
  cr_broken :: "'c set"

definition client_listener :: "'c client_run \<Rightarrow> listen_pc \<Rightarrow> 'c listener" where
  "client_listener s pc = \<lparr>ls_pc = pc, ls_transceiver = cl_transceiver (cr_client s), ls_closing = cl_transceiverClosed (cr_client s),
     ls_conn = cl_wsConn (cr_client s), ls_broken = cr_broken s\<rparr>"

definition with_listener :: "'c client_run \<Rightarrow> 'c listener \<Rightarrow> 'c client_run" where
  "with_listener s l = s\<lparr>cr_client := (cr_client s)\<lparr>cl_transceiver := ls_transceiver l\<rparr>, cr_loop := InListen (ls_pc l),
     cr_broken := ls_broken l\<rparr>"

text \<open>The statement after \<^verbatim>\<open>Listen\<close>: the connection is closed when \<^verbatim>\<open>Listen\<close> says so.\<close>

definition listen_returned :: "('c \<Rightarrow> string option) \<Rightarrow> bool \<Rightarrow> 'c client_run \<Rightarrow> 'c client_run" where
  "listen_returned close closed s =
     (let c = cr_client s in
      s\<lparr>cr_client := (if closed then c\<lparr>cl_wsConn := snd (wsc_Close close (cl_wsConn c))\<rparr> else c), cr_loop := AtTimer\<rparr>)"

inductive client_run_step ::
    "converter_ops \<Rightarrow> (bytes \<Rightarrow> string \<Rightarrow> uint32 \<Rightarrow> string option) \<Rightarrow> ('c \<Rightarrow> string option) \<Rightarrow> 'c client_run \<Rightarrow> 'c client_run \<Rightarrow> bool"
  for C :: converter_ops and handler :: "bytes \<Rightarrow> string \<Rightarrow> uint32 \<Rightarrow> string option" and close :: "'c \<Rightarrow> string option" where
  opens: "\<not> cl_closed (cr_client s) \<Longrightarrow> client_run_step C handler close s (s\<lparr>cr_client := openTurn dial (cr_client s)\<rparr>)"
| listens: "cr_loop s = InListen pc \<Longrightarrow> listen_step C handler (client_listener s pc) l \<Longrightarrow>
    client_run_step C handler close s (with_listener s l)"
| returns: "cr_loop s = InListen (AtReturn closed) \<Longrightarrow> client_run_step C handler close s (listen_returned close closed s)"
| again: "cr_loop s = AtTimer \<Longrightarrow> client_run_step C handler close s (s\<lparr>cr_loop := InListen AtRead\<rparr>)"
| ends: "cr_loop s = AtTimer \<Longrightarrow> cl_closed (cr_client s) \<Longrightarrow> client_run_step C handler close s (s\<lparr>cr_loop := LoopReturned\<rparr>)"
| closes: "closeConnection handlerClose close (cr_client s) = (err, c) \<Longrightarrow> client_run_step C handler close s (s\<lparr>cr_client := c\<rparr>)"
| closer: "cl_transceiverClosed (cr_client s) \<Longrightarrow>
    client_run_step C handler close s (s\<lparr>cr_client := (cr_client s)\<lparr>cl_closed := True\<rparr>\<rparr>)"

inductive_cases client_run_stepE: "client_run_step C handler close s s'"

definition client_stuck :: "bytes \<Rightarrow> 'c \<Rightarrow> 'c client_run \<Rightarrow> bool" where
  "client_stuck d conn s \<longleftrightarrow> (\<exists>pc. cr_loop s = InListen pc \<and> acking d conn (client_listener s pc))"

lemma client_stuck_step:
  assumes "client_run_step C handler close s s'" "client_stuck d conn s" "\<not> cl_transceiverClosed (cr_client s')"
  shows "client_stuck d conn s' \<and> \<not> cl_transceiverClosed (cr_client s)"
  using assms(1)
proof (cases rule: client_run_step.cases)
  case (listens pc l)
  have a: "acking d conn (client_listener s pc)" "\<not> ls_closing (client_listener s pc)"
    using assms(2,3) listens(1,2) by (auto simp: client_stuck_def with_listener_def client_listener_def)
  then have "acking d conn l" using acking_step [OF listens(3)] by blast
  moreover have "ls_conn l = cl_wsConn (cr_client s)"
    using listen_step_keeps [OF listens(3)] by (simp add: client_listener_def)
  ultimately show ?thesis
    using a(2) listens(1) by (simp add: client_stuck_def with_listener_def client_listener_def acking_def)
qed (use assms(2,3) in \<open>auto simp: client_stuck_def client_listener_def acking_def openTurn_def OpenConnection_def closeConnection_def
      split: prod.splits\<close>)

lemma client_closing_step:
  "client_run_step C handler close s s' \<Longrightarrow> cl_transceiverClosed (cr_client s) \<Longrightarrow> cl_transceiverClosed (cr_client s')"
  by (erule client_run_stepE) (auto simp: openTurn_def with_listener_def listen_returned_def Let_def closeConnection_def split: prod.splits)

lemma client_stuck_steps:
  assumes "(client_run_step C handler close)\<^sup>*\<^sup>* s s'" "client_stuck d conn s"
  shows "cl_transceiverClosed (cr_client s') \<or> client_stuck d conn s'"
  using assms
proof (induction rule: rtranclp_induct)
  case (step s1 s2)
  then show ?case using client_stuck_step [OF step(2)] client_closing_step [OF step(2)] by blast
qed simp

text \<open>Where the loop is not held by an acknowledge, it comes to its timer with the connection closed.\<close>

lemma rstep: "R s s1 \<Longrightarrow> R\<^sup>*\<^sup>* s1 s2 \<Longrightarrow> R\<^sup>*\<^sup>* s s2"
  by (rule converse_rtranclp_into_rtranclp)

definition same_client :: "'c client_run \<Rightarrow> 'c client_run \<Rightarrow> bool" where
  "same_client s s' \<longleftrightarrow> cl_closed (cr_client s') = cl_closed (cr_client s) \<and>
     cl_transceiverClosed (cr_client s') = cl_transceiverClosed (cr_client s) \<and> cr_broken s' = cr_broken s"

lemma read_drops:
  assumes "cr_loop s = InListen AtRead" "\<not> cl_transceiverClosed (cr_client s)" "\<And>conn. close conn = None"
  shows "\<exists>s1. (client_run_step C handler close)\<^sup>*\<^sup>* s s1 \<and> same_client s s1 \<and> wsc_conn (cl_wsConn (cr_client s1)) = None"
proof -
  let ?l = "client_listener s AtRead" and ?R = "client_run_step C handler close"
  define s1 where "s1 = with_listener s (?l\<lparr>ls_pc := AtReturn True\<rparr>)"
  have "listen_step C handler ?l (?l\<lparr>ls_pc := AtReturn True\<rparr>)"
    using read_failed [of ?l C handler] assms(2) by (simp add: client_listener_def)
  then have "?R s s1" unfolding s1_def by (rule listens [OF assms(1)])
  moreover have "?R s1 (listen_returned close True s1)" by (rule returns) (simp add: s1_def with_listener_def)
  ultimately show ?thesis using assms(3)
    by (intro exI [of _ "listen_returned close True s1"])
      (auto simp: s1_def with_listener_def client_listener_def listen_returned_def same_client_def Let_def wsc_Close_def split: option.split)
qed

lemma comes_to_read:
  assumes "cr_loop s \<noteq> LoopReturned" "\<nexists>d conn. client_stuck d conn s" "wsc_conn (cl_wsConn (cr_client s)) = Some conn"
    "\<not> cl_transceiverClosed (cr_client s)" "\<And>conn. close conn = None"
  shows "\<exists>s1. (client_run_step C handler close)\<^sup>*\<^sup>* s s1 \<and> same_client s s1 \<and> cr_loop s1 = InListen AtRead"
proof -
  let ?R = "client_run_step C handler close"
  have timer: "?R\<^sup>*\<^sup>* s (s1\<lparr>cr_loop := InListen AtRead\<rparr>)" if "?R\<^sup>*\<^sup>* s s1" "cr_loop s1 = AtTimer" for s1
    using rtranclp.rtrancl_into_rtrancl [OF that(1) again [OF that(2)]] .
  have "?R (s\<lparr>cr_loop := InListen (AtWrite d)\<rparr>) (s\<lparr>cr_loop := InListen AtRead\<rparr>)" if "conn \<notin> cr_broken s" for d
  proof -
    let ?s = "s\<lparr>cr_loop := InListen (AtWrite d)\<rparr>"
    have "listen_step C handler (client_listener ?s (AtWrite d)) ((client_listener ?s (AtWrite d))\<lparr>ls_pc := AtRead\<rparr>)"
      by (rule ack_written [of _ d]) (use assms(3) that in \<open>simp_all add: client_listener_def WriteMessage_def conn_write_def\<close>)
    from listens [OF _ this, of close] show ?thesis by (simp add: client_listener_def with_listener_def)
  qed
  then have wr: "?R (s\<lparr>cr_loop := InListen (AtWrite d)\<rparr>) (s\<lparr>cr_loop := InListen AtRead\<rparr>)" if "cr_loop s = InListen (AtWrite d) \<or> cr_loop s = InListen (AtSelect d)" for d
    using assms(2,3) that by (auto simp: client_stuck_def acking_def client_listener_def)
  have same: "same_client s (s\<lparr>cr_loop := x\<rparr>)" for x by (simp add: same_client_def)
  show ?thesis
  proof (cases "cr_loop s")
    case AtTimer
    then show ?thesis using timer [of s] same by auto
  next
    case (InListen pc)
    show ?thesis
    proof (cases pc)
      case (AtWrite d)
      then have "s\<lparr>cr_loop := InListen (AtWrite d)\<rparr> = s" using InListen by simp
      then have "?R s (s\<lparr>cr_loop := InListen AtRead\<rparr>)" using wr [of d] InListen AtWrite by metis
      then show ?thesis using same by (intro exI [of _ "s\<lparr>cr_loop := InListen AtRead\<rparr>"]) simp
    next
      case (AtSelect d)
      have "listen_step C handler (client_listener s pc) ((client_listener s pc)\<lparr>ls_pc := AtWrite d\<rparr>)"
        by (rule timer_fired [of _ d]) (simp add: client_listener_def AtSelect)
      from listens [OF InListen this, of close] have "?R s (s\<lparr>cr_loop := InListen (AtWrite d)\<rparr>)"
        by (simp add: client_listener_def with_listener_def)
      then have "?R\<^sup>*\<^sup>* s (s\<lparr>cr_loop := InListen AtRead\<rparr>)" using wr [of d] InListen AtSelect by (simp add: rstep r_into_rtranclp)
      then show ?thesis using same by (intro exI [of _ "s\<lparr>cr_loop := InListen AtRead\<rparr>"]) simp
    next
      case (AtReturn b)
      have "?R s (listen_returned close b s)" by (rule returns) (simp add: InListen AtReturn)
      then have "?R\<^sup>*\<^sup>* s ((listen_returned close b s)\<lparr>cr_loop := InListen AtRead\<rparr>)"
        by (intro timer) (simp_all add: listen_returned_def Let_def)
      then show ?thesis
        by (intro exI [of _ "(listen_returned close b s)\<lparr>cr_loop := InListen AtRead\<rparr>"])
          (simp add: same_client_def listen_returned_def Let_def)
    qed (use InListen in \<open>auto simp: same_client_def\<close>)
  qed (use assms(1) in simp)
qed


text \<open>And a client comes to that: it reads a message that asks for an acknowledge, and the connection breaks.\<close>

lemma client_gets_stuck:
  assumes "cr_loop s = InListen AtRead" "wsc_conn (cl_wsConn (cr_client s)) = Some conn" "conn \<notin> cr_broken s"
    and "verifyPayloadAndSendAckIfNeeded C handler (cl_transceiver (cr_client s)) message = Some (r, wt)" "r_ack r = Some d"
  shows "\<exists>s1. (client_run_step C handler close)\<^sup>*\<^sup>* s s1 \<and> client_stuck d conn s1 \<and> cl_closed (cr_client s1) = cl_closed (cr_client s) \<and>
    cl_transceiverClosed (cr_client s1) = cl_transceiverClosed (cr_client s) \<and> cr_broken s1 = insert conn (cr_broken s)"
proof -
  let ?l = "client_listener s AtRead" and ?R = "client_run_step C handler close"
  let ?l1 = "?l\<lparr>ls_pc := AtWrite d, ls_transceiver := wt\<rparr>"
  have "listen_step C handler ?l ?l1"
    using message_read [of ?l conn C handler message r wt] assms by (simp add: client_listener_def after_message_def)
  then have 1: "?R s (with_listener s ?l1)" by (rule listens [OF assms(1)])
  let ?s1 = "with_listener s ?l1"
  have 2: "?R ?s1 (with_listener ?s1 ((client_listener ?s1 (AtWrite d))\<lparr>ls_broken := insert conn (cr_broken s)\<rparr>))"
    using breaks [of C handler "client_listener ?s1 (AtWrite d)" conn]
    by (intro listens [of _ "AtWrite d"]) (simp_all add: with_listener_def client_listener_def)
  show ?thesis
    using rstep [of ?R, OF 1 r_into_rtranclp [of ?R, OF 2]]
    by (intro exI [of _ "with_listener ?s1 ((client_listener ?s1 (AtWrite d))\<lparr>ls_broken := insert conn (cr_broken s)\<rparr>)"])
      (simp add: client_stuck_def acking_def with_listener_def client_listener_def assms(2))
qed

definition example_run :: "client_loop \<Rightarrow> nat client_run" where
  "example_run loop = \<lparr>cr_client = example_client, cr_loop = loop, cr_broken = {1}\<rparr>"


section \<open>The server\<close>

definition newTransceiversAndConnHolder :: "'c transceiversAndConnHolder" where
  "newTransceiversAndConnHolder = Map.empty"

text \<open>The copy that \<^verbatim>\<open>getAll\<close> makes has the same transceivers and connections, which are shared.\<close>

definition getAll :: "'c transceiversAndConnHolder \<Rightarrow> 'c transceiversAndConnHolder" where
  "getAll th = th"

definition GetID :: "'c wsConnClient \<Rightarrow> string" where
  "GetID wsc = clientID wsc"

text \<open>What the goroutine of \<^verbatim>\<open>start\<close> logs when \<^verbatim>\<open>ListenAndServe\<close> returns: whether it is an error.\<close>

definition server_start :: "string option \<Rightarrow> bool" where
  "server_start err = (case err of None \<Rightarrow> False | Some e \<Rightarrow> \<not> str_contains e ''http: Server closed'')"

text \<open>
  A request whose connection was upgraded: its handler before \<^verbatim>\<open>NewTransceiver\<close>, the handler gave up, the goroutine is started, it listens, it has removed the
  connection.
\<close>

datatype request_pc = Upgraded | Refused | Spawned | Listening | Unregistered

text \<open>\<^verbatim>\<open>Close\<close>: not called, in \<^verbatim>\<open>Shutdown\<close>, after it, before the transceiver and before the connection of the next client, returned.\<close>

datatype close_pc = NotClosing | ShuttingDown | ShutDown | CloseTransceiver "string list" | CloseConn "string list" | CloseReturned

record 'c serving =
  sg_server :: "'c server"
  sg_requests :: "string \<rightharpoonup> request_pc \<times> 'c listener"
  sg_registered :: "string set"
  sg_close :: close_pc
  sg_snapshot :: "string set"

text \<open>The objects that the map of the server points to.\<close>

definition holder_of :: "'c serving \<Rightarrow> 'c transceiversAndConnHolder" where
  "holder_of s = (\<lambda>i. if i \<in> sg_registered s
     then map_option (\<lambda>(_, l). \<lparr>tc_transceiver = ls_transceiver l, tc_conn = ls_conn l\<rparr>) (sg_requests s i) else None)"

definition new_listener :: "wsTransceiver \<Rightarrow> 'c wsConnClient \<Rightarrow> 'c listener" where
  "new_listener wt conn = \<lparr>ls_pc = AtRead, ls_transceiver = wt, ls_closing = False, ls_conn = conn, ls_broken = {}\<rparr>"

definition server_args :: "'c server \<Rightarrow> ArgsTransceiver" where
  "server_args s = \<lparr>ta_hasPayloadConverter = True, ta_hasLog = True,
     ta_RetryDurationInSec = sv_retryDuration s, ta_AckTimeoutInSec = sv_ackTimeoutInSec s,
     ta_BlockingAckOnError = sv_blockingAckOnError s, ta_WithAcknowledge = sv_withAcknowledge s,
     ta_PayloadVersion = sv_payloadVersion s\<rparr>"

text \<open>The handler of a request after the upgrade: the transceiver, or nothing.\<close>

definition handle_request :: "'c server \<Rightarrow> 'c listener \<Rightarrow> request_pc \<times> 'c listener" where
  "handle_request s l = (case NewTransceiver (server_args s) of Inl _ \<Rightarrow> (Refused, l) | Inr wt \<Rightarrow> (Spawned, new_listener wt (ls_conn l)))"

definition set_request :: "string \<Rightarrow> request_pc \<times> 'c listener \<Rightarrow> 'c serving \<Rightarrow> 'c serving" where
  "set_request i r s = s\<lparr>sg_requests := (sg_requests s)(i \<mapsto> r)\<rparr>"

definition close_conn :: "('c \<Rightarrow> string option) \<Rightarrow> 'c listener \<Rightarrow> 'c listener" where
  "close_conn close l = l\<lparr>ls_conn := snd (wsc_Close close (ls_conn l))\<rparr>"

inductive serve_step ::
    "converter_ops \<Rightarrow> (bytes \<Rightarrow> string \<Rightarrow> uint32 \<Rightarrow> string option) \<Rightarrow> ('c \<Rightarrow> string option) \<Rightarrow> 'c serving \<Rightarrow> 'c serving \<Rightarrow> bool"
  for C :: converter_ops and handler :: "bytes \<Rightarrow> string \<Rightarrow> uint32 \<Rightarrow> string option" and close :: "'c \<Rightarrow> string option" where
  upgrade: "sg_close s \<in> {NotClosing, ShuttingDown} \<Longrightarrow> sg_requests s i = None \<Longrightarrow>
    serve_step C handler close s (set_request i (Upgraded, new_listener wt0 (NewWSConnClientWithConn i ws)) s)"
| handle: "sg_requests s i = Some (Upgraded, l) \<Longrightarrow>
    serve_step C handler close s (set_request i (handle_request (sg_server s) l) s)"
| register: "sg_requests s i = Some (Spawned, l) \<Longrightarrow>
    serve_step C handler close s (set_request i (Listening, l) (s\<lparr>sg_registered := insert (GetID (ls_conn l)) (sg_registered s)\<rparr>))"
| listen: "sg_requests s i = Some (Listening, l) \<Longrightarrow> listen_step C handler l l' \<Longrightarrow>
    serve_step C handler close s (set_request i (Listening, l') s)"
| unregister: "sg_requests s i = Some (Listening, l) \<Longrightarrow> ls_pc l = AtReturn b \<Longrightarrow>
    serve_step C handler close s (set_request i (Unregistered, l) (s\<lparr>sg_registered := sg_registered s - {GetID (ls_conn l)}\<rparr>))"
| close_called: "sg_close s = NotClosing \<Longrightarrow> serve_step C handler close s (s\<lparr>sg_close := ShuttingDown\<rparr>)"
| shutdown_returned: "sg_close s = ShuttingDown \<Longrightarrow> serve_step C handler close s (s\<lparr>sg_close := ShutDown\<rparr>)"
| clients_listed: "sg_close s = ShutDown \<Longrightarrow> distinct order \<Longrightarrow> set order = dom (getAll (holder_of s)) \<Longrightarrow>
    serve_step C handler close s (s\<lparr>sg_close := CloseTransceiver order, sg_snapshot := set order\<rparr>)"
| transceiver_closed: "sg_close s = CloseTransceiver (i # order) \<Longrightarrow> sg_requests s i = Some (pc, l) \<Longrightarrow>
    serve_step C handler close s (set_request i (pc, l\<lparr>ls_closing := True\<rparr>) (s\<lparr>sg_close := CloseConn (i # order)\<rparr>))"
| conn_closed: "sg_close s = CloseConn (i # order) \<Longrightarrow> sg_requests s i = Some (pc, l) \<Longrightarrow>
    serve_step C handler close s (set_request i (pc, close_conn close l) (s\<lparr>sg_close := CloseTransceiver order\<rparr>))"
| close_returned: "sg_close s = CloseTransceiver [] \<Longrightarrow> serve_step C handler close s (s\<lparr>sg_close := CloseReturned\<rparr>)"

inductive_cases serve_stepE: "serve_step C handler close s s'"

definition serving_init :: "'c server \<Rightarrow> 'c serving" where
  "serving_init s = \<lparr>sg_server = s, sg_requests = Map.empty, sg_registered = {}, sg_close = NotClosing, sg_snapshot = {}\<rparr>"

text \<open>
  The invariant: the map has exactly the clients whose goroutines listen, under the ids of their connections; a transceiver is closed only for clients in the list that
  \<^verbatim>\<open>Close\<close> works on; those it has passed have their transceiver and their connection closed.
\<close>

definition to_visit :: "close_pc \<Rightarrow> string set" where
  "to_visit p = (case p of CloseTransceiver is \<Rightarrow> set is | CloseConn is \<Rightarrow> set is | _ \<Rightarrow> {})"

definition visited :: "'c serving \<Rightarrow> string set" where
  "visited s = (case sg_close s of CloseReturned \<Rightarrow> sg_snapshot s
     | CloseTransceiver is \<Rightarrow> sg_snapshot s - set is | CloseConn is \<Rightarrow> sg_snapshot s - set is | _ \<Rightarrow> {})"

definition request_ok :: "'c serving \<Rightarrow> string \<Rightarrow> request_pc \<times> 'c listener \<Rightarrow> bool" where
  "request_ok s i r = (case r of (pc, l) \<Rightarrow> clientID (ls_conn l) = i \<and>
     (i \<in> sg_registered s \<longleftrightarrow> pc = Listening) \<and>
     (pc \<in> {Spawned, Listening, Unregistered} \<longrightarrow> chan_inv (ls_transceiver l)) \<and>
     (i \<in> sg_snapshot s \<longrightarrow> pc \<in> {Listening, Unregistered}) \<and>
     (i \<notin> sg_snapshot s \<longrightarrow> \<not> ls_closing l \<and> IsOpen (ls_conn l)) \<and>
     (i \<in> visited s \<longrightarrow> ls_closing l \<and> \<not> IsOpen (ls_conn l)))"

definition serving_inv :: "'c serving \<Rightarrow> bool" where
  "serving_inv s \<longleftrightarrow> finite (dom (sg_requests s)) \<and> sg_registered s \<subseteq> dom (sg_requests s) \<and> sg_snapshot s \<subseteq> dom (sg_requests s) \<and>
     (\<forall>i r. sg_requests s i = Some r \<longrightarrow> request_ok s i r) \<and>
     to_visit (sg_close s) \<subseteq> sg_snapshot s \<and>
     (case sg_close s of CloseTransceiver is \<Rightarrow> distinct is
      | CloseConn is \<Rightarrow> distinct is \<and> is \<noteq> [] \<and> (case sg_requests s (hd is) of None \<Rightarrow> False | Some (_, l) \<Rightarrow> ls_closing l)
      | CloseReturned \<Rightarrow> True | _ \<Rightarrow> sg_snapshot s = {})"

lemma visited_frame [simp]:
  "visited (set_request i r s) = visited s" "visited (s\<lparr>sg_registered := R\<rparr>) = visited s"
  by (auto simp: visited_def set_request_def split: close_pc.split)

lemma set_request_fields [simp]:
  "sg_requests (set_request i r s) = (sg_requests s)(i \<mapsto> r)" "sg_registered (set_request i r s) = sg_registered s"
  "sg_close (set_request i r s) = sg_close s" "sg_snapshot (set_request i r s) = sg_snapshot s" "sg_server (set_request i r s) = sg_server s"
  by (simp_all add: set_request_def)

lemma serving_init_inv: "serving_inv (serving_init s)"
  by (simp add: serving_inv_def serving_init_def to_visit_def)

lemma serving_invD:
  "serving_inv s \<Longrightarrow> sg_requests s i = Some (pc, l) \<Longrightarrow> request_ok s i (pc, l)"
  by (simp add: serving_inv_def)

text \<open>A step that changes one request and at most the registration of that request.\<close>

lemma serving_inv_request:
  assumes "serving_inv s" "sg_requests s i = Some (pc, l)" "request_ok (s\<lparr>sg_registered := R\<rparr>) i (pc', l')"
    and "R - {i} = sg_registered s - {i}" "ls_closing l \<longrightarrow> ls_closing l'"
  shows "serving_inv (set_request i (pc', l') (s\<lparr>sg_registered := R\<rparr>))"
proof -
  let ?s = "set_request i (pc', l') (s\<lparr>sg_registered := R\<rparr>)"
  have mem: "j \<in> R \<longleftrightarrow> j \<in> sg_registered s" if "j \<noteq> i" for j using assms(4) that by blast
  have "request_ok ?s j r" if "sg_requests ?s j = Some r" for j r
  proof (cases "j = i")
    case True
    then show ?thesis using that assms(3) by (auto simp: request_ok_def)
  next
    case False
    then have "request_ok s j r" using that serving_invD [OF assms(1)] by (cases r) simp
    then show ?thesis using mem [OF False] by (auto simp: request_ok_def)
  qed
  moreover have "R \<subseteq> insert i (dom (sg_requests s))" using mem assms(1) unfolding serving_inv_def by blast
  ultimately show ?thesis
    using assms(1,2,5) by (auto simp: serving_inv_def split: close_pc.splits option.splits if_splits)
qed

lemma serving_inv_step:
  assumes "serve_step C handler close s s'" "serving_inv s" and close: "\<And>conn. close conn = None"
  shows "serving_inv s'"
  using assms(1)
proof (cases rule: serve_step.cases)
  case (upgrade i wt0 ws)
  have "sg_snapshot s = {}" "i \<notin> sg_registered s" using assms(2) upgrade by (auto simp: serving_inv_def split: close_pc.splits)
  then show ?thesis using assms(2) upgrade
    by (auto simp: serving_inv_def set_request_def request_ok_def new_listener_def NewWSConnClientWithConn_def IsOpen_def visited_def
        split: close_pc.splits)
next
  case (handle i l)
  note ok = serving_invD [OF assms(2) handle(2)]
  have "request_ok s i (handle_request (sg_server s) l)"
    using ok by (auto simp: request_ok_def handle_request_def new_listener_def NewTransceiver_chan_inv visited_def split: sum.split close_pc.splits)
  moreover have "\<not> ls_closing l" using ok by (simp add: request_ok_def)
  ultimately show ?thesis
    using serving_inv_request [OF assms(2) handle(2), of "sg_registered s"] handle(1)
    by (cases "handle_request (sg_server s) l") simp
next
  case (register i l)
  note ok = serving_invD [OF assms(2) register(2)]
  then have "GetID (ls_conn l) = i" by (simp add: request_ok_def GetID_def)
  then show ?thesis using register(1) ok
    by (simp, intro serving_inv_request [OF assms(2) register(2)]) (auto simp: request_ok_def)
next
  case (listen i l l')
  note ok = serving_invD [OF assms(2) listen(2)]
  have "request_ok s i (Listening, l')" using ok listen_step_keeps [OF listen(3)] by (auto simp: request_ok_def)
  then show ?thesis
    using serving_inv_request [OF assms(2) listen(2), of "sg_registered s"] listen(1) listen_step_keeps [OF listen(3)] by simp
next
  case (unregister i l b)
  note ok = serving_invD [OF assms(2) unregister(2)]
  then have "GetID (ls_conn l) = i" by (simp add: request_ok_def GetID_def)
  then show ?thesis using unregister(1) ok
    by (simp, intro serving_inv_request [OF assms(2) unregister(2)]) (auto simp: request_ok_def)
next
  case (clients_listed order)
  have "set order = sg_registered s"
    using clients_listed(4) assms(2) by (auto simp: getAll_def holder_of_def serving_inv_def split: if_splits)
  then show ?thesis using assms(2) clients_listed(1,2,3)
    by (auto simp: serving_inv_def request_ok_def visited_def to_visit_def)
next
  case (transceiver_closed i order pc l)
  then show ?thesis using assms(2)
    by (auto simp: serving_inv_def request_ok_def visited_def to_visit_def set_request_def)
next
  case (conn_closed i order pc l)
  have "\<not> IsOpen (snd (wsc_Close close (ls_conn l)))" "clientID (snd (wsc_Close close (ls_conn l))) = clientID (ls_conn l)"
    using close by (auto simp: wsc_Close_def IsOpen_def split: option.split)
  then show ?thesis using assms(2) conn_closed
    by (auto simp: serving_inv_def request_ok_def visited_def to_visit_def set_request_def close_conn_def)
qed (use assms(2) in \<open>auto simp: serving_inv_def request_ok_def visited_def to_visit_def\<close>)

lemma serving_steps_inv:
  assumes "(serve_step C handler close)\<^sup>*\<^sup>* s s'" "serving_inv s" "\<And>conn. close conn = None"
  shows "serving_inv s'"
  using assms by (induction rule: rtranclp_induct) (auto intro: serving_inv_step)

lemma holder_frame [simp]: "holder_of (s\<lparr>sg_close := x\<rparr>) = holder_of s"
  by (simp add: holder_of_def fun_eq_iff)

lemma registered_finite: "serving_inv s \<Longrightarrow> finite (sg_registered s)"
  by (auto simp: serving_inv_def intro: finite_subset)

lemma registered_iff:
  assumes "serving_inv s"
  shows "sg_registered s = {i. \<exists>l. sg_requests s i = Some (Listening, l)}"
proof (intro set_eqI iffI)
  fix i assume i: "i \<in> sg_registered s"
  then obtain pc l where "sg_requests s i = Some (pc, l)" using assms by (fastforce simp: serving_inv_def)
  then show "i \<in> {i. \<exists>l. sg_requests s i = Some (Listening, l)}" using serving_invD [OF assms] i by (fastforce simp: request_ok_def)
qed (use serving_invD [OF assms] in \<open>fastforce simp: request_ok_def\<close>)

lemma holder_dom: "serving_inv s \<Longrightarrow> dom (holder_of s) = sg_registered s"
  by (auto simp: holder_of_def serving_inv_def split: if_splits)

lemma holder_clients_inv: "serving_inv s \<Longrightarrow> clients_inv (holder_of s)"
  by (auto simp: clients_inv_def holder_of_def dest!: serving_invD split: if_splits) (auto simp: request_ok_def)

text \<open>The steps that register and remove a client are the operations of the holder.\<close>

lemma holder_register:
  "serving_inv s \<Longrightarrow> sg_requests s i = Some (Spawned, l) \<Longrightarrow>
   holder_of (set_request i (Listening, l) (s\<lparr>sg_registered := insert (GetID (ls_conn l)) (sg_registered s)\<rparr>)) =
   addTransceiverAndConn (holder_of s) (ls_transceiver l) (ls_conn l)"
  using serving_invD [of s i Spawned l] by (fastforce simp: holder_of_def addTransceiverAndConn_def GetID_def request_ok_def)

lemma holder_unregister:
  "serving_inv s \<Longrightarrow> sg_requests s i = Some (Listening, l) \<Longrightarrow>
   holder_of (set_request i (Unregistered, l) (s\<lparr>sg_registered := sg_registered s - {GetID (ls_conn l)}\<rparr>)) =
   th_remove (holder_of s) (GetID (ls_conn l))"
  using serving_invD [of s i Listening l] by (fastforce simp: holder_of_def th_remove_def GetID_def request_ok_def)

text \<open>After \<^verbatim>\<open>Close\<close> the list of its clients does not change.\<close>

lemma snapshot_step:
  "serve_step C handler close s s' \<Longrightarrow> sg_close s = CloseReturned \<Longrightarrow>
   sg_close s' = CloseReturned \<and> sg_snapshot s' = sg_snapshot s \<and> dom (sg_requests s') = dom (sg_requests s)"
  by (erule serve_stepE) (simp_all add: insert_absorb domIff)

lemma snapshot_kept:
  assumes "(serve_step C handler close)\<^sup>*\<^sup>* s s'" "sg_close s = CloseReturned"
  shows "sg_close s' = CloseReturned \<and> sg_snapshot s' = sg_snapshot s \<and> dom (sg_requests s') = dom (sg_requests s)"
  using assms
proof (induction rule: rtranclp_induct)
  case (step s1 s2)
  then show ?case using snapshot_step [OF step(2)] by simp
qed simp

lemma serve_listens:
  assumes "(listen_step C handler)\<^sup>*\<^sup>* l l'" "sg_requests s i = Some (Listening, l)"
  shows "(serve_step C handler close)\<^sup>*\<^sup>* s (set_request i (Listening, l') s)"
  using assms(1)
proof (induction rule: rtranclp_induct)
  case base
  have "(sg_requests s)(i \<mapsto> (Listening, l)) = sg_requests s" using assms(2) by auto
  then have "set_request i (Listening, l) s = s" by (simp add: set_request_def)
  then show ?case by simp
next
  case (step l1 l2)
  have "serve_step C handler close (set_request i (Listening, l1) s) (set_request i (Listening, l2) (set_request i (Listening, l1) s))"
    by (rule listen [OF _ step(2)]) simp
  also have "set_request i (Listening, l2) (set_request i (Listening, l1) s) = set_request i (Listening, l2) s"
    by (simp add: set_request_def)
  finally show ?case using step(3) by (rule rtranclp.rtrancl_into_rtrancl [rotated])
qed

text \<open>One listening goroutine of a client that was closed can come to its end; it takes the client out of the map and no other.\<close>

lemma closed_client_ends:
  assumes "serving_inv s" "i \<in> visited s" "i \<in> sg_registered s"
  shows "\<exists>s1. (serve_step C handler close)\<^sup>*\<^sup>* s s1 \<and> sg_registered s1 = sg_registered s - {i}"
proof -
  obtain pc l where r: "sg_requests s i = Some (pc, l)" using assms(1,3) by (fastforce simp: serving_inv_def)
  note ok = serving_invD [OF assms(1) r]
  then have pc: "pc = Listening" and l: "ls_closing l" "\<not> IsOpen (ls_conn l)" "GetID (ls_conn l) = i"
    using assms(2,3) by (auto simp: request_ok_def GetID_def)
  have "unwritable l" using l(2) by (simp add: unwritable_def WriteMessage_def IsOpen_def)
  then obtain b where b: "(listen_step C handler)\<^sup>*\<^sup>* l (l\<lparr>ls_pc := AtReturn b\<rparr>)" using closed_listener_returns [OF l(1)] by blast
  let ?s = "set_request i (Listening, l\<lparr>ls_pc := AtReturn b\<rparr>) s"
  have "(serve_step C handler close)\<^sup>*\<^sup>* s ?s" using serve_listens [OF b] r pc by simp
  moreover have "serve_step C handler close ?s (set_request i (Unregistered, l\<lparr>ls_pc := AtReturn b\<rparr>)
      (?s\<lparr>sg_registered := sg_registered ?s - {GetID (ls_conn l)}\<rparr>))"
    using unregister [of ?s i "l\<lparr>ls_pc := AtReturn b\<rparr>" b C handler close] by simp
  ultimately have "(serve_step C handler close)\<^sup>*\<^sup>* s (set_request i (Unregistered, l\<lparr>ls_pc := AtReturn b\<rparr>)
      (?s\<lparr>sg_registered := sg_registered ?s - {GetID (ls_conn l)}\<rparr>))" by (rule rtranclp.rtrancl_into_rtrancl)
  then show ?thesis using l(3) by (intro exI conjI) auto
qed

lemma closed_clients_end:
  assumes "finite A" "A \<subseteq> sg_snapshot s" "A \<subseteq> sg_registered s" "serving_inv s" "sg_close s = CloseReturned" "\<And>conn. close conn = None"
  shows "\<exists>s1. (serve_step C handler close)\<^sup>*\<^sup>* s s1 \<and> sg_registered s1 = sg_registered s - A"
  using assms(1-3)
proof (induction rule: finite_induct)
  case (insert i A)
  then obtain s1 where s1: "(serve_step C handler close)\<^sup>*\<^sup>* s s1" "sg_registered s1 = sg_registered s - A" by blast
  note kept = snapshot_kept [OF s1(1) assms(5)]
  have "i \<in> visited s1" "i \<in> sg_registered s1" using insert kept s1(2) by (auto simp: visited_def)
  then obtain s2 where "(serve_step C handler close)\<^sup>*\<^sup>* s1 s2" "sg_registered s2 = sg_registered s1 - {i}"
    using closed_client_ends [OF serving_steps_inv [OF s1(1) assms(4,6)]] by blast
  then show ?case using s1 rtranclp_trans [of "serve_step C handler close" s s1 s2] by (intro exI [of _ s2]) auto
qed auto


text \<open>The loop of \<^verbatim>\<open>Close\<close> comes to its end, and touches only the clients of its list.\<close>

lemma close_loop_ends:
  assumes "sg_close s = CloseTransceiver order" "set order \<subseteq> dom (sg_requests s)"
  shows "\<exists>s1. (serve_step C handler close)\<^sup>*\<^sup>* s s1 \<and> sg_close s1 = CloseReturned \<and> sg_snapshot s1 = sg_snapshot s \<and>
    (\<forall>j. j \<notin> set order \<longrightarrow> sg_requests s1 j = sg_requests s j)"
  using assms
proof (induction order arbitrary: s)
  case Nil
  then show ?case using close_returned [of s C handler close] by (intro exI [of _ "s\<lparr>sg_close := CloseReturned\<rparr>"]) auto
next
  case (Cons i order)
  obtain pc l where r: "sg_requests s i = Some (pc, l)" using Cons(3) by force
  let ?s1 = "set_request i (pc, l\<lparr>ls_closing := True\<rparr>) (s\<lparr>sg_close := CloseConn (i # order)\<rparr>)"
  let ?s2 = "set_request i (pc, close_conn close (l\<lparr>ls_closing := True\<rparr>)) (?s1\<lparr>sg_close := CloseTransceiver order\<rparr>)"
  have "serve_step C handler close s ?s1" by (rule transceiver_closed [OF Cons(2) r])
  moreover have "serve_step C handler close ?s1 ?s2" by (rule conn_closed) simp_all
  ultimately have two: "(serve_step C handler close)\<^sup>*\<^sup>* s ?s2" by (meson rstep r_into_rtranclp)
  have c: "sg_close ?s2 = CloseTransceiver order" by simp
  have "set order \<subseteq> dom (sg_requests ?s2)" using Cons(3) by auto
  from Cons.IH [OF c this] obtain s3 where "(serve_step C handler close)\<^sup>*\<^sup>* ?s2 s3" "sg_close s3 = CloseReturned" "sg_snapshot s3 = sg_snapshot ?s2"
      "\<forall>j. j \<notin> set order \<longrightarrow> sg_requests s3 j = sg_requests ?s2 j"
    by blast
  then show ?case using rtranclp_trans [OF two] by (intro exI [of _ s3]) simp
qed

text \<open>
  A client that connects while the server closes may stay for ever: the http server does not wait for a connection that was upgraded, and its client is in no
  list until its goroutine runs. If \<^verbatim>\<open>Close\<close> lists the clients before that, it returns, the client is registered afterwards and listened to, and nothing closes its
  transceiver or its connection any more.
\<close>

theorem late_client_stays:
  assumes "(serve_step C handler close)\<^sup>*\<^sup>* (serving_init srv) s" "sg_close s = NotClosing" "sg_requests s i = Some (Spawned, l)"
    and "\<And>conn. close conn = None"
  shows "\<exists>s1. (serve_step C handler close)\<^sup>*\<^sup>* s s1 \<and> sg_close s1 = CloseReturned \<and> i \<in> dom (holder_of s1) \<and>
    {s2. (serve_step C handler close)\<^sup>*\<^sup>* s1 s2} \<subseteq>
      {s2. \<exists>pc l. sg_requests s2 i = Some (pc, l) \<and> IsOpen (ls_conn l) \<and> \<not> ls_closing l}"
proof -
  let ?R = "serve_step C handler close"
  have inv: "serving_inv s" using serving_steps_inv [OF assms(1) serving_init_inv assms(4)] .
  note ok = serving_invD [OF inv assms(3)]
  have "finite (sg_registered s)" by (rule registered_finite [OF inv])
  then obtain order where order: "distinct order" "set order = sg_registered s" using finite_distinct_list by blast
  let ?s2 = "s\<lparr>sg_close := ShutDown\<rparr>" and ?s3 = "s\<lparr>sg_close := CloseTransceiver order, sg_snapshot := set order\<rparr>"
  have "?R s (s\<lparr>sg_close := ShuttingDown\<rparr>)" by (rule close_called [OF assms(2)])
  moreover have "?R (s\<lparr>sg_close := ShuttingDown\<rparr>) ?s2"
    using shutdown_returned [of "s\<lparr>sg_close := ShuttingDown\<rparr>" C handler close] by simp
  moreover have "?R ?s2 ?s3"
    using clients_listed [of ?s2 order C handler close] order holder_dom [OF inv] by (simp add: getAll_def)
  ultimately have 3: "?R\<^sup>*\<^sup>* s ?s3" by (meson rstep r_into_rtranclp)
  obtain s4 where s4: "?R\<^sup>*\<^sup>* ?s3 s4" "sg_close s4 = CloseReturned" "sg_snapshot s4 = set order"
      "\<And>j. j \<notin> set order \<Longrightarrow> sg_requests s4 j = sg_requests s j"
    using close_loop_ends [of ?s3 order C handler close] order inv by (auto simp: serving_inv_def)
  have i: "i \<notin> set order" "sg_requests s4 i = Some (Spawned, l)"
    using ok order(2) s4(4) assms(3) by (auto simp: request_ok_def)
  let ?s5 = "set_request i (Listening, l) (s4\<lparr>sg_registered := insert (GetID (ls_conn l)) (sg_registered s4)\<rparr>)"
  have 5: "?R\<^sup>*\<^sup>* s ?s5" using rtranclp_trans [OF 3 s4(1)] register [OF i(2)] by (rule rtranclp.rtrancl_into_rtrancl)
  have 6: "{s2. ?R\<^sup>*\<^sup>* ?s5 s2} \<subseteq> {s2. \<exists>pc l. sg_requests s2 i = Some (pc, l) \<and> IsOpen (ls_conn l) \<and> \<not> ls_closing l}"
  proof safe
    fix s6 assume s6: "?R\<^sup>*\<^sup>* ?s5 s6"
    have kept: "sg_snapshot s6 = set order" "i \<in> dom (sg_requests s6)" using snapshot_kept [OF s6] s4(2,3) by auto
    then obtain pc l where r: "sg_requests s6 i = Some (pc, l)" by auto
    have "serving_inv s6" using serving_steps_inv [OF rtranclp_trans [OF 5 s6] inv assms(4)] .
    from serving_invD [OF this r] show "\<exists>pc l. sg_requests s6 i = Some (pc, l) \<and> IsOpen (ls_conn l) \<and> \<not> ls_closing l"
      using r kept i(1) by (auto simp: request_ok_def)
  qed
  have "i \<in> dom (holder_of ?s5)" using ok by (auto simp: holder_of_def request_ok_def GetID_def)
  then show ?thesis using 5 6 s4(2) by (intro exI [of _ ?s5]) simp
qed

text \<open>One client, accepted by the server of the example and handled up to the start of its goroutine, and the server after closing it.\<close>

definition example_request :: "nat listener" where
  "example_request = new_listener \<lparr>mapAck = Map.empty, ws_counter = 0, blockingAckOnError = False, withAcknowledge = True,
     payloadVersion = 1, nextCh = 0, closedCh = {}\<rparr> (NewWSConnClientWithConn ''a'' 1)"

definition example_spawned :: "nat serving" where
  "example_spawned = set_request ''a'' (Spawned, example_request) (serving_init example_server)"

abbreviation example_serve :: "nat serving \<Rightarrow> nat serving \<Rightarrow> bool" where
  "example_serve \<equiv> (serve_step protoConverter (\<lambda>_ _ _. None) (\<lambda>_. None))\<^sup>*\<^sup>*"

lemma example_spawned_reached: "example_serve (serving_init example_server) example_spawned"
proof -
  let ?R = "serve_step protoConverter (\<lambda>_ _ _. None) (\<lambda>_ :: nat. None)" and ?s0 = "serving_init example_server"
  let ?s1 = "set_request ''a'' (Upgraded, new_listener wt0 (NewWSConnClientWithConn ''a'' 1)) ?s0"
  have "?R ?s0 ?s1" by (rule upgrade) (simp_all add: serving_init_def)
  moreover have "?R ?s1 (set_request ''a'' (handle_request (sg_server ?s1) (new_listener wt0 (NewWSConnClientWithConn ''a'' 1))) ?s1)"
    by (rule handle) simp
  moreover have "set_request ''a'' (handle_request (sg_server ?s1) (new_listener wt0 (NewWSConnClientWithConn ''a'' 1))) ?s1 = example_spawned"
    by (simp add: set_request_def handle_request_def serving_init_def example_server_def server_args_def NewTransceiver_def
        transceiver_checkArgs_def new_listener_def example_spawned_def example_request_def)
  ultimately show ?thesis using rstep [of ?R ?s0 ?s1 example_spawned] by (simp add: r_into_rtranclp)
qed

theorem late_client_stays_witness:
  "\<exists>s1. example_serve example_spawned s1 \<and> sg_close s1 = CloseReturned \<and> ''a'' \<in> dom (holder_of s1) \<and>
    {s2. example_serve s1 s2} \<subseteq> {s2. \<exists>pc l. sg_requests s2 ''a'' = Some (pc, l) \<and> IsOpen (ls_conn l) \<and> \<not> ls_closing l}"
  by (rule late_client_stays [OF example_spawned_reached]) (simp_all add: example_spawned_def serving_init_def)

definition example_listening :: "close_pc \<Rightarrow> nat serving" where
  "example_listening p = \<lparr>sg_server = example_server, sg_requests = [''a'' \<mapsto> (Listening, example_request)], sg_registered = {''a''},
     sg_close = p, sg_snapshot = {}\<rparr>"

lemma example_closed:
  "\<exists>s. example_serve (serving_init example_server) s \<and> sg_close s = CloseReturned \<and> sg_snapshot s = {''a''}"
proof -
  let ?R = "serve_step protoConverter (\<lambda>_ _ _. None) (\<lambda>_ :: nat. None)"
  let ?s4 = "(example_listening ShutDown)\<lparr>sg_close := CloseTransceiver [''a''], sg_snapshot := set [''a'']\<rparr>"
  have 1: "?R example_spawned (example_listening NotClosing)"
    using register [of example_spawned "''a''" example_request protoConverter "\<lambda>_ _ _. None" "\<lambda>_. None"]
    by (simp add: example_spawned_def example_listening_def set_request_def serving_init_def GetID_def example_request_def new_listener_def
        NewWSConnClientWithConn_def)
  have 2: "?R (example_listening NotClosing) (example_listening ShuttingDown)"
    using close_called [of "example_listening NotClosing" protoConverter "\<lambda>_ _ _. None" "\<lambda>_. None"] by (simp add: example_listening_def)
  have 3: "?R (example_listening ShuttingDown) (example_listening ShutDown)"
    using shutdown_returned [of "example_listening ShuttingDown" protoConverter "\<lambda>_ _ _. None" "\<lambda>_. None"] by (simp add: example_listening_def)
  have dm: "set [''a''] = dom (getAll (holder_of (example_listening ShutDown)))"
    by (simp add: getAll_def holder_of_def example_listening_def dom_def)
  have "?R (example_listening ShutDown) ?s4" by (rule clients_listed [OF _ _ dm]) (simp_all add: example_listening_def)
  then have 4: "?R\<^sup>*\<^sup>* (serving_init example_server) ?s4"
    by (rule rtranclp.rtrancl_into_rtrancl [OF rtranclp.rtrancl_into_rtrancl [OF rtranclp.rtrancl_into_rtrancl [OF
        rtranclp.rtrancl_into_rtrancl [OF example_spawned_reached 1] 2] 3]])
  have "sg_close ?s4 = CloseTransceiver [''a'']" "set [''a''] \<subseteq> dom (sg_requests ?s4)" "sg_snapshot ?s4 = {''a''}"
    by (simp_all add: example_listening_def)
  then obtain s where s: "?R\<^sup>*\<^sup>* ?s4 s" "sg_close s = CloseReturned" "sg_snapshot s = {''a''}"
    using close_loop_ends [of ?s4 "[''a'']" protoConverter "\<lambda>_ _ _. None" "\<lambda>_. None"] by metis
  show ?thesis by (rule exI [of _ s], rule conjI [OF rtranclp_trans [OF 4 s(1)]], simp add: s(2,3))
qed


end
