(* ===== verification/Monitor_System.thy ===== *)
theory Monitor_System
  imports Connection_Monitor Channel_Queues
begin

text \<open>
  The connection monitor at work (\<^verbatim>\<open>p2p/libp2p/connectionMonitor/libp2pConnectionMonitorSimple.go\<close>): connections open and close, the notifications call
  the handlers of \<open>Connection_Monitor\<close>, these may ask the loop to reconnect, and the loop sweeps, reconnects and stops beside them. A request
  is taken only by a loop that waits in its select: \<^verbatim>\<open>doReconn\<close> gives up at once otherwise.

  The network is the list of its connections; \<^verbatim>\<open>Peers()\<close> are their remote peers. Any connection may close at any time, those that the
  monitor closes among them.
\<close>

section \<open>The system\<close>

text \<open>The loop waits in the select, sweeps the denied peers, reconnects, has returned.\<close>

datatype monitor_pc = AtLoopSelect | InSweep "monitor_action list" | InReconnect | LoopOver

record monitor_system =
  my_monitor :: connectionMonitor
  my_conns :: "network_conn list"
  my_pc :: monitor_pc
  my_loop :: loop_state
  my_cancelled :: bool
  my_actions :: "monitor_action list"

definition network_Peers :: "network_conn list \<Rightarrow> peer_id list" where
  "network_Peers conns = remdups (map RemotePeer conns)"

definition monitor_init :: "connectionMonitor \<Rightarrow> network_conn list \<Rightarrow> monitor_system" where
  "monitor_init lcms conns = \<lparr>my_monitor = lcms, my_conns = conns, my_pc = AtLoopSelect, my_loop = loop_init, my_cancelled = False, my_actions = []\<rparr>"

text \<open>The send of \<^verbatim>\<open>doReconn\<close> with the case of the select that receives it.\<close>

definition doReconn :: "monitor_system \<Rightarrow> monitor_system" where
  "doReconn s =
     (if my_pc s \<noteq> AtLoopSelect then s
      else if \<not> canReconnect (my_loop s) then s\<lparr>my_loop := (my_loop s)\<lparr>loop_log := loop_log (my_loop s) @ [TooEarly]\<rparr>\<rparr>
      else s\<lparr>my_pc := InReconnect\<rparr>)"

definition doReconn_if :: "bool \<Rightarrow> monitor_system \<Rightarrow> monitor_system" where
  "doReconn_if needed s = (if needed then doReconn s else s)"

text \<open>Nothing happens when the network starts or stops to listen on an address.\<close>

definition monitor_Listen :: "monitor_system \<Rightarrow> string \<Rightarrow> monitor_system" where
  "monitor_Listen s address = s"

definition monitor_ListenClose :: "monitor_system \<Rightarrow> string \<Rightarrow> monitor_system" where
  "monitor_ListenClose s address = s"

definition ThresholdMinConnectedPeers :: "connectionMonitor \<Rightarrow> int" where
  "ThresholdMinConnectedPeers lcms = thresholdMinConnectedPeers lcms"

definition PeerDenialEvaluator :: "connectionMonitor \<Rightarrow> peer_id \<Rightarrow> bool" where
  "PeerDenialEvaluator lcms = peerDenialEvaluator lcms"

definition monitor_Close :: "monitor_system \<Rightarrow> p2p_error option \<times> monitor_system" where
  "monitor_Close s = (None, s\<lparr>my_cancelled := True\<rparr>)"

datatype monitor_event =
    Opened network_conn | Lost network_conn | ThresholdSet int | EvaluatorSet "(peer_id \<Rightarrow> bool) option"
  | LoopTurn | CloseCalled

inductive monitor_step ::
    "(PeerDistance list \<Rightarrow> PeerDistance list) \<Rightarrow> (peer_id \<Rightarrow> string) \<Rightarrow> uint32 \<Rightarrow> monitor_event \<Rightarrow> monitor_system \<Rightarrow> monitor_system \<Rightarrow> bool"
  for srt :: "PeerDistance list \<Rightarrow> PeerDistance list" and pretty :: "peer_id \<Rightarrow> string" and allShardId :: uint32 where
  opened: "Connected srt pretty allShardId (my_monitor s) (network_Peers (my_conns s @ [conn])) conn = Some (acts, lcms) \<Longrightarrow>
    monitor_step srt pretty allShardId (Opened conn) s
      (s\<lparr>my_monitor := lcms, my_conns := my_conns s @ [conn], my_actions := my_actions s @ acts\<rparr>)"
| lost: "conn \<in> set (my_conns s) \<Longrightarrow>
    Disconnected (my_monitor s) (network_Peers (remove1 conn (my_conns s))) (Some conn) = Some (needed, lcms) \<Longrightarrow>
    monitor_step srt pretty allShardId (Lost conn) s
      (doReconn_if needed (s\<lparr>my_monitor := lcms, my_conns := remove1 conn (my_conns s)\<rparr>))"
| threshold_set: "SetThresholdMinConnectedPeers (my_monitor s) n (Some (network_Peers (my_conns s))) = (needed, lcms) \<Longrightarrow>
    monitor_step srt pretty allShardId (ThresholdSet n) s (doReconn_if needed (s\<lparr>my_monitor := lcms\<rparr>))"
| evaluator_set: "SetPeerDenialEvaluator (my_monitor s) h = (err, lcms) \<Longrightarrow>
    monitor_step srt pretty allShardId (EvaluatorSet h) s (s\<lparr>my_monitor := lcms\<rparr>)"
| sweep_begins: "my_pc s = AtLoopSelect \<Longrightarrow>
    monitor_step srt pretty allShardId LoopTurn s
      (s\<lparr>my_pc := InSweep (checkConnectionsBlocking (my_monitor s) (network_Peers (my_conns s)))\<rparr>)"
| sweep_ends: "my_pc s = InSweep acts \<Longrightarrow>
    monitor_step srt pretty allShardId LoopTurn s
      (s\<lparr>my_pc := AtLoopSelect, my_loop := (my_loop s)\<lparr>loop_log := loop_log (my_loop s) @ [Swept acts]\<rparr>, my_actions := my_actions s @ acts\<rparr>)"
| reconnect_ends: "my_pc s = InReconnect \<Longrightarrow>
    monitor_step srt pretty allShardId LoopTurn s
      (s\<lparr>my_pc := AtLoopSelect, my_actions := my_actions s @ reconnectToNetwork (my_monitor s),
         my_loop := (my_loop s)\<lparr>loop_log := loop_log (my_loop s) @ [Reconnected (reconnectToNetwork (my_monitor s))], canReconnect := False\<rparr>\<rparr>)"
| attempts_timer: "my_pc s = AtLoopSelect \<Longrightarrow>
    monitor_step srt pretty allShardId LoopTurn s
      (s\<lparr>my_loop := (my_loop s)\<lparr>loop_log := loop_log (my_loop s) @ [TimerElapsed], canReconnect := True\<rparr>\<rparr>)"
| loop_stops: "my_pc s = AtLoopSelect \<Longrightarrow> my_cancelled s \<Longrightarrow>
    monitor_step srt pretty allShardId LoopTurn s
      (s\<lparr>my_pc := LoopOver, my_loop := (my_loop s)\<lparr>loop_log := loop_log (my_loop s) @ [Stopped], running := False\<rparr>\<rparr>)"
| close_called: "monitor_step srt pretty allShardId CloseCalled s (snd (monitor_Close s))"

inductive_cases monitor_stepE: "monitor_step srt pretty allShardId ev s s'"

inductive monitor_run ::
    "(PeerDistance list \<Rightarrow> PeerDistance list) \<Rightarrow> (peer_id \<Rightarrow> string) \<Rightarrow> uint32 \<Rightarrow> monitor_event list \<Rightarrow> monitor_system \<Rightarrow> monitor_system \<Rightarrow> bool"
  for srt :: "PeerDistance list \<Rightarrow> PeerDistance list" and pretty :: "peer_id \<Rightarrow> string" and allShardId :: uint32 where
  run_nil: "monitor_run srt pretty allShardId [] s s"
| run_step: "monitor_run srt pretty allShardId evs s s1 \<Longrightarrow> monitor_step srt pretty allShardId ev s1 s2 \<Longrightarrow>
    monitor_run srt pretty allShardId (evs @ [ev]) s s2"

section \<open>The loop in the system\<close>

text \<open>What happens to the loop is what its own step relation allows, with the monitor as it is at the time.\<close>

definition loop_turn :: "loop_state \<Rightarrow> loop_state \<Rightarrow> bool" where
  "loop_turn l l' \<longleftrightarrow> (\<exists>lcms ev. processLoop lcms l ev l')"

lemma loop_turnI: "processLoop lcms l ev l' \<Longrightarrow> loop_turn l l'"
  unfolding loop_turn_def by blast

definition loop_ok :: "monitor_system \<Rightarrow> bool" where
  "loop_ok s \<longleftrightarrow> (running (my_loop s) \<longleftrightarrow> my_pc s \<noteq> LoopOver) \<and> (my_pc s = InReconnect \<longrightarrow> canReconnect (my_loop s)) \<and>
     (\<forall>acts. my_pc s = InSweep acts \<longrightarrow> (\<exists>lcms peers. acts = checkConnectionsBlocking lcms peers))"

lemma doReconn_if_fields [simp]:
  "my_monitor (doReconn_if b s) = my_monitor s" "my_conns (doReconn_if b s) = my_conns s"
  by (simp_all add: doReconn_if_def doReconn_def)

lemma doReconn_if_loop:
  assumes "loop_ok s"
  shows "loop_ok (doReconn_if b s) \<and> (loop_turn (my_loop s) (my_loop (doReconn_if b s)) \<or> my_loop (doReconn_if b s) = my_loop s)"
proof (cases "b \<and> my_pc s = AtLoopSelect \<and> \<not> canReconnect (my_loop s)")
  case True
  have "processLoop (my_monitor s) (my_loop s) ChDoReconnect (my_loop (doReconn_if b s))"
    using True assms processLoop.too_early [of "my_loop s" "my_monitor s"] by (simp add: loop_ok_def doReconn_if_def doReconn_def)
  then show ?thesis using True assms unfolding loop_turn_def by (auto simp: loop_ok_def doReconn_if_def doReconn_def)
next
  case False
  then show ?thesis using assms by (auto simp: loop_ok_def doReconn_if_def doReconn_def)
qed

lemma monitor_step_loop:
  assumes "monitor_step srt pretty allShardId ev s s'" "loop_ok s"
  shows "loop_ok s' \<and> (loop_turn (my_loop s) (my_loop s') \<or> my_loop s' = my_loop s)"
  using assms(1)
proof (cases rule: monitor_step.cases)
  case (lost conn needed lcms)
  have "loop_ok (s\<lparr>my_monitor := lcms, my_conns := remove1 conn (my_conns s)\<rparr>)" using assms(2) by (simp add: loop_ok_def)
  from doReconn_if_loop [OF this, of needed] show ?thesis by (simp add: lost(2))
next
  case (threshold_set n needed lcms)
  have "loop_ok (s\<lparr>my_monitor := lcms\<rparr>)" using assms(2) by (simp add: loop_ok_def)
  from doReconn_if_loop [OF this, of needed] show ?thesis by (simp add: threshold_set(2))
next
  case (sweep_ends acts)
  then obtain lcms peers where "acts = checkConnectionsBlocking lcms peers" using assms(2) by (auto simp: loop_ok_def)
  then have "processLoop lcms (my_loop s) (TimerCheckConnections peers) (my_loop s')"
    using sweep_ends assms(2) processLoop.check [of "my_loop s" lcms peers] by (simp add: loop_ok_def)
  then have "loop_turn (my_loop s) (my_loop s')" by (rule loop_turnI)
  then show ?thesis using sweep_ends assms(2) by (simp add: loop_ok_def)
next
  case reconnect_ends
  then have "processLoop (my_monitor s) (my_loop s) ChDoReconnect (my_loop s')"
    using assms(2) processLoop.reconnect [of "my_loop s" "my_monitor s"] by (simp add: loop_ok_def)
  then have "loop_turn (my_loop s) (my_loop s')" by (rule loop_turnI)
  then show ?thesis using reconnect_ends assms(2) by (simp add: loop_ok_def)
next
  case attempts_timer
  then have "processLoop (my_monitor s) (my_loop s) TimerBetweenReconnectAttempts (my_loop s')"
    using assms(2) processLoop.elapsed [of "my_loop s" "my_monitor s"] by (simp add: loop_ok_def)
  then have "loop_turn (my_loop s) (my_loop s')" by (rule loop_turnI)
  then show ?thesis using attempts_timer assms(2) by (simp add: loop_ok_def)
next
  case loop_stops
  then have "processLoop (my_monitor s) (my_loop s) CtxDone (my_loop s')"
    using assms(2) processLoop.stop [of "my_loop s" "my_monitor s"] by (simp add: loop_ok_def)
  then have "loop_turn (my_loop s) (my_loop s')" by (rule loop_turnI)
  then show ?thesis using loop_stops assms(2) by (simp add: loop_ok_def)
next
  case sweep_begins
  then show ?thesis using assms(2) by (auto simp: loop_ok_def)
next
  case (opened conn acts lcms)
  show ?thesis using opened(2) assms(2) by (simp add: loop_ok_def)
next
  case (evaluator_set h err lcms)
  show ?thesis using evaluator_set(2) assms(2) by (simp add: loop_ok_def)
next
  case close_called
  show ?thesis using close_called(2) assms(2) by (simp add: loop_ok_def monitor_Close_def)
qed

interpretation monitored: simulation "\<lambda>s s'. \<exists>ev. monitor_step srt pretty allShardId ev s s'" loop_turn loop_ok my_loop
  using monitor_step_loop by unfold_locales blast+

lemma run_steps: "monitor_run srt pretty allShardId evs s s' \<Longrightarrow> (\<lambda>s s'. \<exists>ev. monitor_step srt pretty allShardId ev s s')\<^sup>*\<^sup>* s s'"
  by (induction rule: monitor_run.induct) (auto intro: rtranclp.rtrancl_into_rtrancl)

definition log_ok :: "loop_state \<Rightarrow> bool" where
  "log_ok l \<longleftrightarrow> spaced (loop_log l) \<and> (canReconnect l \<longrightarrow> settled (loop_log l))"

lemma loop_turn_log_ok: "log_ok l \<Longrightarrow> loop_turn l l' \<Longrightarrow> log_ok l'"
  unfolding loop_turn_def by (elim exE processLoopE) (auto simp: log_ok_def intro!: spaced_snoc settled_snoc)

text \<open>
  C28. The monitor never reconnects too often: however connections open and close, whatever thresholds and evaluators are set and however the notifications interleave with
  the loop, the timer between reconnect attempts has elapsed between any two attempts to reconnect.
\<close>

theorem monitor_rate_limit:
  assumes "monitor_run srt pretty allShardId evs (monitor_init lcms conns) s"
    and "loop_log (my_loop s) = xs @ Reconnected a # ys @ Reconnected b # zs"
  shows "TimerElapsed \<in> set ys"
proof -
  have "loop_ok (monitor_init lcms conns)" "log_ok (my_loop (monitor_init lcms conns))"
    by (simp_all add: loop_ok_def log_ok_def monitor_init_def loop_init_def spaced_def settled_def)
  then have "log_ok (my_loop s)"
    using monitored.abstract_invariant [of log_ok, OF _ run_steps [OF assms(1)]] loop_turn_log_ok by blast
  then show ?thesis using assms(2) unfolding log_ok_def spaced_def by blast
qed

section \<open>Requests that nobody takes\<close>

definition quiet :: "monitor_event \<Rightarrow> bool" where
  "quiet ev = (case ev of Opened _ \<Rightarrow> False | ThresholdSet _ \<Rightarrow> False | _ \<Rightarrow> True)"

definition attempts :: "monitor_system \<Rightarrow> log_entry list" where
  "attempts s = filter (\<lambda>e. case e of Reconnected _ \<Rightarrow> True | _ \<Rightarrow> False) (loop_log (my_loop s))"

definition forlorn :: "monitor_system \<Rightarrow> bool" where
  "forlorn s \<longleftrightarrow> my_conns s = [] \<and> my_pc s \<noteq> InReconnect"

lemma forlorn_step:
  "monitor_step srt pretty allShardId ev s s' \<Longrightarrow> quiet ev \<Longrightarrow> forlorn s \<Longrightarrow>
   forlorn s' \<and> attempts s' = attempts s \<and> thresholdMinConnectedPeers (my_monitor s') = thresholdMinConnectedPeers (my_monitor s)"
  by (erule monitor_stepE) (auto simp: forlorn_def quiet_def attempts_def monitor_Close_def SetPeerDenialEvaluator_def split: option.splits)

lemma forlorn_run:
  "monitor_run srt pretty allShardId evs s s' \<Longrightarrow> list_all quiet evs \<Longrightarrow> forlorn s \<Longrightarrow>
   forlorn s' \<and> attempts s' = attempts s \<and> thresholdMinConnectedPeers (my_monitor s') = thresholdMinConnectedPeers (my_monitor s)"
  by (induction rule: monitor_run.induct) (auto dest: forlorn_step)

lemma Disconnected_threshold:
  "Disconnected lcms peers conn = Some (needed, lcms') \<Longrightarrow>
   thresholdMinConnectedPeers lcms' = thresholdMinConnectedPeers lcms \<and> (needed \<longleftrightarrow> int (length peers) < thresholdMinConnectedPeers lcms)"
  by (auto simp: Disconnected_def doReconnectionIfNeeded_def IsConnectedToTheNetwork_def split: option.splits Option.bind_splits)

text \<open>
  C34. Whether losing the last connection is followed by an attempt to reconnect: when the loop waits and the timer between attempts has elapsed, the request is
  taken and the attempt can be made. When the loop is busy with a sweep, or the timer is still running, the
  request is dropped, and the monitor never attempts to reconnect again, however long it runs, unless somebody opens a connection or sets the
  threshold: nothing else calls for a reconnect, and the timer, when it elapses, does not.
\<close>

theorem last_connection_lost:
  assumes "my_conns s = [conn]" "0 < thresholdMinConnectedPeers (my_monitor s)" "my_pc s \<notin> {InReconnect, LoopOver}"
    and "monitor_step srt pretty allShardId (Lost conn) s s1"
  shows "if my_pc s = AtLoopSelect \<and> canReconnect (my_loop s)
    then \<exists>s2. monitor_run srt pretty allShardId [LoopTurn] s1 s2 \<and> attempts s2 \<noteq> attempts s
    else {(evs, s2). monitor_run srt pretty allShardId evs s1 s2 \<and> list_all quiet evs} \<subseteq>
      {(evs, s2). attempts s2 = attempts s \<and> \<not> IsConnectedToTheNetwork (my_monitor s2) (network_Peers (my_conns s2))}"
proof -
  obtain lcms needed where d: "Disconnected (my_monitor s) (network_Peers []) (Some conn) = Some (needed, lcms)"
      and s1: "s1 = doReconn_if needed (s\<lparr>my_monitor := lcms, my_conns := []\<rparr>)"
    using assms(4,1) by (auto elim: monitor_stepE)
  have th: "thresholdMinConnectedPeers lcms = thresholdMinConnectedPeers (my_monitor s)" "needed"
    using Disconnected_threshold [OF d] assms(2) by (simp_all add: network_Peers_def)
  show ?thesis
  proof (cases "my_pc s = AtLoopSelect \<and> canReconnect (my_loop s)")
    case True
    then have pc: "my_pc s1 = InReconnect" "my_loop s1 = my_loop s" by (simp_all add: s1 th(2) doReconn_if_def doReconn_def)
    have "monitor_run srt pretty allShardId [] s1 s1" by (rule run_nil)
    from run_step [OF this reconnect_ends [OF pc(1)]] True pc(2) show ?thesis
      by (auto simp: attempts_def)
  next
    case False
    then have fl: "forlorn s1" "attempts s1 = attempts s" "thresholdMinConnectedPeers (my_monitor s1) = thresholdMinConnectedPeers (my_monitor s)"
      using assms(3) th by (auto simp: s1 forlorn_def attempts_def doReconn_if_def doReconn_def)
    show ?thesis using False forlorn_run [OF _ _ fl(1)] fl(2,3) assms(2)
      by (auto simp: forlorn_def IsConnectedToTheNetwork_def network_Peers_def)
  qed
qed

definition example_loop :: "bool \<Rightarrow> log_entry list \<Rightarrow> monitor_system" where
  "example_loop can l = \<lparr>my_monitor = example_monitor, my_conns = [], my_pc = AtLoopSelect,
     my_loop = \<lparr>canReconnect = can, running = True, loop_log = l\<rparr>, my_cancelled = False,
     my_actions = concat (map (\<lambda>e. case e of Reconnected a \<Rightarrow> a | _ \<Rightarrow> []) l)\<rparr>"

lemma example_reconnect:
  "\<exists>s1. monitor_step id id 0 (ThresholdSet 2) (example_loop True l) s1 \<and>
    monitor_step id id 0 LoopTurn s1 (example_loop False (l @ [Reconnected [ReconnectToNetwork 0]]))"
proof -
  let ?s = "(example_loop True l)\<lparr>my_pc := InReconnect\<rparr>"
  have th: "SetThresholdMinConnectedPeers example_monitor 2 (Some []) = (True, example_monitor)"
    by (simp add: SetThresholdMinConnectedPeers_def doReconnectionIfNeeded_def IsConnectedToTheNetwork_def example_monitor_def)
  have "monitor_step id id 0 (ThresholdSet 2) (example_loop True l) (doReconn_if True (example_loop True l\<lparr>my_monitor := example_monitor\<rparr>))"
    by (rule threshold_set) (simp add: example_loop_def network_Peers_def th)
  then have 1: "monitor_step id id 0 (ThresholdSet 2) (example_loop True l) ?s"
    by (simp add: example_loop_def doReconn_if_def doReconn_def)
  have rec: "reconnectToNetwork example_monitor = [ReconnectToNetwork 0]" by (simp add: reconnectToNetwork_def example_monitor_def)
  have "monitor_step id id 0 LoopTurn ?s (example_loop False (l @ [Reconnected [ReconnectToNetwork 0]]))"
    using reconnect_ends [of ?s id id 0] by (simp add: example_loop_def rec)
  then show ?thesis using 1 by blast
qed

theorem monitor_rate_limit_witness:
  "\<exists>s. monitor_run id id 0 [ThresholdSet 2, LoopTurn, LoopTurn, ThresholdSet 2, LoopTurn] (monitor_init example_monitor []) s \<and>
    (\<exists>ys. loop_log (my_loop s) = Reconnected [ReconnectToNetwork 0] # ys @ [Reconnected [ReconnectToNetwork 0]] \<and> TimerElapsed \<in> set ys)"
proof -
  let ?r = "Reconnected [ReconnectToNetwork 0]" and ?R = "monitor_run id id 0"
  obtain s1 s2 where s: "monitor_step id id 0 (ThresholdSet 2) (example_loop True []) s1" "monitor_step id id 0 LoopTurn s1 (example_loop False [?r])"
      "monitor_step id id 0 (ThresholdSet 2) (example_loop True [?r, TimerElapsed]) s2"
      "monitor_step id id 0 LoopTurn s2 (example_loop False [?r, TimerElapsed, ?r])"
    using example_reconnect [of "[]"] example_reconnect [of "[?r, TimerElapsed]"] by auto
  have t: "monitor_step id id 0 LoopTurn (example_loop False [?r]) (example_loop True [?r, TimerElapsed])"
    using attempts_timer [of "example_loop False [?r]" id id 0] by (simp add: example_loop_def)
  have i: "monitor_init example_monitor [] = example_loop True []" by (simp add: monitor_init_def example_loop_def loop_init_def)
  have run: "?R ([] @ [ThresholdSet 2] @ [LoopTurn] @ [LoopTurn] @ [ThresholdSet 2] @ [LoopTurn]) (monitor_init example_monitor [])
      (example_loop False [?r, TimerElapsed, ?r])"
    using run_step [OF run_step [OF run_step [OF run_step [OF run_step [OF run_nil s(1)] s(2)] t] s(3)] s(4)] by (simp add: i)
  have log: "loop_log (my_loop (example_loop False [?r, TimerElapsed, ?r])) = [] @ ?r # [TimerElapsed] @ ?r # []"
    by (simp add: example_loop_def)
  show ?thesis
    by (rule exI [of _ "example_loop False [?r, TimerElapsed, ?r]"], intro conjI exI [of _ "[TimerElapsed]"])
      (use run log monitor_rate_limit [OF run log] in simp_all)
qed

definition example_conn :: network_conn where
  "example_conn = \<lparr>RemotePeer = ''p'', RemoteMultiaddr = ''/ip4/1.2.3.4'', conn_ID = ''c''\<rparr>"

lemma example_lost: "monitor_step id id 0 (Lost example_conn) ((example_loop can l)\<lparr>my_conns := [example_conn]\<rparr>) (doReconn_if True (example_loop can l))"
  using lost [of example_conn "(example_loop can l)\<lparr>my_conns := [example_conn]\<rparr>" True example_monitor id id 0]
  by (simp add: example_loop_def network_Peers_def Disconnected_def Remove_def example_monitor_def example_conn_def ph_new_def
      doReconnectionIfNeeded_def IsConnectedToTheNetwork_def)

theorem last_connection_lost_witness:
  "(\<exists>s2. monitor_run id id 0 [LoopTurn] (doReconn_if True (example_loop True [])) s2 \<and> attempts s2 \<noteq> []) \<and>
   {(evs, s2). monitor_run id id 0 evs (doReconn_if True (example_loop False [])) s2 \<and> list_all quiet evs} \<subseteq>
     {(evs, s2). attempts s2 = [] \<and> \<not> IsConnectedToTheNetwork (my_monitor s2) (network_Peers (my_conns s2))}"
  using last_connection_lost [OF _ _ _ example_lost, of True "[]"] last_connection_lost [OF _ _ _ example_lost, of False "[]"]
  by (simp add: example_loop_def example_monitor_def attempts_def)

end
