(* ===== verification/Connections_Status.thy ===== *)
theory Connections_Status
  imports Connections_Handler Connections_Watcher Monitor_System
begin

text \<open>
  The rest of \<^verbatim>\<open>libp2p/connectionsHandler.go\<close>: the queries that pass on to the host and the monitor, and the goroutine that prints the status of the
  connections while notifications count them (\<^verbatim>\<open>libp2p/metrics/connections.go\<close>); and the goroutine that sweeps the cache of
  \<^verbatim>\<open>libp2p/metrics/printConnectionsWatcher.go\<close>. What is printed is the record of the values that are given to the logger.
\<close>

section \<open>Queries\<close>

text \<open>The peers of the peer store, one after the other.\<close>

definition Peers :: "peer_id list \<Rightarrow> peer_id list" where
  "Peers peerstore = foldl (\<lambda>peers p. peers @ [p]) [] peerstore"

definition handler_ConnectToPeer :: "(string \<Rightarrow> p2p_error option) \<Rightarrow> string \<Rightarrow> p2p_error option" where
  "handler_ConnectToPeer connectToPeer address = connectToPeer address"

definition IsConnected :: "(peer_id \<Rightarrow> bool) \<Rightarrow> peer_id \<Rightarrow> bool" where
  "IsConnected connectedness p = connectedness p"

definition handler_ThresholdMinConnectedPeers :: "connectionsHandler \<Rightarrow> int" where
  "handler_ThresholdMinConnectedPeers h = ThresholdMinConnectedPeers (ch_connMonitor h)"

text \<open>Whether it has returned after the given polls. With no minimum it sleeps for the whole time.\<close>

definition WaitForConnections :: "uint32 \<Rightarrow> wait_poll list \<Rightarrow> bool" where
  "WaitForConnections minNumOfPeers polls =
     (if minNumOfPeers = 0 then MaxWaitingTimeOver \<in> set polls else waitForConnections (unat minNumOfPeers) polls)"

lemma waitForConnections_iff:
  "waitForConnections n polls \<longleftrightarrow> MaxWaitingTimeOver \<in> set polls \<or> (\<exists>k \<ge> n. Polled k \<in> set polls)"
proof (induction polls)
  case (Cons p polls)
  then show ?case by (cases p) auto
qed simp

lemma WaitForConnections_iff:
  "WaitForConnections n polls \<longleftrightarrow> MaxWaitingTimeOver \<in> set polls \<or> n \<noteq> 0 \<and> (\<exists>k \<ge> unat n. Polled k \<in> set polls)"
  by (auto simp: WaitForConnections_def waitForConnections_iff)

lemma threshold_set_read:
  "handler_SetThresholdMinConnectedPeers h n peers = (None, h') \<Longrightarrow> handler_ThresholdMinConnectedPeers h' = n \<and> 0 \<le> n"
  by (auto simp: handler_SetThresholdMinConnectedPeers_def handler_ThresholdMinConnectedPeers_def ThresholdMinConnectedPeers_def
      SetThresholdMinConnectedPeers_def Let_def split: if_splits)

section \<open>The printed status\<close>

definition timeBetweenPeerPrints :: nat where "timeBetweenPeerPrints = 20"

record connection_status =
  st_knownPeers :: nat
  st_connectedPeers :: nat
  st_peersInfo :: ConnectedPeersInfo
  st_validatorsHistogram :: string
  st_observersHistogram :: string
  st_preferredHistogram :: string
  st_connsPerSec :: uint32
  st_disconnsPerSec :: uint32
  st_conns :: uint32
  st_disconns :: uint32

text \<open>The network and the peer store at the time of printing.\<close>

record network_view =
  nv_conns :: "network_conn list"
  nv_isConnected :: "peer_id \<Rightarrow> bool"
  nv_peerstore :: "peer_id list"

text \<open>The entries of a map of the overview; its keys are shards of the peers.\<close>

definition map_entries :: "uint32 list \<Rightarrow> (uint32 \<rightharpoonup> nat) \<Rightarrow> (uint32 \<times> nat) list" where
  "map_entries shards m = concat (map (\<lambda>k. case m k of None \<Rightarrow> [] | Some n \<Rightarrow> [(k, n)]) shards)"

definition printConnectionsStatus ::
    "(peer_id \<Rightarrow> string) \<Rightarrow> uint32 \<Rightarrow> network_view \<Rightarrow> connectionsHandler \<Rightarrow> uint32 \<Rightarrow> uint32 \<Rightarrow> connection_status" where
  "printConnectionsStatus pretty metachain nv h conns disconns =
     (let peers = network_Peers (nv_conns nv);
          connsToPeer = (\<lambda>p. map RemoteMultiaddr (filter (\<lambda>c. RemotePeer c = p) (nv_conns nv)));
          peersInfo = GetConnectedPeersInfo pretty connsToPeer h peers;
          shards = remdups (map (\<lambda>p. ShardID (ch_peerShardResolver h p)) peers)
      in \<lparr>st_knownPeers = length (Peers (nv_peerstore nv)), st_connectedPeers = length (ConnectedPeers (nv_isConnected nv) (nv_conns nv)),
          st_peersInfo = peersInfo,
          st_validatorsHistogram = mapHistogram metachain (map_entries shards (NumValidatorsOnShard peersInfo)),
          st_observersHistogram = mapHistogram metachain (map_entries shards (NumObserversOnShard peersInfo)),
          st_preferredHistogram = mapHistogram metachain (map_entries shards (NumPreferredPeersOnShard peersInfo)),
          st_connsPerSec = conns div of_nat timeBetweenPeerPrints, st_disconnsPerSec = disconns div of_nat timeBetweenPeerPrints,
          st_conns = conns, st_disconns = disconns\<rparr>)"

text \<open>The goroutine of \<^verbatim>\<open>printLogs\<close>: in the select, after each of the two resets, returned.\<close>

datatype print_pc = AtPrintSelect | ConnsRead uint32 | BothRead uint32 uint32 | PrintOver

record print_system =
  pr_handler :: connectionsHandler
  pr_pc :: print_pc
  pr_printed :: "connection_status list"
  pr_connected :: nat
  pr_disconnected :: nat

abbreviation pr_metric :: "print_system \<Rightarrow> connectionsMetric" where
  "pr_metric s \<equiv> ch_connectionsMetric (pr_handler s)"

definition with_metric :: "connectionsMetric \<Rightarrow> print_system \<Rightarrow> print_system" where
  "with_metric cm s = s\<lparr>pr_handler := (pr_handler s)\<lparr>ch_connectionsMetric := cm\<rparr>\<rparr>"

text \<open>Notifications come between any two steps of the goroutine. The last two fields count them.\<close>

inductive printLogs :: "(peer_id \<Rightarrow> string) \<Rightarrow> uint32 \<Rightarrow> print_system \<Rightarrow> print_system \<Rightarrow> bool"
  for pretty :: "peer_id \<Rightarrow> string" and metachain :: uint32 where
  notified_connected: "printLogs pretty metachain s (with_metric (metric_Connected (pr_metric s)) (s\<lparr>pr_connected := Suc (pr_connected s)\<rparr>))"
| notified_disconnected: "printLogs pretty metachain s (with_metric (metric_Disconnected (pr_metric s)) (s\<lparr>pr_disconnected := Suc (pr_disconnected s)\<rparr>))"
| read_connections: "pr_pc s = AtPrintSelect \<Longrightarrow> ResetNumConnections (pr_metric s) = (conns, cm) \<Longrightarrow>
    printLogs pretty metachain s (with_metric cm (s\<lparr>pr_pc := ConnsRead conns\<rparr>))"
| read_disconnections: "pr_pc s = ConnsRead conns \<Longrightarrow> ResetNumDisconnections (pr_metric s) = (disconns, cm) \<Longrightarrow>
    printLogs pretty metachain s (with_metric cm (s\<lparr>pr_pc := BothRead conns disconns\<rparr>))"
| print_status: "pr_pc s = BothRead conns disconns \<Longrightarrow>
    printLogs pretty metachain s (s\<lparr>pr_pc := AtPrintSelect,
      pr_printed := pr_printed s @ [printConnectionsStatus pretty metachain nv (pr_handler s) conns disconns]\<rparr>)"
| print_ends: "pr_pc s = AtPrintSelect \<Longrightarrow> printLogs pretty metachain s (s\<lparr>pr_pc := PrintOver\<rparr>)"

definition print_init :: "connectionsHandler \<Rightarrow> print_system" where
  "print_init h = \<lparr>pr_handler = h\<lparr>ch_connectionsMetric := NewConnectionsMetric\<rparr>, pr_pc = AtPrintSelect, pr_printed = [],
     pr_connected = 0, pr_disconnected = 0\<rparr>"

definition conns_held :: "print_pc \<Rightarrow> uint32" where
  "conns_held p = (case p of ConnsRead c \<Rightarrow> c | BothRead c _ \<Rightarrow> c | _ \<Rightarrow> 0)"

definition disconns_held :: "print_pc \<Rightarrow> uint32" where
  "disconns_held p = (case p of BothRead _ d \<Rightarrow> d | _ \<Rightarrow> 0)"

definition accounted :: "print_system \<Rightarrow> bool" where
  "accounted s \<longleftrightarrow>
     of_nat (pr_connected s) = sum_list (map st_conns (pr_printed s)) + conns_held (pr_pc s) + numConnections (pr_metric s) \<and>
     of_nat (pr_disconnected s) = sum_list (map st_disconns (pr_printed s)) + disconns_held (pr_pc s) + numDisconnections (pr_metric s)"

lemmas metric_defs = metric_Connected_def metric_Disconnected_def ResetNumConnections_def ResetNumDisconnections_def

lemma print_fields [simp]:
  "st_conns (printConnectionsStatus pretty metachain nv h c d) = c" "st_disconns (printConnectionsStatus pretty metachain nv h c d) = d"
  "st_connsPerSec (printConnectionsStatus pretty metachain nv h c d) = c div of_nat timeBetweenPeerPrints"
  "st_disconnsPerSec (printConnectionsStatus pretty metachain nv h c d) = d div of_nat timeBetweenPeerPrints"
  by (simp_all add: printConnectionsStatus_def Let_def)

lemma accounted_step: "printLogs pretty metachain s s' \<Longrightarrow> accounted s \<Longrightarrow> accounted s'"
  by (induction rule: printLogs.induct) (auto simp: accounted_def with_metric_def metric_defs conns_held_def disconns_held_def algebra_simps)

lemma accounted_run: "(printLogs pretty metachain)\<^sup>*\<^sup>* s s' \<Longrightarrow> accounted s \<Longrightarrow> accounted s'"
  by (induction rule: rtranclp_induct) (auto intro: accounted_step)

text \<open>The same without wrap-around, as long as the number of notifications fits in the counter.\<close>

definition total :: "(connection_status \<Rightarrow> uint32) \<Rightarrow> connection_status list \<Rightarrow> uint32 \<Rightarrow> uint32 \<Rightarrow> nat" where
  "total f printed reading counter = sum_list (map (\<lambda>st. unat (f st)) printed) + unat reading + unat counter"

lemma total_incr: "total f printed r c = n \<Longrightarrow> n < 2 ^ 32 - 1 \<Longrightarrow> total f printed r (c + 1) = Suc n"
proof -
  assume t: "total f printed r c = n" "n < 2 ^ 32 - 1"
  then have "unat c < 2 ^ 32 - 1" by (simp add: total_def)
  then have "unat (c + 1) = Suc (unat c)" by (simp add: unat_word_ariths(1))
  then show ?thesis using t(1) by (simp add: total_def)
qed

definition exact :: "print_system \<Rightarrow> bool" where
  "exact s \<longleftrightarrow>
     (pr_connected s < 2 ^ 32 \<longrightarrow> total st_conns (pr_printed s) (conns_held (pr_pc s)) (numConnections (pr_metric s)) = pr_connected s) \<and>
     (pr_disconnected s < 2 ^ 32 \<longrightarrow>
        total st_disconns (pr_printed s) (disconns_held (pr_pc s)) (numDisconnections (pr_metric s)) = pr_disconnected s)"

lemma exact_step:
  assumes "printLogs pretty metachain s s'" "exact s"
  shows "exact s'"
  using assms
proof (induction rule: printLogs.induct)
  case (notified_connected s)
  then show ?case using total_incr [of st_conns "pr_printed s" "conns_held (pr_pc s)" "numConnections (pr_metric s)"]
    by (simp add: exact_def with_metric_def metric_Connected_def)
next
  case (notified_disconnected s)
  then show ?case using total_incr [of st_disconns "pr_printed s" "disconns_held (pr_pc s)" "numDisconnections (pr_metric s)"]
    by (simp add: exact_def with_metric_def metric_Disconnected_def)
qed (auto simp: exact_def total_def with_metric_def metric_defs conns_held_def disconns_held_def)

lemma exact_run: "(printLogs pretty metachain)\<^sup>*\<^sup>* s s' \<Longrightarrow> exact s \<Longrightarrow> exact s'"
  by (induction rule: rtranclp_induct) (auto intro: exact_step)

text \<open>
  C33. No notification is lost and none is counted twice: however notifications come between the steps of the printing goroutine, the numbers of connections
  and of disconnections that were printed, with what was read and not printed yet and what the counters hold, add up to the numbers of the notifications, modulo
  \<open>2\<^sup>3\<^sup>2\<close>; and exactly so, as natural numbers, as long as fewer than \<open>2\<^sup>3\<^sup>2\<close> notifications have come.
\<close>

theorem connections_accounted:
  assumes "(printLogs pretty metachain)\<^sup>*\<^sup>* (print_init h) s"
  shows "of_nat (pr_connected s) = sum_list (map st_conns (pr_printed s)) + conns_held (pr_pc s) + numConnections (pr_metric s) \<and>
    of_nat (pr_disconnected s) = sum_list (map st_disconns (pr_printed s)) + disconns_held (pr_pc s) + numDisconnections (pr_metric s) \<and>
    (pr_connected s < 2 ^ 32 \<longrightarrow> total st_conns (pr_printed s) (conns_held (pr_pc s)) (numConnections (pr_metric s)) = pr_connected s) \<and>
    (pr_disconnected s < 2 ^ 32 \<longrightarrow>
       total st_disconns (pr_printed s) (disconns_held (pr_pc s)) (numDisconnections (pr_metric s)) = pr_disconnected s)"
proof -
  have "accounted (print_init h)" "exact (print_init h)"
    by (simp_all add: accounted_def exact_def total_def print_init_def NewConnectionsMetric_def conns_held_def disconns_held_def)
  then have "accounted s" "exact s" using accounted_run [OF assms] exact_run [OF assms] by blast+
  then show ?thesis unfolding accounted_def exact_def by blast
qed

lemma example_status:
  "\<exists>s. (printLogs pretty metachain)\<^sup>*\<^sup>* (print_init h) s \<and> pr_connected s = 2 \<and> map st_conns (pr_printed s) = [1] \<and> pr_pc s = AtPrintSelect"
proof -
  let ?R = "printLogs pretty metachain"
  define s1 where "s1 = with_metric (metric_Connected (pr_metric (print_init h))) ((print_init h)\<lparr>pr_connected := Suc (pr_connected (print_init h))\<rparr>)"
  define s2 where "s2 = with_metric ((pr_metric s1)\<lparr>numConnections := 0\<rparr>) (s1\<lparr>pr_pc := ConnsRead (numConnections (pr_metric s1))\<rparr>)"
  define s3 where "s3 = with_metric (metric_Connected (pr_metric s2)) (s2\<lparr>pr_connected := Suc (pr_connected s2)\<rparr>)"
  define s4 where "s4 = with_metric ((pr_metric s3)\<lparr>numDisconnections := 0\<rparr>)
    (s3\<lparr>pr_pc := BothRead (numConnections (pr_metric s1)) (numDisconnections (pr_metric s3))\<rparr>)"
  define s5 where "s5 = s4\<lparr>pr_pc := AtPrintSelect, pr_printed := pr_printed s4 @ [printConnectionsStatus pretty metachain
    \<lparr>nv_conns = [], nv_isConnected = (\<lambda>_. True), nv_peerstore = []\<rparr> (pr_handler s4) (numConnections (pr_metric s1)) (numDisconnections (pr_metric s3))]\<rparr>"
  note d = s1_def s2_def s3_def s4_def s5_def with_metric_def metric_defs print_init_def NewConnectionsMetric_def
  have "?R (print_init h) s1" unfolding s1_def by (rule notified_connected)
  moreover have "?R s1 s2" unfolding s2_def by (rule read_connections) (simp_all add: d)
  moreover have "?R s2 s3" unfolding s3_def by (rule notified_connected)
  moreover have "?R s3 s4" unfolding s4_def by (rule read_disconnections) (simp_all add: d)
  moreover have "?R s4 s5" unfolding s5_def by (rule print_status) (simp add: d)
  ultimately have "?R\<^sup>*\<^sup>* (print_init h) s5" by (meson rtranclp.rtrancl_refl rtranclp.rtrancl_into_rtrancl)
  then show ?thesis by (intro exI [of _ s5]) (simp add: d)
qed

definition example_connections_handler :: connectionsHandler where
  "example_connections_handler = \<lparr>ch_peersOnChannel = poc0, ch_peerShardResolver = (\<lambda>_. \<lparr>PeerType = UnknownPeer, ShardID = 0\<rparr>), ch_sharder = Lists example_sharder,
     ch_preferredPeersHolder = ph_new, ch_connMonitor = example_monitor, ch_numPeerDiscoverers = 0, ch_peerID = ''p'',
     ch_connectionsMetric = NewConnectionsMetric, protocolIDs = {}\<rparr>"

theorem connections_accounted_witness:
  "\<exists>s. (printLogs id 9)\<^sup>*\<^sup>* (print_init example_connections_handler) s \<and> pr_connected s = 2 \<and>
    total st_conns (pr_printed s) (conns_held (pr_pc s)) (numConnections (pr_metric s)) = 2"
proof -
  obtain s where s: "(printLogs id 9)\<^sup>*\<^sup>* (print_init example_connections_handler) s" "pr_connected s = 2"
    using example_status by blast
  show ?thesis using connections_accounted [OF s(1)] s by (intro exI [of _ s]) simp
qed

section \<open>Closing the cache of the peers of a topic\<close>

text \<open>The cache with its refreshing goroutine, which returns when the context is done.\<close>

record poc_system =
  po_state :: poc_state
  po_cancelled :: bool
  po_running :: bool

definition poc_Close :: "poc_system \<Rightarrow> p2p_error option \<times> poc_system" where
  "poc_Close s = (None, s\<lparr>po_cancelled := True\<rparr>)"

inductive poc_life :: "poc_system \<Rightarrow> poc_system \<Rightarrow> bool" where
  life_asked: "clock (po_state s) \<le> now \<Longrightarrow>
    ConnectedPeersOnChannel fetched now (cache (po_state s)) topic = (answer, poc) \<Longrightarrow>
    poc_life s (s\<lparr>po_state := (po_state s)\<lparr>cache := poc, clock := now,
      fetches := fetches (po_state s) @ (if poc_peers (cache (po_state s)) topic = None then [(topic, fetched, now)] else [])\<rparr>\<rparr>)"
| life_refreshed: "po_running s \<Longrightarrow> clock (po_state s) \<le> now \<Longrightarrow> distinct order \<Longrightarrow> set order = dom (lastUpdated (cache (po_state s))) \<Longrightarrow>
    \<forall>t. now \<le> snd (env t) \<and> snd (env t) \<le> later \<Longrightarrow>
    poc_life s (s\<lparr>po_state := (po_state s)\<lparr>cache := refreshPeersOnAllKnownTopics now env order (cache (po_state s)), clock := later, lastTurn := now,
      fetches := fetches (po_state s) @ map (\<lambda>t. (t, env t)) (topicsToBeRefreshed now order (cache (po_state s)))\<rparr>\<rparr>)"
| life_returns: "po_running s \<Longrightarrow> po_cancelled s \<Longrightarrow> poc_life s (s\<lparr>po_running := False\<rparr>)"
| life_closed: "poc_life s (snd (poc_Close s))"

lemma poc_life_step: "poc_life s s' \<Longrightarrow> po_state s' = po_state s \<or> poc_step (po_state s) (po_state s')"
  by (induction rule: poc_life.induct)
     (simp_all add: poc_Close_def poc_step.asked poc_step.background del: append_Nil2 split del: if_split)

text \<open>So what holds of the cache with a goroutine that never stops, in particular its invariant, holds while it is closed, too.\<close>

lemma poc_life_run:
  assumes "poc_life\<^sup>*\<^sup>* s s'"
  shows "poc_step\<^sup>*\<^sup>* (po_state s) (po_state s')"
  using assms
proof (induction rule: rtranclp_induct)
  case (step y z)
  then show ?case using poc_life_step [OF step(2)] by (auto intro: rtranclp.rtrancl_into_rtrancl)
qed simp

text \<open>Once the goroutine has returned, the answer for a topic that is known never changes again, however old it is.\<close>

lemma poc_frozen:
  assumes "poc_life\<^sup>*\<^sup>* s s'" "\<not> po_running s" "poc_peers (cache (po_state s)) t = Some ps"
  shows "\<not> po_running s' \<and> poc_peers (cache (po_state s')) t = Some ps"
  using assms
proof (induction rule: rtranclp_induct)
  case (step y z)
  have "\<not> po_running y" "poc_peers (cache (po_state y)) t = Some ps" using step by blast+
  with step(2) show ?case
    by cases (auto simp: ConnectedPeersOnChannel_def refreshPeersOnTopic_def updateConnectedPeersOnTopic_def poc_Close_def Let_def split: option.splits)
qed simp

section \<open>The sweeping goroutine of the watcher\<close>

record 'tc watcher_system =
  ws_watcher :: "'tc printConnectionsWatcher"
  ws_cancelled :: bool
  ws_goRoutineClosed :: bool
  ws_printed :: "(peer_id \<times> string) list"

definition watcher_Close :: "'tc watcher_system \<Rightarrow> p2p_error option \<times> 'tc watcher_system" where
  "watcher_Close s = (None, s\<lparr>ws_cancelled := True\<rparr>)"

definition logPrintHandler :: "(peer_id \<Rightarrow> string) \<Rightarrow> peer_id \<Rightarrow> string \<Rightarrow> string \<times> string" where
  "logPrintHandler pretty p connection = (pretty p, connection)"

inductive doSweep :: "'tc timecacher_ops \<Rightarrow> (peer_id \<Rightarrow> string) \<Rightarrow> bool \<Rightarrow> 'tc watcher_system \<Rightarrow> 'tc watcher_system \<Rightarrow> bool"
  for T :: "'tc timecacher_ops" and pretty :: "peer_id \<Rightarrow> string" where
  new_connection: "print_NewKnownConnection T pretty (ws_watcher s) p connection = (printed, w) \<Longrightarrow>
    doSweep T pretty False s (s\<lparr>ws_watcher := w, ws_printed := ws_printed s @ (case printed of None \<Rightarrow> [] | Some x \<Rightarrow> [x])\<rparr>)"
| sweep_turn: "\<not> ws_goRoutineClosed s \<Longrightarrow> doSweep T pretty True s (s\<lparr>ws_watcher := doSweep_turn T (ws_watcher s)\<rparr>)"
| sweep_over: "\<not> ws_goRoutineClosed s \<Longrightarrow> ws_cancelled s \<Longrightarrow> doSweep T pretty False s (s\<lparr>ws_goRoutineClosed := True\<rparr>)"
| watcher_closed: "doSweep T pretty False s (snd (watcher_Close s))"

text \<open>
  Between two sweeps of its cache the watcher prints a peer at most once, whatever connections of it and of others come in: after a printed connection, a run without a
  sweep prints the peer no more. The cache is one that has what was put and keeps it until a sweep.
\<close>

definition cached :: "'tc timecacher_ops \<Rightarrow> (peer_id \<Rightarrow> string) \<Rightarrow> peer_id \<Rightarrow> 'tc watcher_system \<Rightarrow> bool" where
  "cached T pretty p s \<longleftrightarrow> t_Has T (pcw_timeCacher (ws_watcher s)) (pretty p)"

lemma known_not_printed:
  assumes kept: "\<And>tc k d k'. t_Has T tc k \<Longrightarrow> t_Has T (snd (t_Upsert T tc k' d)) k"
    and "doSweep T pretty False s s'" "cached T pretty p s"
  shows "cached T pretty p s' \<and> filter (\<lambda>(q, _). q = p) (ws_printed s') = filter (\<lambda>(q, _). q = p) (ws_printed s)"
  using assms(2)
proof (cases rule: doSweep.cases)
  case (new_connection q connection printed w)
  obtain e tc where u: "t_Upsert T (pcw_timeCacher (ws_watcher s)) (pretty q) (pcw_timeToLive (ws_watcher s)) = (e, tc)" by fastforce
  then have "t_Has T tc (pretty p)" using kept assms(3) unfolding cached_def by (metis snd_conv)
  then show ?thesis using new_connection assms(3) u
    by (auto simp: cached_def print_NewKnownConnection_def Let_def split: if_splits option.splits)
qed (use assms(3) in \<open>auto simp: cached_def watcher_Close_def\<close>)

lemma known_not_printed_again:
  assumes "\<And>tc k d k'. t_Has T tc k \<Longrightarrow> t_Has T (snd (t_Upsert T tc k' d)) k"
    and "(doSweep T pretty False)\<^sup>*\<^sup>* s s'" "cached T pretty p s"
  shows "filter (\<lambda>(q, _). q = p) (ws_printed s') = filter (\<lambda>(q, _). q = p) (ws_printed s)"
proof -
  have "cached T pretty p s' \<and> filter (\<lambda>(q, _). q = p) (ws_printed s') = filter (\<lambda>(q, _). q = p) (ws_printed s)"
    using assms(2)
  proof (induction rule: rtranclp_induct)
    case (step s1 s2)
    then show ?case using known_not_printed [of T pretty s1 s2 p] assms(1) by auto
  qed (simp add: assms(3))
  then show ?thesis by blast
qed

text \<open>The notifications of the counters and of the watcher that do nothing.\<close>

definition metric_Listen :: "connectionsMetric \<Rightarrow> string \<Rightarrow> connectionsMetric" where
  "metric_Listen cm address = cm"

definition metric_ListenClose :: "connectionsMetric \<Rightarrow> string \<Rightarrow> connectionsMetric" where
  "metric_ListenClose cm address = cm"

end
