(* ===== verification/Conn_String.thy ===== *)
theory Conn_String
  imports Peers_Holder Ports
begin

text \<open>
  \<^verbatim>\<open>p2p/peersHolder/connectionStringValidator/connectionStringValidator.go\<close>: which texts are accepted as preferred connections, with \<^verbatim>\<open>net.ParseIP\<close> of the
  standard library written out; and what that means for the holder, which looks for these texts in the addresses of the peers that connect. Making a peer id of a text
  (\<^verbatim>\<open>core.NewPeerID\<close>) is an argument.
\<close>

section \<open>Parsing addresses\<close>

text \<open>Decimal and hexadecimal numbers: the value, the number of digits, and whether there is a number that is not too big.\<close>

definition big :: nat where "big = 16777215"

fun dtoi_loop :: "nat \<Rightarrow> nat \<Rightarrow> string \<Rightarrow> nat \<times> nat \<times> bool" where
  "dtoi_loop n i [] = (n, i, i \<noteq> 0)"
| "dtoi_loop n i (c # s) =
     (if is_digit c then
        let n1 = n * 10 + (of_char c - 48) in if n1 \<ge> big then (big, i, False) else dtoi_loop n1 (Suc i) s
      else (n, i, i \<noteq> 0))"

definition dtoi :: "string \<Rightarrow> nat \<times> nat \<times> bool" where
  "dtoi s = dtoi_loop 0 0 s"

definition hex_digit :: "char \<Rightarrow> nat option" where
  "hex_digit c = (let x = of_char c :: nat in
     if 48 \<le> x \<and> x \<le> 57 then Some (x - 48)
     else if 97 \<le> x \<and> x \<le> 102 then Some (x - 97 + 10)
     else if 65 \<le> x \<and> x \<le> 70 then Some (x - 65 + 10)
     else None)"

fun xtoi_loop :: "nat \<Rightarrow> nat \<Rightarrow> string \<Rightarrow> nat \<times> nat \<times> bool" where
  "xtoi_loop n i [] = (n, i, i \<noteq> 0)"
| "xtoi_loop n i (c # s) =
     (case hex_digit c of None \<Rightarrow> (n, i, i \<noteq> 0)
      | Some d \<Rightarrow> let n1 = n * 16 + d in if n1 \<ge> big then (0, i, False) else xtoi_loop n1 (Suc i) s)"

definition xtoi :: "string \<Rightarrow> nat \<times> nat \<times> bool" where
  "xtoi s = xtoi_loop 0 0 s"

text \<open>The loop over the four parts; the first of them has no dot before it.\<close>

fun parseIPv4_loop :: "nat \<Rightarrow> bool \<Rightarrow> string \<Rightarrow> bytes \<Rightarrow> bytes option" where
  "parseIPv4_loop 0 isFirst s p = (if s \<noteq> [] then None else Some p)"
| "parseIPv4_loop (Suc r) isFirst s p =
     (if s = [] then None
      else if \<not> isFirst \<and> hd s \<noteq> CHR ''.'' then None
      else
        let s1 = (if isFirst then s else tl s) in
        (case dtoi s1 of (n, c, ok) \<Rightarrow>
           if \<not> ok \<or> n > 255 then None
           else if c > 1 \<and> hd s1 = CHR ''0'' then None
           else parseIPv4_loop r False (drop c s1) (p @ [of_nat n])))"

definition parseIPv4 :: "string \<Rightarrow> bytes option" where
  "parseIPv4 s = parseIPv4_loop 4 True s []"

text \<open>
  The loop over the groups of an address of version 6: at most \<open>r\<close> groups are left, \<open>ip\<close> has the bytes read so far, \<open>ellipsis\<close> is their number where
  the two colons stood.
\<close>

fun parseIPv6_loop :: "nat \<Rightarrow> nat option \<Rightarrow> string \<Rightarrow> bytes \<Rightarrow> (bytes \<times> nat option \<times> string) option" where
  "parseIPv6_loop 0 ellipsis s ip = Some (ip, ellipsis, s)"
| "parseIPv6_loop (Suc r) ellipsis s ip =
     (case xtoi s of (n, c, ok) \<Rightarrow>
        if \<not> ok \<or> n > 65535 then None
        else if c < length s \<and> s ! c = CHR ''.'' then
          (if ellipsis = None \<and> length ip \<noteq> 12 then None
           else if length ip + 4 > 16 then None
           else (case parseIPv4 s of None \<Rightarrow> None | Some ip4 \<Rightarrow> Some (ip @ ip4, ellipsis, [])))
        else
          let ip1 = ip @ [of_nat (n div 256), of_nat n]; s1 = drop c s in
          if s1 = [] then Some (ip1, ellipsis, [])
          else if hd s1 \<noteq> CHR '':'' \<or> length s1 = 1 then None
          else
            let s2 = tl s1 in
            if hd s2 = CHR '':'' then
              (if ellipsis \<noteq> None then None
               else if tl s2 = [] then Some (ip1, Some (length ip1), [])
               else parseIPv6_loop r (Some (length ip1)) (tl s2) ip1)
            else parseIPv6_loop r ellipsis s2 ip1)"

definition parseIPv6 :: "string \<Rightarrow> bytes option" where
  "parseIPv6 s =
     (let leading = prefix ''::'' s; s1 = (if leading then drop 2 s else s) in
      if leading \<and> s1 = [] then Some (replicate 16 0)
      else (case parseIPv6_loop 8 (if leading then Some 0 else None) s1 [] of None \<Rightarrow> None
        | Some (ip, ellipsis, s2) \<Rightarrow>
          if s2 \<noteq> [] then None
          else if length ip < 16 then
            (case ellipsis of None \<Rightarrow> None | Some e \<Rightarrow> Some (take e ip @ replicate (16 - length ip) 0 @ drop e ip))
          else if ellipsis \<noteq> None then None
          else Some ip))"

definition v4InV6Prefix :: bytes where
  "v4InV6Prefix = replicate 10 0 @ [255, 255]"

definition ParseIP :: "string \<Rightarrow> bytes option" where
  "ParseIP s =
     (case find (\<lambda>c. c = CHR ''.'' \<or> c = CHR '':'') s of None \<Rightarrow> None
      | Some c \<Rightarrow> if c = CHR ''.'' then map_option ((@) v4InV6Prefix) (parseIPv4 s) else parseIPv6 s)"

section \<open>The validator\<close>

definition NewConnectionStringValidator :: unit where
  "NewConnectionStringValidator = ()"

definition isValidIP :: "string \<Rightarrow> bool" where
  "isValidIP connStr = (ParseIP connStr \<noteq> None)"

definition isValidPeerID :: "(string \<Rightarrow> string + peer_id) \<Rightarrow> string \<Rightarrow> bool" where
  "isValidPeerID newPeerID connStr = (case newPeerID connStr of Inl _ \<Rightarrow> False | Inr _ \<Rightarrow> True)"

definition validator_IsValid :: "(string \<Rightarrow> string + peer_id) \<Rightarrow> string \<Rightarrow> bool" where
  "validator_IsValid newPeerID connStr = IsValid isValidIP (isValidPeerID newPeerID) connStr"

text \<open>Some of the texts of the tests of the validator.\<close>

lemma parse_rounds:
  "parseIPv4 s = parseIPv4_loop (Suc (Suc (Suc (Suc 0)))) True s []"
  "parseIPv6_loop 8 = parseIPv6_loop (Suc (Suc (Suc (Suc (Suc (Suc (Suc (Suc 0))))))))"
  by (simp_all add: parseIPv4_def numeral_eq_Suc)

lemmas parse_defs = isValidIP_def ParseIP_def parse_rounds parseIPv6_def dtoi_def xtoi_def is_digit_def hex_digit_def big_def Let_def

lemma validator_tests:
  "isValidIP ''5.22.219.242''" "\<not> isValidIP ''a.b''" "\<not> isValidIP ''10.0.0''" "\<not> isValidIP ''01.2.3.4''" "isValidIP ''::1''"
  by (simp_all add: parse_defs)

section \<open>Addresses of version 4\<close>

text \<open>Digits are read up to the first character that is none.\<close>

lemma digits_value_Cons_ge: "digits_value (ds @ [c]) \<ge> digits_value ds"
  by (simp add: digits_value_snoc)

lemma digits_value_append_ge: "digits_value (ds @ es) \<ge> digits_value ds"
proof (induction es rule: rev_induct)
  case (snoc e es)
  then show ?case using digits_value_snoc [of "ds @ es" e] by simp
qed simp

lemma dtoi_loop_spec:
  assumes "list_all is_digit pre" "digits_value pre < big" "ds = pre @ takeWhile is_digit s"
  shows "if digits_value ds < big then dtoi_loop (digits_value pre) (length pre) s = (digits_value ds, length ds, ds \<noteq> [])
    else \<not> snd (snd (dtoi_loop (digits_value pre) (length pre) s))"
  using assms
proof (induction s arbitrary: pre)
  case (Cons c s)
  show ?case
  proof (cases "is_digit c")
    case True
    let ?pre = "pre @ [c]"
    have v: "digits_value pre * 10 + (of_char c - 48) = digits_value ?pre" by (simp add: digits_value_snoc)
    show ?thesis
    proof (cases "digits_value ?pre < big")
      case t: True
      then have eq: "dtoi_loop (digits_value pre) (length pre) (c # s) = dtoi_loop (digits_value ?pre) (length ?pre) s"
        using True v by (simp add: Let_def)
      show ?thesis unfolding eq by (rule Cons.IH) (use Cons(2,4) True t in simp_all)
    next
      case f: False
      have "digits_value ?pre \<le> digits_value ds"
        using digits_value_append_ge [of ?pre "takeWhile is_digit s"] Cons(4) True by simp
      then show ?thesis using True f v by (simp add: Let_def)
    qed
  qed (use Cons(3,4) in simp)
qed simp

lemma dtoi_iff:
  "dtoi s = (n, k, True) \<longleftrightarrow>
   (let ds = takeWhile is_digit s in ds \<noteq> [] \<and> digits_value ds < big \<and> n = digits_value ds \<and> k = length ds)"
proof -
  have e: "digits_value [] = 0" by (simp add: digits_value_def)
  have "digits_value [] < big" by (simp add: e big_def)
  from dtoi_loop_spec [OF _ this refl, of s] show ?thesis
    by (cases "digits_value (takeWhile is_digit s) < big") (auto simp: dtoi_def Let_def e)
qed

text \<open>Digits without a superfluous zero in front are the text of their value.\<close>

lemma digit_char: "is_digit c \<Longrightarrow> char_of (48 + ((of_char c :: nat) - 48)) = c"
  by (simp add: is_digit_def)

lemma zero_char: "(of_char c :: nat) = 48 \<longleftrightarrow> c = CHR ''0''"
proof -
  have "(of_char CHR ''0'' :: nat) = 48" by simp
  then show ?thesis using of_char_eq_iff [of c "CHR ''0''", where 'a = nat] by metis
qed

lemma digits_value_pos: "list_all is_digit ds \<Longrightarrow> ds \<noteq> [] \<Longrightarrow> hd ds \<noteq> CHR ''0'' \<Longrightarrow> 0 < digits_value ds"
proof (induction ds rule: rev_induct)
  case (snoc c ds)
  show ?case
  proof (cases ds)
    case Nil
    have "(of_char c :: nat) \<noteq> 48" using snoc(4) Nil zero_char by simp
    then show ?thesis using snoc(2) Nil by (auto simp: digits_value_def is_digit_def)
  next
    case (Cons d es)
    then show ?thesis using snoc digits_value_snoc [of ds c] by simp
  qed
qed simp

lemma show_digits:
  "list_all is_digit ds \<Longrightarrow> ds \<noteq> [] \<Longrightarrow> length ds = 1 \<or> hd ds \<noteq> CHR ''0'' \<Longrightarrow> show_nat (digits_value ds) = ds"
proof (induction ds rule: rev_induct)
  case (snoc c ds)
  let ?d = "(of_char c :: nat) - 48"
  have d: "is_digit c" "?d < 10" using snoc(2) by (auto simp: is_digit_def)
  show ?case
  proof (cases ds)
    case Nil
    then show ?thesis using d digit_char [of c] by (simp add: digits_value_def show_nat.simps [of ?d])
  next
    case (Cons e es)
    then have hd: "hd ds \<noteq> CHR ''0''" "list_all is_digit ds" "ds \<noteq> []" using snoc(2,4) by auto
    then have pos: "0 < digits_value ds" by (intro digits_value_pos)
    have "show_nat (digits_value (ds @ [c])) = show_nat (digits_value ds) @ [char_of (48 + ?d)]"
      using pos d(2) by (subst show_nat.simps) (simp add: digits_value_snoc)
    then show ?thesis using snoc.IH hd digit_char [OF d(1)] by simp
  qed
qed simp

lemma show_nat_head: "length (show_nat n) = 1 \<or> hd (show_nat n) \<noteq> CHR ''0''"
proof (induction n rule: show_nat.induct)
  case (1 n)
  show ?case
  proof (cases "n < 10")
    case False
    then have n: "show_nat n = show_nat (n div 10) @ [char_of (48 + n mod 10)]" by (subst show_nat.simps) simp
    have ne: "show_nat (n div 10) \<noteq> []" using show_nat_digits by blast
    have "hd (show_nat (n div 10)) \<noteq> CHR ''0''"
    proof (cases "n div 10 < 10")
      case True
      then have "show_nat (n div 10) = [char_of (48 + n div 10)]" by (subst show_nat.simps) simp
      moreover have "(of_char (char_of (48 + n div 10) :: char) :: nat) \<noteq> 48"
        using True False by simp
      ultimately show ?thesis unfolding zero_char by simp
    next
      case f: False
      then have "length (show_nat (n div 10)) \<noteq> 1"
        using show_nat_digits [of "n div 10 div 10"] by (subst show_nat.simps) simp
      then show ?thesis using 1 [OF False] by blast
    qed
    then show ?thesis using n ne by simp
  qed (simp add: show_nat.simps [of n])
qed

text \<open>One part of the address, as the loop reads it.\<close>

definition octet :: "string \<Rightarrow> (nat \<times> string) option" where
  "octet s = (case dtoi s of (n, c, ok) \<Rightarrow>
     if \<not> ok \<or> n > 255 then None else if c > 1 \<and> hd s = CHR ''0'' then None else Some (n, drop c s))"

definition no_digit :: "string \<Rightarrow> bool" where
  "no_digit s \<longleftrightarrow> s = [] \<or> \<not> is_digit (hd s)"

lemma takeWhile_digits: "list_all is_digit ds \<Longrightarrow> no_digit s \<Longrightarrow> takeWhile is_digit (ds @ s) = ds"
  by (cases s) (auto simp: no_digit_def list_all_iff)

lemma octet_iff: "octet s = Some (n, rest) \<longleftrightarrow> s = show_nat n @ rest \<and> n \<le> 255 \<and> no_digit rest"
proof
  assume o: "octet s = Some (n, rest)"
  obtain c where d: "dtoi s = (n, c, True)" "n \<le> 255" "c > 1 \<longrightarrow> hd s \<noteq> CHR ''0''" "rest = drop c s"
    using o by (auto simp: octet_def split: prod.splits if_splits)
  let ?ds = "takeWhile is_digit s"
  have ds: "?ds \<noteq> []" "n = digits_value ?ds" "c = length ?ds" using d(1) unfolding dtoi_iff Let_def by simp_all
  have "list_all is_digit ?ds" by (auto simp: list_all_iff dest: set_takeWhileD)
  moreover have "length ?ds = 1 \<or> hd ?ds \<noteq> CHR ''0''"
    using d(3) ds(1,3) by (cases s) (auto split: if_splits simp: length_Suc_conv neq_Nil_conv)
  ultimately have "show_nat n = ?ds" using show_digits [OF _ ds(1)] ds(2) by simp
  moreover have "rest = dropWhile is_digit s" using d(4) ds(3) by (simp add: dropWhile_eq_drop)
  moreover have "no_digit (dropWhile is_digit s)" using hd_dropWhile [of is_digit s] by (auto simp: no_digit_def)
  ultimately show "s = show_nat n @ rest \<and> n \<le> 255 \<and> no_digit rest" using d(2) by simp
next
  assume r: "s = show_nat n @ rest \<and> n \<le> 255 \<and> no_digit rest"
  have t: "takeWhile is_digit s = show_nat n" using r takeWhile_digits show_nat_digits [of n] by simp
  have "dtoi s = (n, length (show_nat n), True)"
    unfolding dtoi_iff Let_def t using r show_nat_digits [of n] by (simp add: big_def)
  moreover have "\<not> (length (show_nat n) > 1 \<and> hd s = CHR ''0'')"
    using r show_nat_head [of n] show_nat_digits [of n] by (auto simp: hd_append)
  ultimately show "octet s = Some (n, rest)" using r by (auto simp: octet_def)
qed

lemma parseIPv4_octet:
  "parseIPv4_loop (Suc r) isFirst s p =
   (if s = [] \<or> \<not> isFirst \<and> hd s \<noteq> CHR ''.'' then None
    else case octet (if isFirst then s else tl s) of None \<Rightarrow> None
      | Some (n, rest) \<Rightarrow> parseIPv4_loop r False rest (p @ [of_nat n]))"
  by (auto simp: octet_def Let_def split: prod.splits)

declare parseIPv4_loop.simps(2) [simp del]

definition tail_text :: "bytes \<Rightarrow> string" where
  "tail_text q = concat (map (\<lambda>b. CHR ''.'' # show_nat (unat b)) q)"

fun ipv4_text :: "bytes \<Rightarrow> string" where
  "ipv4_text [] = []"
| "ipv4_text (b # q) = show_nat (unat b) @ tail_text q"

lemma no_digit_tail: "no_digit (tail_text q)"
  by (cases q) (simp_all add: no_digit_def tail_text_def is_digit_def)

lemma octet_byte: "octet (show_nat (unat (b :: byte)) @ tail_text q) = Some (unat b, tail_text q)"
proof -
  have "unat b \<le> 255" using unat_byte_less [of b] by linarith
  then show ?thesis by (simp add: octet_iff no_digit_tail)
qed

lemma tail_parsed: "parseIPv4_loop r False s p = Some q \<longleftrightarrow> (\<exists>q'. length q' = r \<and> q = p @ q' \<and> s = tail_text q')"
proof (induction r arbitrary: s p)
  case 0
  then show ?case by (auto simp: tail_text_def)
next
  case (Suc r)
  show ?case
  proof
    assume "parseIPv4_loop (Suc r) False s p = Some q"
    then obtain n rest where o: "s \<noteq> []" "hd s = CHR ''.''" "octet (tl s) = Some (n, rest)" "parseIPv4_loop r False rest (p @ [of_nat n]) = Some q"
      unfolding parseIPv4_octet by (auto split: if_splits option.splits)
    then obtain q' where q': "length q' = r" "q = (p @ [of_nat n]) @ q'" "rest = tail_text q'" using Suc by blast
    have "n \<le> 255" "tl s = show_nat n @ rest" using o(3) by (simp_all add: octet_iff)
    then have "s = tail_text (of_nat n # q')" using o(1,2) q'(3) by (cases s) (simp_all add: tail_text_def unat_of_nat)
    then show "\<exists>q'. length q' = Suc r \<and> q = p @ q' \<and> s = tail_text q'" using q' by (intro exI [of _ "of_nat n # q'"]) simp
  next
    assume "\<exists>q'. length q' = Suc r \<and> q = p @ q' \<and> s = tail_text q'"
    then obtain b q' where q': "length q' = r" "q = p @ b # q'" "s = CHR ''.'' # show_nat (unat b) @ tail_text q'"
      by (auto simp: length_Suc_conv tail_text_def)
    then show "parseIPv4_loop (Suc r) False s p = Some q"
      using Suc [of "tail_text q'" "p @ [b]"] by (auto simp: parseIPv4_octet octet_byte)
  qed
qed

text \<open>An address of version 4 is parsed exactly when it is the text of its four bytes.\<close>

lemma parseIPv4_iff: "parseIPv4 s = Some q \<longleftrightarrow> length q = 4 \<and> s = ipv4_text q"
proof
  assume "parseIPv4 s = Some q"
  then obtain n rest where o: "octet s = Some (n, rest)" "parseIPv4_loop 3 False rest [of_nat n] = Some q"
    unfolding parseIPv4_def using parseIPv4_octet [of 3 True s "[]"] by (auto split: if_splits option.splits)
  then obtain q' where q': "length q' = 3" "q = of_nat n # q'" "rest = tail_text q'" unfolding tail_parsed by auto
  then show "length q = 4 \<and> s = ipv4_text q" using o(1) by (simp add: octet_iff unat_of_nat)
next
  assume "length q = 4 \<and> s = ipv4_text q"
  then obtain b q' where q': "length q' = 3" "q = b # q'" "s = show_nat (unat b) @ tail_text q'"
    by (cases q) auto
  have "parseIPv4_loop 3 False (tail_text q') [b] = Some q" unfolding tail_parsed using q'(1,2) by auto
  moreover have "s \<noteq> []" using q'(3) show_nat_digits by simp
  ultimately show "parseIPv4 s = Some q"
    unfolding parseIPv4_def using parseIPv4_octet [of 3 True s "[]"] q'(3) octet_byte [of b q'] by simp
qed

lemma show_nat_digit_chars: "c \<in> set (show_nat n) \<Longrightarrow> is_digit c"
  using show_nat_digits [of n] by (auto simp: list_all_iff)

lemma tail_chars: "c \<in> set (tail_text q) \<Longrightarrow> is_digit c \<or> c = CHR ''.''"
  unfolding tail_text_def by (induction q) (auto dest: show_nat_digit_chars)

lemma text_chars: "c \<in> set (ipv4_text q) \<Longrightarrow> is_digit c \<or> c = CHR ''.''"
  by (cases q) (auto dest: show_nat_digit_chars tail_chars)

lemma text_dot: "length q > 1 \<Longrightarrow> CHR ''.'' \<in> set (ipv4_text q)"
proof (cases q)
  case (Cons a q')
  moreover assume "length q > 1"
  ultimately show ?thesis by (cases q') (simp_all add: tail_text_def)
qed simp

lemma no_colon: "CHR '':'' \<notin> set (ipv4_text q)"
  using text_chars [of "CHR '':''" q] by (auto simp: is_digit_def)

lemma find_separator:
  assumes "CHR '':'' \<notin> set s"
  shows "find (\<lambda>c. c = CHR ''.'' \<or> c = CHR '':'') s = (if CHR ''.'' \<in> set s then Some CHR ''.'' else None)"
  using assms by (induction s) auto

lemma ipv4_parsed_rule:
  assumes "CHR '':'' \<notin> set s"
  shows "ParseIP s = Some ip \<longleftrightarrow> (\<exists>q. length q = 4 \<and> s = ipv4_text q \<and> ip = v4InV6Prefix @ q)"
proof (cases "CHR ''.'' \<in> set s")
  case True
  then show ?thesis using find_separator [OF assms] by (auto simp: ParseIP_def parseIPv4_iff)
next
  case False
  then have "ParseIP s = None" using find_separator [OF assms] by (simp add: ParseIP_def)
  moreover have "s \<noteq> ipv4_text q" if "length q = 4" for q using False text_dot [of q] that by auto
  ultimately show ?thesis by auto
qed

lemma digit_chars:
  "char_of (48 :: nat) = CHR ''0''" "char_of (49 :: nat) = CHR ''1''"
  by code_simp+

text \<open>
  Which texts without a colon are addresses: exactly the decimal texts of four bytes, separated by dots and without superfluous zeros, and such a text is
  parsed to these bytes (after the prefix that marks version 4). So two texts never stand for the same address of version 4.
\<close>

theorem ipv4_parsed:
  assumes "CHR '':'' \<notin> set s"
  shows "ParseIP s = Some ip \<longleftrightarrow> (\<exists>q. length q = 4 \<and> s = ipv4_text q \<and> ip = v4InV6Prefix @ q)"
  by (rule ipv4_parsed_rule [OF assms])

theorem ipv4_parsed_witness:
  "ParseIP (ipv4_text [10, 0, 0, 1]) = Some (v4InV6Prefix @ [10, 0, 0, 1]) \<and> ipv4_text [10, 0, 0, 1] = ''10.0.0.1''"
proof -
  have "ipv4_text [10, 0, 0, 1] = ''10.0.0.1''" by (simp add: tail_text_def show_nat.simps digit_chars)
  moreover have "\<exists>q. length q = 4 \<and> ipv4_text [10, 0, 0, 1] = ipv4_text q \<and> v4InV6Prefix @ [10, 0, 0, 1] = v4InV6Prefix @ q"
    by (rule exI [of _ "[10, 0, 0, 1]"]) simp
  ultimately show ?thesis using ipv4_parsed [OF no_colon, of "[10, 0, 0, 1]"] by blast
qed



section \<open>Preferred addresses\<close>

text \<open>The helpers of \<^verbatim>\<open>Remove\<close>.\<close>

definition getShardAndIndexForPeer :: "peersHolder \<Rightarrow> peer_id \<Rightarrow> uint32 \<times> nat \<times> bool" where
  "getShardAndIndexForPeer ph p =
     (case peerIDs ph p of None \<Rightarrow> (0, 0, False) | Some pidData \<Rightarrow> (shardID pidData, index pidData, True))"

lemma Remove_shard_index:
  assumes "getShardAndIndexForPeer ph p = (s, i, ok)"
  shows "Remove ph p = None \<longleftrightarrow> ok \<and> removePeerFromMapAtIndex ph s i = None"
  using assms by (auto simp: getShardAndIndexForPeer_def Remove_def Let_def split: option.splits Option.bind_splits)

lemma show_nat_digit: "0 < n \<Longrightarrow> k < 10 \<Longrightarrow> show_nat (10 * n + k) = show_nat n @ [char_of (48 + k)]"
  by (subst show_nat.simps) simp

lemma next_digit_text:
  assumes "0 < d" "k < 10" "10 * unat d + k < 256"
  shows "ipv4_text [a, b, c, of_nat (10 * unat d + k)] = ipv4_text [a, b, c, d] @ [char_of (48 + k)]"
proof -
  have "0 < unat d" using assms(1) by (simp add: unat_gt_0)
  moreover have "unat (of_nat (10 * unat d + k) :: byte) = 10 * unat d + k" using assms(3) by (simp only: unat_of_nat) simp
  ultimately show ?thesis using show_nat_digit [OF _ assms(2), of "unat d"] by (simp add: tail_text_def)
qed

text \<open>
  The holder looks for a preferred address as a part of the text of the connection. Since the text of an address can be the beginning of the text of another one, a
  peer that connects from another valid address, whose last number has one more digit, is taken for a peer of the preferred address: it is put
  among those that wait for their shard, and becomes a preferred peer when its shard is known.
\<close>

theorem preferred_address_prefix:
  assumes "0 < d" "k < 10" "10 * unat d + k < 256"
    and "NewPeersHolder isValidIP newPeerID [ipv4_text [a, b, c, d]] = Inr ph"
  shows "let other = ipv4_text [a, b, c, of_nat (10 * unat d + k)];
             ph1 = PutConnectionAddress allShardId ph p (''/ip4/'' @ other @ rest)
    in isValidIP other \<and> ParseIP other \<noteq> ParseIP (ipv4_text [a, b, c, d]) \<and>
       tempPeerIDsWaitingForShard ph1 p = Some (ipv4_text [a, b, c, d]) \<and> Contains (PutShardID ph1 p shard) p"
proof -
  let ?t = "ipv4_text [a, b, c, d]" and ?e = "of_nat (10 * unat d + k) :: byte"
  let ?o = "ipv4_text [a, b, c, ?e]"
  have parsed: "ParseIP (ipv4_text [a, b, c, x]) = Some (v4InV6Prefix @ [a, b, c, x])" for x
    unfolding ipv4_parsed_rule [OF no_colon] by (intro exI [of _ "[a, b, c, x]"]) simp
  have "unat ?e = 10 * unat d + k" using assms(3) by (simp only: unat_of_nat) simp
  then have "unat ?e \<noteq> unat d" using assms(1) unat_gt_0 [of d] by (auto simp only: word_neq_0_conv)
  then have ne: "?e \<noteq> d" by metis
  have "sublist ?t (''/ip4/'' @ ?o @ rest)"
    unfolding next_digit_text [OF assms(1-3)] sublist_def by (intro exI [of _ "''/ip4/''"] exI [of _ "[char_of (48 + k)] @ rest"]) simp
  then have sub: "str_contains (''/ip4/'' @ ?o @ rest) ?t" by (simp only: str_contains_iff)
  have ph: "ph = \<lparr>preferredConnAddresses = [?t], connAddrToPeersInfo = [?t \<mapsto> []], tempPeerIDsWaitingForShard = Map.empty,
      peerIDsPerShard = Map.empty, peerIDs = Map.empty\<rparr>"
    using assms(4) parsed [of d] by (simp add: NewPeersHolder_def IsValid_def isValidIP_def split: if_splits)
  have t: "?t \<noteq> []" using show_nat_digits by simp
  have known: "getKnownConnection ph (''/ip4/'' @ ?o @ rest) = ?t" using sub by (simp add: getKnownConnection_def ph del: ipv4_text.simps append.simps)
  have put: "PutConnectionAddress allShardId ph p (''/ip4/'' @ ?o @ rest) = addNewPeerInfoToMaps allShardId ph p ?t"
    unfolding PutConnectionAddress_def Let_def known using t by (simp add: ph slice_at_def del: ipv4_text.simps)
  show ?thesis unfolding Let_def put
    using ne by (simp add: parsed isValidIP_def addNewPeerInfoToMaps_def PutShardID_def Contains_def ph slice_at_def Let_def del: ipv4_text.simps)
qed

theorem preferred_address_prefix_witness:
  "\<exists>ph. NewPeersHolder isValidIP (\<lambda>_. False) [ipv4_text [1, 2, 3, 4]] = Inr ph \<and>
    (let other = ipv4_text [1, 2, 3, 45]; ph1 = PutConnectionAddress 0 ph ''p'' (''/ip4/'' @ other @ ''/tcp/1'')
     in isValidIP other \<and> ParseIP other \<noteq> ParseIP (ipv4_text [1, 2, 3, 4]) \<and>
       tempPeerIDsWaitingForShard ph1 ''p'' = Some (ipv4_text [1, 2, 3, 4]) \<and> Contains (PutShardID ph1 ''p'' 2) ''p'')"
proof -
  have "ParseIP (ipv4_text [1, 2, 3, 4]) = Some (v4InV6Prefix @ [1, 2, 3, 4])"
    unfolding ipv4_parsed_rule [OF no_colon] by (rule exI [of _ "[1, 2, 3, 4]"]) simp
  then have "isValidIP (ipv4_text [1, 2, 3, 4])" by (simp add: isValidIP_def del: ipv4_text.simps)
  then obtain ph where ph: "NewPeersHolder isValidIP (\<lambda>_. False) [ipv4_text [1, 2, 3, 4]] = Inr ph"
    by (simp add: NewPeersHolder_def IsValid_def del: ipv4_text.simps)
  have "(of_nat (10 * unat (4 :: byte) + 5) :: byte) = 45" by simp
  then show ?thesis using preferred_address_prefix [of 4 5 "\<lambda>_. False" 1 2 3 ph 0 "''p''" "''/tcp/1''" 2, OF _ _ _ ph] ph
    by (intro exI [of _ ph]) (simp del: ipv4_text.simps)
qed

end
