(* ===== verification/Messenger_Tools.thy ===== *)
theory Messenger_Tools
  imports Net_Messenger Rating_Monitor
begin

text \<open>
  What a messenger reports of itself and of its messages: the getters of \<^verbatim>\<open>message/message.go\<close> and the texts of \<^verbatim>\<open>p2p/interface.go\<close>, the records that \<^verbatim>\<open>libp2p/messagesHandler.go\<close> gives to
  its debugger, the loggers of the external packages and the listening addresses of \<^verbatim>\<open>libp2p/netMessenger.go\<close>; the components that do nothing
  (\<^verbatim>\<open>libp2p/disabled\<close>, \<^verbatim>\<open>discovery/nilDiscoverer.go\<close>, \<^verbatim>\<open>networksharding/nilListSharder.go\<close>); and the messengers for tests
  (\<^verbatim>\<open>libp2p/mockMessenger.go\<close>, \<^verbatim>\<open>libp2p/testNetMessenger.go\<close>).
\<close>

section \<open>Messages\<close>

definition message_From :: "Message \<Rightarrow> bytes" where "message_From m = FromField m"
definition message_Data :: "Message \<Rightarrow> bytes" where "message_Data m = DataField m"
definition message_Payload :: "Message \<Rightarrow> bytes" where "message_Payload m = PayloadField m"
definition message_SeqNo :: "Message \<Rightarrow> bytes" where "message_SeqNo m = SeqNoField m"
definition message_Topic :: "Message \<Rightarrow> string" where "message_Topic m = TopicField m"
definition message_Signature :: "Message \<Rightarrow> bytes" where "message_Signature m = SignatureField m"
definition message_Key :: "Message \<Rightarrow> bytes option" where "message_Key m = KeyField m"
definition message_Peer :: "Message \<Rightarrow> peer_id" where "message_Peer m = PeerField m"
definition message_Timestamp :: "Message \<Rightarrow> int64" where "message_Timestamp m = TimestampField m"
definition message_BroadcastMethod :: "Message \<Rightarrow> BroadcastMethod" where "message_BroadcastMethod m = BroadcastMethodField m"

lemmas message_getters = message_From_def message_Data_def message_Payload_def message_SeqNo_def message_Topic_def message_Signature_def
  message_Key_def message_Peer_def message_Timestamp_def message_BroadcastMethod_def

text \<open>\<^verbatim>\<open>hex.EncodeToString\<close>: two lower-case digits per byte.\<close>

definition hex_char :: "nat \<Rightarrow> char" where
  "hex_char n = char_of (if n < 10 then 48 + n else 87 + n)"

definition hex_encode :: "bytes \<Rightarrow> string" where
  "hex_encode bs = concat (map (\<lambda>b. [hex_char (unat b div 16), hex_char (unat b mod 16)]) bs)"

definition MessageOriginatorPid :: "(peer_id \<Rightarrow> string) \<Rightarrow> Message \<Rightarrow> string" where
  "MessageOriginatorPid pretty msg = PeerIdToShortString pretty (message_Peer msg)"

definition MessageOriginatorSeq :: "Message \<Rightarrow> string" where
  "MessageOriginatorSeq msg = hex_encode (message_SeqNo msg)"

lemma hex_char_inj:
  assumes "n < 16" "k < 16" "hex_char n = hex_char k"
  shows "n = k"
proof -
  have c: "(of_char (hex_char m) :: nat) = (if m < 10 then 48 + m else 87 + m)" if "m < 16" for m
    using that unfolding hex_char_def by (simp only: of_char_of) simp
  have "(if n < 10 then 48 + n else 87 + n) = (if k < 10 then 48 + k else 87 + k)"
    unfolding c [OF assms(1), symmetric] c [OF assms(2), symmetric] assms(3) ..
  then show ?thesis using assms(1,2) by (simp split: if_splits)
qed

lemma byte_hex: "unat (b :: byte) div 16 = unat c div 16 \<Longrightarrow> unat b mod 16 = unat c mod 16 \<Longrightarrow> b = c"
  by (metis div_mult_mod_eq word_unat_eq_iff)

text \<open>Different sequence numbers have different texts.\<close>

lemma hex_encode_inj: "hex_encode bs = hex_encode cs \<Longrightarrow> bs = cs"
proof (induction bs arbitrary: cs)
  case Nil
  then show ?case by (cases cs) (simp_all add: hex_encode_def)
next
  case (Cons b bs)
  obtain c cs' where cs: "cs = c # cs'" using Cons(2) by (cases cs) (simp_all add: hex_encode_def)
  have lt: "unat x div 16 < 16" "unat x mod 16 < 16" for x :: byte using unat_byte_less [of x] by linarith+
  have h: "hex_char (unat b div 16) = hex_char (unat c div 16)" "hex_char (unat b mod 16) = hex_char (unat c mod 16)"
    and r: "hex_encode bs = hex_encode cs'"
    using Cons(2) cs by (simp_all add: hex_encode_def)
  have "b = c" by (rule byte_hex [OF hex_char_inj [OF lt(1) lt(1) h(1)] hex_char_inj [OF lt(2) lt(2) h(2)]])
  then show ?case using Cons(1) [OF r] cs by simp
qed

section \<open>Records of the debugger\<close>

datatype debug_entry =
    AddIncomingMessage string nat bool
  | AddOutgoingMessage string nat bool

definition processDebugMessage :: "peer_id \<Rightarrow> string \<Rightarrow> peer_id \<Rightarrow> nat \<Rightarrow> bool \<Rightarrow> debug_entry" where
  "processDebugMessage self topic fromConnectedPeer sz isRejected =
     (if fromConnectedPeer = self then AddOutgoingMessage topic sz isRejected else AddIncomingMessage topic sz isRejected)"

text \<open>
  What the debugger gets when a broadcast message arrives: nothing for a message that cannot be read; the size of the payload when the time stamp is refused; otherwise the size of
  the data of pubsub, with the verdict of the processors.
\<close>

definition pubsub_debug ::
    "('ps, 'ev, 'c) mh_env \<Rightarrow> topicProcessors \<Rightarrow> int64 \<Rightarrow> peer_id \<Rightarrow> string \<Rightarrow> pubsubMessage \<Rightarrow> debug_entry list" where
  "pubsub_debug E topicProcs now p topic message =
     (case NewMessage (h_idFromBytes E) (Some (h_marshaller E)) (Some message) Broadcast of Inl _ \<Rightarrow> []
      | Inr msg \<Rightarrow>
        (case checkMessage now msg of
           Some _ \<Rightarrow> [processDebugMessage (h_peerID E) topic p (length (message_Data msg)) True]
         | None \<Rightarrow>
           let messageOk = runProcessors (snd (GetList topicProcs)) msg p
           in [processDebugMessage (h_peerID E) topic p (length (pb_Data message)) (\<not> messageOk)]))"

definition direct_debug :: "('ps, 'ev, 'c) mh_env \<Rightarrow> ('ps, 'ev, 'c) messagesHandler \<Rightarrow> int64 \<Rightarrow> Message \<Rightarrow> peer_id \<Rightarrow> debug_entry list" where
  "direct_debug E h now msg p =
     (case checkMessage now msg of
        Some _ \<Rightarrow> [processDebugMessage (h_peerID E) (message_Topic msg) p (length (message_Data msg)) True]
      | None \<Rightarrow> (case topicProcs_at h (message_Topic msg) of None \<Rightarrow> []
        | Some tp \<Rightarrow>
          let messageOk = runProcessors (snd (GetList tp)) msg p
          in [AddIncomingMessage (message_Topic msg) (length (message_Data msg)) (\<not> messageOk)]))"

definition send_debug :: "string \<Rightarrow> bytes \<Rightarrow> p2p_error option \<Rightarrow> debug_entry" where
  "send_debug topic buffToSend err = AddOutgoingMessage topic (length buffToSend) (err \<noteq> None)"

definition rejected :: "debug_entry \<Rightarrow> bool" where
  "rejected e = (case e of AddIncomingMessage _ _ r \<Rightarrow> r | AddOutgoingMessage _ _ r \<Rightarrow> r)"

text \<open>
  The debugger agrees with the validator: a broadcast message is recorded at most once, it is recorded exactly when it can be read, as rejected exactly when the validator
  refuses it; so every accepted message is recorded as accepted.
\<close>

lemma debug_agrees:
  "let (ok, h1) = pubsubCallback E topicProcs h now p (Some message); es = pubsub_debug E topicProcs now p topic message
   in length es \<le> 1 \<and> (ok \<longleftrightarrow> (\<exists>e \<in> set es. \<not> rejected e)) \<and>
      (es = [] \<longleftrightarrow> (\<exists>err. NewMessage (h_idFromBytes E) (Some (h_marshaller E)) (Some message) Broadcast = Inl err))"
  by (auto simp: pubsubCallback_def transformAndCheckMessage_def pubsub_debug_def processDebugMessage_def rejected_def Let_def
      split: sum.splits option.splits if_splits prod.splits)

text \<open>What the disabled debugger and evaluator do.\<close>

definition NewP2PDebugger :: "debug_entry list" where "NewP2PDebugger = []"

definition disabled_Add :: "debug_entry list \<Rightarrow> debug_entry \<Rightarrow> debug_entry list" where
  "disabled_Add debugger e = debugger"

definition disabled_debugger_Close :: "p2p_error option" where "disabled_debugger_Close = None"

definition disabled_IsDenied :: "peer_id \<Rightarrow> bool" where "disabled_IsDenied p = False"

definition disabled_UpsertPeerID :: "peer_id \<Rightarrow> int \<Rightarrow> p2p_error option" where "disabled_UpsertPeerID p duration = None"

lemma new_monitor_denies_nobody:
  "NewLibp2pConnectionMonitorSimple args = Inr lcms \<Longrightarrow> peerDenialEvaluator lcms = disabled_IsDenied"
  by (auto simp: NewLibp2pConnectionMonitorSimple_def disabled_IsDenied_def fun_eq_iff split: option.splits)

section \<open>Sharders and discoverers that do nothing\<close>

definition NewNilListSharder :: sharder where "NewNilListSharder = NilList"

definition nil_Has :: "peer_id \<Rightarrow> peer_id list \<Rightarrow> bool" where "nil_Has p list = False"

definition nil_SetPeerShardResolver :: "(peer_id \<Rightarrow> PeerInfo) option \<Rightarrow> p2p_error option" where "nil_SetPeerShardResolver resolver = None"

definition nil_SetSeeders :: "string list \<Rightarrow> sharder" where "nil_SetSeeders seeders = NilList"

definition nil_IsSeeder :: "peer_id \<Rightarrow> bool" where "nil_IsSeeder p = False"

lemma nil_sharder:
  "sharder_Has NewNilListSharder p ps = nil_Has p ps" "sharder_IsSeeder pretty NewNilListSharder p = nil_IsSeeder p"
  "sharder_SetSeeders NewNilListSharder seeders = nil_SetSeeders seeders"
  "sharder_ComputeEvictionList srt pretty NewNilListSharder ps = Some []"
  by (simp_all add: sharder_Has_iff NewNilListSharder_def nil_Has_def sharder_IsSeeder_def nil_IsSeeder_def sharder_SetSeeders_def
      nil_SetSeeders_def sharder_ComputeEvictionList_def NilList_ComputeEvictionList_def)

definition NewNilDiscoverer :: peerDiscoverer where "NewNilDiscoverer = NilDiscoverer"

definition nil_Bootstrap :: "p2p_error option" where "nil_Bootstrap = None"

definition discoverer_Name :: "peerDiscoverer \<Rightarrow> string" where
  "discoverer_Name d = (case d of NilDiscoverer \<Rightarrow> ''no peer discovery'' | LegacyDiscoverer _ \<Rightarrow> ''kad-dht discovery''
     | OptimizedDiscoverer _ \<Rightarrow> ''optimized kad-dht discovery'')"

text \<open>Whether the error of a seeder is only traced.\<close>

definition printConnectionErrorToSeeder :: "p2p_error \<Rightarrow> bool" where
  "printConnectionErrorToSeeder err = (err = ErrUnwantedPeer)"

text \<open>
  The request of the monitor to the optimized discoverer is offered on a channel that the process loop reads in its select, and given up when the loop is busy. What it
  causes is a step of the loop.
\<close>

definition od_ReconnectToNetwork :: "'n disc_env \<Rightarrow> bool \<Rightarrow> (nat \<Rightarrow> bool) \<Rightarrow> 'n od_state \<Rightarrow> 'n od_state option" where
  "od_ReconnectToNetwork E loopWaits ctxDone s =
     (if loopRunning s \<and> loopWaits
      then map_option (\<lambda>(ch, n1). s\<lparr>net := n1, reconnectIn := ch\<rparr>) (processSeedersReconnect E ctxDone (od s) (net s))
      else Some s)"

lemma od_reconnect_step:
  "od_ReconnectToNetwork E loopWaits ctxDone s = Some s' \<Longrightarrow> s' = s \<or> od_step E s s'"
  by (auto simp: od_ReconnectToNetwork_def split: if_splits intro: od_step.seeders)

section \<open>The messenger\<close>

definition messenger_ID :: "('sk, 'pk, 'w) p2pNode \<Rightarrow> peer_id" where "messenger_ID node = nm_hostID node"

definition messenger_Port :: "('sk, 'pk, 'w) p2pNode \<Rightarrow> int" where "messenger_Port node = nm_port node"

definition messenger_printLogs :: "(peer_id \<Rightarrow> string) \<Rightarrow> ('sk, 'pk, 'w) p2pNode \<Rightarrow> string list \<Rightarrow> string list" where
  "messenger_printLogs pretty node addrs =
     concat (map (\<lambda>(i, address). [''addr'' @ show_nat i, address @ ''/p2p/'' @ pretty (messenger_ID node)]) (enumerate 0 addrs))"

text \<open>The levels of the loggers of libp2p; \<open>level\<close> is the level of a logger of the node, with the level of traces.\<close>

definition externalPackages :: "string list" where
  "externalPackages = [''dht'', ''nat'', ''basichost'', ''pubsub'']"

definition created_loggers :: "string list" where
  "created_loggers = map (\<lambda>external. ''external/'' @ external) externalPackages"

definition setupExternalP2PLoggers :: "(string \<Rightarrow> nat) \<Rightarrow> nat \<Rightarrow> (string \<Rightarrow> string) \<Rightarrow> string \<Rightarrow> string" where
  "setupExternalP2PLoggers level LogTrace levels =
     foldl (\<lambda>levels external. if level (''external/'' @ external) > LogTrace then levels else levels(external := ''DEBUG''))
       (\<lambda>_. ''PANIC'') externalPackages"

lemma external_levels:
  "setupExternalP2PLoggers level LogTrace levels p =
   (if p \<in> set externalPackages \<and> level (''external/'' @ p) \<le> LogTrace then ''DEBUG'' else ''PANIC'')"
  by (simp add: setupExternalP2PLoggers_def externalPackages_def)

text \<open>The goroutine that sets the levels again and again, until the context is done.\<close>

inductive checkExternalLoggers :: "(string \<Rightarrow> string) \<times> bool \<times> bool \<Rightarrow> (string \<Rightarrow> string) \<times> bool \<times> bool \<Rightarrow> bool" where
  set_levels: "checkExternalLoggers (levels, ctxDone, False) (setupExternalP2PLoggers level LogTrace levels, ctxDone, False)"
| loggers_over: "checkExternalLoggers (levels, True, False) (levels, True, True)"

text \<open>Probing a port: resolving the local address and listening on it.\<close>

definition checkFreePort :: "(string \<Rightarrow> string + 'a) \<Rightarrow> ('a \<Rightarrow> string option) \<Rightarrow> int \<Rightarrow> string option" where
  "checkFreePort resolveTCPAddr listenTCP port =
     (case resolveTCPAddr (''localhost:'' @ show_int port) of Inl err \<Rightarrow> Some err
      | Inr addr \<Rightarrow> listenTCP addr)"

section \<open>Messengers for tests\<close>

definition NewTestNetMessenger ::
    "('lsk, 'w, 'ps, 'tc) nm_env \<Rightarrow> ('lsk, 'lpk, 'sk, 'pk, 'c) ArgsNetworkMessenger
     \<Rightarrow> (nm_error option + ('sk, 'pk, 'w) p2pNode \<times> ('ps, 'c, 'tc) nm_components) \<times> resources" where
  "NewTestNetMessenger E args = NewNetworkMessenger E args"

definition test_ClosePeer :: "(peer_id \<Rightarrow> p2p_error option) \<Rightarrow> peer_id \<Rightarrow> p2p_error option" where
  "test_ClosePeer closePeer p = closePeer p"

text \<open>\<open>mockNet\<close> is what its \<^verbatim>\<open>GenPeer\<close> answers. The messenger has no port, does not sign and its watcher has a logger.\<close>

definition NewMockMessenger ::
    "('lsk, 'w, 'ps, 'tc) nm_env \<Rightarrow> ('lsk, 'lpk, 'sk, 'pk, 'c) ArgsNetworkMessenger \<Rightarrow> (string + peer_id) option
     \<Rightarrow> nm_error + ('sk, 'pk, 'w) p2pNode \<times> ('ps, 'c, 'tc) nm_components" where
  "NewMockMessenger E args mockNet =
     (case mockNet of None \<Rightarrow> Inl (P2PError ErrNilMockNet)
      | Some (Inl e) \<Rightarrow> Inl (LibError e)
      | Some (Inr h) \<Rightarrow>
        (case NewP2PSignerWrapper (am_P2pKeyGenerator args) (am_P2pPrivateKey args) (am_P2pSingleSigner args) True of
           Inl e \<Rightarrow> Inl (KeyError e)
         | Inr s \<Rightarrow>
           (case NewConnectionsWatcher (env_emptyWatchCache E) (am_ConnectionWatcherType args) ttlConnectionsWatcher True of
              Inl e \<Rightarrow> Inl (WatcherError e)
            | Inr w \<Rightarrow>
              let node = \<lparr>nm_signer = s, nm_hostID = h, nm_port = 0, nm_connectionsWatcher = w\<rparr> in
              (case addComponentsToNode E args node False of Inl e \<Rightarrow> Inl (P2PError e) | Inr cps \<Rightarrow> Inr (node, cps)))))"

lemma components_by_host:
  assumes "nm_hostID node = nm_hostID node'"
  shows "addComponentsToNode E args node sign = addComponentsToNode E args node' sign"
  unfolding addComponentsToNode_def createSharder_def connectionsArgs_def assms ..

lemma retryLoop_attempt:
  "retryLoop E args k i lastErr res = (Inr node, res') \<Longrightarrow> \<exists>j r. constructNode E (env_attempt E j) args = (Inr node, r)"
proof (induction k arbitrary: i lastErr res)
  case (Suc k)
  then show ?case by (auto split: prod.splits sum.splits if_splits)
qed simp

lemma constructed_by_attempt:
  "constructNodeWithPortRetry E args = (Inr node, res) \<Longrightarrow> \<exists>j r. constructNode E (env_attempt E j) args = (Inr node, r)"
  unfolding constructNodeWithPortRetry_def by (rule retryLoop_attempt)

text \<open>
  The messenger for tests is the real one but for the host, the port and the signing of messages: when the real messenger, without signing, is created on a host, the mock
  messenger on a host with the same id has the same signer and the same components, wired in the same way. It never fails with its arguments where the
  real one does not.
\<close>

theorem mock_messenger_equivalent:
  assumes "newNetworkMessenger E args False = (Inr (node, cps), res)"
  shows "\<exists>mock. NewMockMessenger E args (Some (Inr (nm_hostID node))) = Inr (mock, cps) \<and>
    nm_signer mock = nm_signer node \<and> messenger_ID mock = messenger_ID node \<and> nm_connectionsWatcher mock = nm_connectionsWatcher node"
proof -
  obtain i r where c: "constructNode E (env_attempt E i) args = (Inr node, r)" and a: "addComponentsToNode E args node False = Inr cps"
    using assms constructed_by_attempt by (fastforce simp: newNetworkMessenger_def split: option.splits sum.splits prod.splits)
  have s: "NewP2PSignerWrapper (am_P2pKeyGenerator args) (am_P2pPrivateKey args) (am_P2pSingleSigner args) True = Inr (nm_signer node)"
    and w: "NewConnectionsWatcher (env_emptyWatchCache E) (am_ConnectionWatcherType args) ttlConnectionsWatcher (am_Logger args) = Inr (nm_connectionsWatcher node)"
    using c by (auto simp: constructNode_def Let_def split: sum.splits prod.splits)
  have log: "am_Logger args" using assms by (auto simp: newNetworkMessenger_def checkMessengerArgs_def split: if_splits)
  let ?mock = "\<lparr>nm_signer = nm_signer node, nm_hostID = nm_hostID node, nm_port = 0, nm_connectionsWatcher = nm_connectionsWatcher node\<rparr>"
  have "addComponentsToNode E args ?mock False = Inr cps" using a components_by_host [of ?mock node E args False] by simp
  then show ?thesis using s w log by (intro exI [of _ ?mock]) (simp add: NewMockMessenger_def Let_def messenger_ID_def)
qed

theorem mock_messenger_equivalent_witness:
  "\<exists>mock cps. NewMockMessenger (ex_nm_env (\<lambda>i. i < 2)) (ex_nm_args []) (Some (Inr ''node'')) = Inr (mock, cps) \<and>
    nm_signer mock = nm_signer ex_node \<and> messenger_ID mock = ''node''"
proof -
  let ?E = "ex_nm_env (\<lambda>i. i < 2)" and ?args = "ex_nm_args []"
  obtain cps where "addComponentsToNode ?E ?args ex_node True = Inr cps" using ex_components by blast
  moreover have "createPubSub ?E True = createPubSub ?E False" by (simp add: createPubSub_def ex_nm_env_def)
  ultimately have "addComponentsToNode ?E ?args ex_node False = Inr cps" by (simp add: addComponentsToNode_def)
  then have "newNetworkMessenger ?E ?args False = (Inr (ex_node, cps), \<lparr>openHosts = 1, openWatchers = 3\<rparr>)"
    by (simp add: newNetworkMessenger_def ex_checked ex_retry validateSeeders_def)
  from mock_messenger_equivalent [OF this] show ?thesis by (auto simp: messenger_ID_def)
qed

end
