(* ===== verification/Proto_Values.thy ===== *)
theory Proto_Values
  imports Topic_Message Ws_Message
begin

text \<open>
  The rest of the generated code of the three messages: what is done with a message through a pointer, which can be
  nil (\<^verbatim>\<open>Reset\<close>, the getters, \<^verbatim>\<open>Equal\<close>), and writing into a buffer of the caller (\<^verbatim>\<open>MarshalTo\<close>, \<^verbatim>\<open>XXX_Marshal\<close>), which
  panics if the buffer is too small. The locale \<open>buffer_message\<close> holds the laws of writing one message backwards into
  a buffer of any length; it is interpreted on each message.
\<close>

section \<open>Pointers and interface values\<close>

text \<open>
  A pointer is an option, nil is \<^const>\<open>None\<close>. The argument of \<^verbatim>\<open>Equal\<close> is an interface: nil, a pointer to a message, a
  message, or a value of some other type.
\<close>

datatype 'm interface_value = NilInterface | Pointer "'m option" | Struct 'm | OtherType

definition TopicMessage_Reset :: "TopicMessage \<Rightarrow> TopicMessage" where
  "TopicMessage_Reset m = TopicMessage_zero"

definition WsMessage_Reset :: "WsMessage \<Rightarrow> WsMessage" where
  "WsMessage_Reset m = WsMessage_zero"

definition PeerShard_Reset :: "PeerShard \<Rightarrow> PeerShard" where
  "PeerShard_Reset m = \<lparr>ps_ShardId = []\<rparr>"

fun TopicMessage_GetVersion :: "TopicMessage option \<Rightarrow> uint32" where
  "TopicMessage_GetVersion (Some m) = tm_Version m"
| "TopicMessage_GetVersion None = 0"

fun TopicMessage_GetPayload :: "TopicMessage option \<Rightarrow> bytes" where
  "TopicMessage_GetPayload (Some m) = tm_Payload m"
| "TopicMessage_GetPayload None = []"

fun TopicMessage_GetTimestamp :: "TopicMessage option \<Rightarrow> int64" where
  "TopicMessage_GetTimestamp (Some m) = tm_Timestamp m"
| "TopicMessage_GetTimestamp None = 0"

fun TopicMessage_GetPk :: "TopicMessage option \<Rightarrow> bytes" where
  "TopicMessage_GetPk (Some m) = tm_Pk m"
| "TopicMessage_GetPk None = []"

fun TopicMessage_GetSignatureOnPid :: "TopicMessage option \<Rightarrow> bytes" where
  "TopicMessage_GetSignatureOnPid (Some m) = tm_SignatureOnPid m"
| "TopicMessage_GetSignatureOnPid None = []"

fun WsMessage_GetWithAcknowledge :: "WsMessage option \<Rightarrow> bool" where
  "WsMessage_GetWithAcknowledge (Some m) = wm_WithAcknowledge m"
| "WsMessage_GetWithAcknowledge None = False"

fun WsMessage_GetCounter :: "WsMessage option \<Rightarrow> uint64" where
  "WsMessage_GetCounter (Some m) = wm_Counter m"
| "WsMessage_GetCounter None = 0"

fun WsMessage_GetType :: "WsMessage option \<Rightarrow> 32 word" where
  "WsMessage_GetType (Some m) = wm_Type m"
| "WsMessage_GetType None = 0"

fun WsMessage_GetPayload :: "WsMessage option \<Rightarrow> bytes" where
  "WsMessage_GetPayload (Some m) = wm_Payload m"
| "WsMessage_GetPayload None = []"

fun WsMessage_GetTopic :: "WsMessage option \<Rightarrow> string" where
  "WsMessage_GetTopic (Some m) = wm_Topic m"
| "WsMessage_GetTopic None = []"

fun WsMessage_GetVersion :: "WsMessage option \<Rightarrow> uint32" where
  "WsMessage_GetVersion (Some m) = wm_Version m"
| "WsMessage_GetVersion None = 0"

fun PeerShard_GetShardId :: "PeerShard option \<Rightarrow> string" where
  "PeerShard_GetShardId (Some m) = ps_ShardId m"
| "PeerShard_GetShardId None = []"

text \<open>
  \<^verbatim>\<open>Equal\<close> first looks for the pointer \<^verbatim>\<open>that1\<close> behind the interface, then compares the fields one by one.
\<close>

definition TopicMessage_Equal :: "TopicMessage option \<Rightarrow> TopicMessage interface_value \<Rightarrow> bool" where
  "TopicMessage_Equal this that =
     (case that of
        NilInterface \<Rightarrow> this = None
      | OtherType \<Rightarrow> False
      | _ \<Rightarrow>
        (case (case that of Pointer p \<Rightarrow> p | Struct v \<Rightarrow> Some v | _ \<Rightarrow> None) of
           None \<Rightarrow> this = None
         | Some that1 \<Rightarrow>
             (case this of None \<Rightarrow> False
              | Some t \<Rightarrow>
                  if tm_Version t \<noteq> tm_Version that1 then False
                  else if tm_Payload t \<noteq> tm_Payload that1 then False
                  else if tm_Timestamp t \<noteq> tm_Timestamp that1 then False
                  else if tm_Pk t \<noteq> tm_Pk that1 then False
                  else if tm_SignatureOnPid t \<noteq> tm_SignatureOnPid that1 then False
                  else True)))"

definition WsMessage_Equal :: "WsMessage option \<Rightarrow> WsMessage interface_value \<Rightarrow> bool" where
  "WsMessage_Equal this that =
     (case that of
        NilInterface \<Rightarrow> this = None
      | OtherType \<Rightarrow> False
      | _ \<Rightarrow>
        (case (case that of Pointer p \<Rightarrow> p | Struct v \<Rightarrow> Some v | _ \<Rightarrow> None) of
           None \<Rightarrow> this = None
         | Some that1 \<Rightarrow>
             (case this of None \<Rightarrow> False
              | Some t \<Rightarrow>
                  if wm_WithAcknowledge t \<noteq> wm_WithAcknowledge that1 then False
                  else if wm_Counter t \<noteq> wm_Counter that1 then False
                  else if wm_Type t \<noteq> wm_Type that1 then False
                  else if wm_Payload t \<noteq> wm_Payload that1 then False
                  else if wm_Topic t \<noteq> wm_Topic that1 then False
                  else if wm_Version t \<noteq> wm_Version that1 then False
                  else True)))"

definition PeerShard_Equal :: "PeerShard option \<Rightarrow> PeerShard interface_value \<Rightarrow> bool" where
  "PeerShard_Equal this that =
     (case that of
        NilInterface \<Rightarrow> this = None
      | OtherType \<Rightarrow> False
      | _ \<Rightarrow>
        (case (case that of Pointer p \<Rightarrow> p | Struct v \<Rightarrow> Some v | _ \<Rightarrow> None) of
           None \<Rightarrow> this = None
         | Some that1 \<Rightarrow>
             (case this of None \<Rightarrow> False
              | Some t \<Rightarrow> if ps_ShardId t \<noteq> ps_ShardId that1 then False else True)))"

section \<open>Writing into a buffer of the caller\<close>

text \<open>
  A slice, as far as these functions see it: the bytes of its array from its start up to its capacity, and its length.
\<close>

record byte_slice =
  sl_cells :: bytes
  sl_len :: nat

text \<open>
  \<^verbatim>\<open>MarshalTo\<close>: cut the slice at \<^verbatim>\<open>Size\<close> (a panic beyond its capacity) and write into that part. The result is what the
  array holds afterwards and the number of bytes.
\<close>

definition marshal_to :: "nat \<Rightarrow> (bytes \<Rightarrow> (bytes \<times> nat) option) \<Rightarrow> byte_slice \<Rightarrow> (bytes \<times> nat) option" where
  "marshal_to n toSized dAtA =
     (if length (sl_cells dAtA) < n then None
      else do {
        (d, k) \<leftarrow> toSized (take n (sl_cells dAtA));
        Some (d @ drop n (sl_cells dAtA), k)
      })"

definition TopicMessage_MarshalTo :: "TopicMessage \<Rightarrow> byte_slice \<Rightarrow> (bytes \<times> nat) option" where
  "TopicMessage_MarshalTo m = marshal_to (TopicMessage_Size m) (TopicMessage_MarshalToSizedBuffer m)"

definition WsMessage_MarshalTo :: "WsMessage \<Rightarrow> byte_slice \<Rightarrow> (bytes \<times> nat) option" where
  "WsMessage_MarshalTo m = marshal_to (WsMessage_Size m) (WsMessage_MarshalToSizedBuffer m)"

definition PeerShard_MarshalTo :: "PeerShard \<Rightarrow> byte_slice \<Rightarrow> (bytes \<times> nat) option" where
  "PeerShard_MarshalTo m = marshal_to (PeerShard_Size m) (PeerShard_MarshalToSizedBuffer m)"

text \<open>\<^verbatim>\<open>XXX_Marshal\<close>: extend the slice to its capacity, write into all of it, return the first \<open>n\<close> bytes.\<close>

definition TopicMessage_XXX_Marshal :: "TopicMessage \<Rightarrow> byte_slice \<Rightarrow> bytes option" where
  "TopicMessage_XXX_Marshal m b = do {
     (d, n) \<leftarrow> TopicMessage_MarshalToSizedBuffer m (sl_cells b);
     Some (take n d)
   }"

definition WsMessage_XXX_Marshal :: "WsMessage \<Rightarrow> byte_slice \<Rightarrow> bytes option" where
  "WsMessage_XXX_Marshal m b = do {
     (d, n) \<leftarrow> WsMessage_MarshalToSizedBuffer m (sl_cells b);
     Some (take n d)
   }"

definition PeerShard_XXX_Marshal :: "PeerShard \<Rightarrow> byte_slice \<Rightarrow> bytes option" where
  "PeerShard_XXX_Marshal m b = do {
     (d, n) \<leftarrow> PeerShard_MarshalToSizedBuffer m (sl_cells b);
     Some (take n d)
   }"

definition TopicMessage_XXX_Size :: "TopicMessage \<Rightarrow> nat" where
  "TopicMessage_XXX_Size m = TopicMessage_Size m"

definition WsMessage_XXX_Size :: "WsMessage \<Rightarrow> nat" where
  "WsMessage_XXX_Size m = WsMessage_Size m"

definition PeerShard_XXX_Size :: "PeerShard \<Rightarrow> nat" where
  "PeerShard_XXX_Size m = PeerShard_Size m"

definition TopicMessage_XXX_Unmarshal :: "TopicMessage \<Rightarrow> bytes \<Rightarrow> proto_error + TopicMessage" where
  "TopicMessage_XXX_Unmarshal m b = TopicMessage_Unmarshal b m"

definition WsMessage_XXX_Unmarshal :: "WsMessage \<Rightarrow> bytes \<Rightarrow> proto_error + WsMessage" where
  "WsMessage_XXX_Unmarshal m b = WsMessage_Unmarshal b m"

definition PeerShard_XXX_Unmarshal :: "PeerShard \<Rightarrow> bytes \<Rightarrow> proto_error + PeerShard" where
  "PeerShard_XXX_Unmarshal m b = PeerShard_Unmarshal b m"

text \<open>A fresh slice, \<^verbatim>\<open>make([]byte, 0, c)\<close>.\<close>

definition make_slice :: "nat \<Rightarrow> byte_slice" where
  "make_slice c = \<lparr>sl_cells = replicate c 0, sl_len = 0\<rparr>"

section \<open>How far the position moves\<close>

lemma put_position:
  "put_byte (d, i) b = Some (d', j) \<Longrightarrow> i = j + 1"
  "put_copy (d, i) bs = Some (d', j) \<Longrightarrow> i = j + length bs"
  "put_varint (d, i) v = Some (d', j) \<Longrightarrow> i = j + sov v"
  by (auto simp: put_byte_def put_copy_def put_varint_def encodeVarint_def Let_def bind_eq_Some_conv split: if_splits)

lemma put_field_position:
  "put_varint_field tag v (d, i) = Some (d', j) \<Longrightarrow> i = j + varint_field_size v"
  "put_bytes_field tag bs (d, i) = Some (d', j) \<Longrightarrow> i = j + bytes_field_size (length bs)"
  "put_bool_field tag b (d, i) = Some (d', j) \<Longrightarrow> i = j + varint_field_size (bool_word b)"
  by (auto simp: put_varint_field_def put_bytes_field_def put_bool_field_def varint_field_size_def
      bytes_field_size_def bool_word_def bind_eq_Some_conv split: if_splits dest!: put_position)


text \<open>The state of a run over a buffer \<open>d\<close> with any contents: its first \<open>k\<close> bytes are not yet overwritten.\<close>

definition part_written :: "bytes \<Rightarrow> nat \<Rightarrow> bytes \<Rightarrow> bytes \<times> nat" where
  "part_written d k out = (take k d @ out, k)"

lemma put_byte_part:
  "1 \<le> k \<Longrightarrow> k \<le> length d \<Longrightarrow> put_byte (part_written d k out) b = Some (part_written d (k - 1) (b # out))"
  by (auto simp: put_byte_def part_written_def buf_write_def upd_conv_take_nth_drop min_def)

lemma put_copy_part:
  "length bs \<le> k \<Longrightarrow> k \<le> length d \<Longrightarrow>
     put_copy (part_written d k out) bs = Some (part_written d (k - length bs) (bs @ out))"
  by (simp add: put_copy_def part_written_def Let_def min_def)

lemma put_varint_part:
  "sov v \<le> k \<Longrightarrow> k \<le> length d \<Longrightarrow>
     put_varint (part_written d k out) v = Some (part_written d (k - sov v) (enc_nat (unat v) @ out))"
  by (simp add: put_varint_def part_written_def encodeVarint_def varint_loop_enc length_enc_sov min_def)

lemmas put_part = put_byte_part put_copy_part put_varint_part

lemma put_varint_field_part:
  "varint_field_size v \<le> k \<Longrightarrow> k \<le> length d \<Longrightarrow> put_varint_field tag v (part_written d k out) =
     Some (part_written d (k - varint_field_size v) (enc_varint_field tag v @ out))"
  by (auto simp: put_varint_field_def varint_field_size_def enc_varint_field_def put_part)

lemma put_bytes_field_part:
  assumes "fits_int (length bs)" and "bytes_field_size (length bs) \<le> k" and "k \<le> length d"
  shows "put_bytes_field tag bs (part_written d k out) =
    Some (part_written d (k - bytes_field_size (length bs)) (enc_bytes_field tag bs @ out))"
  using assms
  by (auto simp: put_bytes_field_def bytes_field_size_def enc_bytes_field_def put_part unat_of_length)

lemma put_bool_field_part:
  assumes "varint_field_size (bool_word b) \<le> k" and "k \<le> length d"
  shows "put_bool_field tag b (part_written d k out) =
    Some (part_written d (k - varint_field_size (bool_word b)) (enc_varint_field tag (bool_word b) @ out))"
proof (cases b)
  case True
  with assms have "snd (part_written d k out) \<noteq> 0"
    by (auto simp: bool_word_def varint_field_size_def part_written_def)
  from put_bool_field_varint [OF this] put_varint_field_part [OF assms] show ?thesis by simp
next
  case False
  then show ?thesis by (simp add: put_bool_field_def bool_word_def varint_field_size_def enc_varint_field_def)
qed

lemmas put_field_part = put_varint_field_part put_bytes_field_part put_bool_field_part

text \<open>The first byte of an encoding is a tag.\<close>

definition starts_nonzero :: "bytes \<Rightarrow> bool" where
  "starts_nonzero bs \<longleftrightarrow> bs = [] \<or> hd bs \<noteq> 0"

lemma starts_nonzero_append:
  "starts_nonzero xs \<Longrightarrow> starts_nonzero ys \<Longrightarrow> starts_nonzero (xs @ ys)"
  by (cases xs) (auto simp: starts_nonzero_def)

lemma starts_nonzero_field:
  "tag \<noteq> 0 \<Longrightarrow> starts_nonzero (enc_varint_field tag v)"
  "tag \<noteq> 0 \<Longrightarrow> starts_nonzero (enc_bytes_field tag bs)"
  by (auto simp: starts_nonzero_def enc_varint_field_def enc_bytes_field_def)

section \<open>Messages that are written backwards\<close>

locale buffer_message =
  fixes msize :: "'m \<Rightarrow> nat" and toSized :: "'m \<Rightarrow> bytes \<Rightarrow> (bytes \<times> nat) option"
    and enc :: "'m \<Rightarrow> bytes" and sized :: "'m \<Rightarrow> bool"
  assumes length_enc: "sized m \<Longrightarrow> length (enc m) = msize m"
    and written: "sized m \<Longrightarrow> msize m \<le> length d \<Longrightarrow>
      toSized m d = Some (take (length d - msize m) d @ enc m, msize m)"
    and too_small: "sized m \<Longrightarrow> length d < msize m \<Longrightarrow> toSized m d = None"
    and tagged: "starts_nonzero (enc m)"
begin

lemma marshal_to_enc:
  assumes "sized m"
  shows "marshal_to (msize m) (toSized m) b =
    (if msize m \<le> length (sl_cells b) then Some (enc m @ drop (msize m) (sl_cells b), msize m) else None)"
  using written [OF assms, of "take (msize m) (sl_cells b)"] by (auto simp: marshal_to_def min_def)

lemma whole_buffer:
  assumes "sized m"
  shows "toSized m d \<bind> (\<lambda>(d', n). Some (take n d')) =
    (if msize m \<le> length d then Some (take (msize m) (take (length d - msize m) d @ enc m)) else None)"
  using written [OF assms] too_small [OF assms] by auto

lemma whole_fresh_buffer_iff:
  assumes "sized m"
  shows "toSized m (replicate c 0) \<bind> (\<lambda>(d', n). Some (take n d')) = Some (enc m) \<longleftrightarrow> c = msize m \<or> enc m = []"
proof (cases "msize m < c \<and> enc m \<noteq> []")
  case True
  then have pos: "0 < msize m" using length_enc [OF assms] by (metis length_greater_0_conv)
  let ?r = "take (msize m) (take (c - msize m) (replicate c 0) @ enc m)"
  have "hd ?r = 0" using True pos by (cases "msize m"; cases "c - msize m"; cases c) auto
  with True tagged [of m] have "?r \<noteq> enc m" by (auto simp: starts_nonzero_def)
  with True show ?thesis by (simp add: whole_buffer [OF assms])
next
  case False
  then show ?thesis using length_enc [OF assms] by (auto simp: whole_buffer [OF assms])
qed

end

lemma TopicMessage_position:
  assumes "TopicMessage_MarshalToSizedBuffer m d = Some r"
  shows "TopicMessage_Size m \<le> length d"
  using assms
  by (auto simp: TopicMessage_MarshalToSizedBuffer_def TopicMessage_Size_def bind_eq_Some_conv
      dest!: put_field_position)

lemma WsMessage_position:
  assumes "WsMessage_MarshalToSizedBuffer m d = Some r"
  shows "WsMessage_Size m \<le> length d"
  using assms
  by (auto simp: WsMessage_MarshalToSizedBuffer_def WsMessage_Size_def bind_eq_Some_conv bool_field_size
      dest!: put_field_position)

lemma PeerShard_position:
  assumes "PeerShard_MarshalToSizedBuffer m d = Some r"
  shows "PeerShard_Size m \<le> length d"
  using assms
  by (auto simp: PeerShard_MarshalToSizedBuffer_def PeerShard_Size_def bind_eq_Some_conv
      dest!: put_field_position)

lemma part_written_start: "(d, length d) = part_written d (length d) []"
  by (simp add: part_written_def)

lemma TopicMessage_written:
  assumes "TopicMessage_sized m" and "TopicMessage_Size m \<le> length d"
  shows "TopicMessage_MarshalToSizedBuffer m d =
    Some (take (length d - TopicMessage_Size m) d @ TopicMessage_enc m, TopicMessage_Size m)"
  using assms(2)
  by (simp add: TopicMessage_MarshalToSizedBuffer_def part_written_start put_field_part
      TopicMessage_sized_fields [OF assms(1)] TopicMessage_Size_def TopicMessage_enc_def)
     (simp add: part_written_def add_ac)

lemma WsMessage_written:
  assumes "WsMessage_sized m" and "WsMessage_Size m \<le> length d"
  shows "WsMessage_MarshalToSizedBuffer m d =
    Some (take (length d - WsMessage_Size m) d @ WsMessage_enc m, WsMessage_Size m)"
  using assms(2) WsMessage_sized_fields [OF assms(1)]
  by (simp add: WsMessage_MarshalToSizedBuffer_def part_written_start put_field_part bool_field_size
      WsMessage_Size_def WsMessage_enc_def)
     (simp add: part_written_def add_ac)

definition PeerShard_sized :: "PeerShard \<Rightarrow> bool" where
  "PeerShard_sized m \<longleftrightarrow> fits_int (length (PeerShard_enc m))"

lemma PeerShard_sized_field: "PeerShard_sized m \<Longrightarrow> fits_int (length (bytes_of_string (ps_ShardId m)))"
  by (auto simp: PeerShard_sized_def PeerShard_enc_def dest: enc_bytes_field_fits)

lemma PeerShard_written:
  assumes "PeerShard_sized m" and "PeerShard_Size m \<le> length d"
  shows "PeerShard_MarshalToSizedBuffer m d =
    Some (take (length d - PeerShard_Size m) d @ PeerShard_enc m, PeerShard_Size m)"
  using assms(2) PeerShard_sized_field [OF assms(1)]
  by (simp add: PeerShard_MarshalToSizedBuffer_def part_written_start put_field_part PeerShard_Size_def PeerShard_enc_def)
     (simp add: part_written_def add_ac)

lemmas enc_tagged = starts_nonzero_append starts_nonzero_field

interpretation topic_buffer:
  buffer_message TopicMessage_Size TopicMessage_MarshalToSizedBuffer TopicMessage_enc TopicMessage_sized
proof unfold_locales
  show "TopicMessage_MarshalToSizedBuffer m d = None" if "length d < TopicMessage_Size m" for m d
    using that TopicMessage_position [of m d] by (cases "TopicMessage_MarshalToSizedBuffer m d") auto
  show "starts_nonzero (TopicMessage_enc m)" for m
    unfolding TopicMessage_enc_def by (intro enc_tagged) simp_all
qed (simp_all add: length_TopicMessage_enc TopicMessage_written)

interpretation ws_buffer:
  buffer_message WsMessage_Size WsMessage_MarshalToSizedBuffer WsMessage_enc WsMessage_sized
proof unfold_locales
  show "WsMessage_MarshalToSizedBuffer m d = None" if "length d < WsMessage_Size m" for m d
    using that WsMessage_position [of m d] by (cases "WsMessage_MarshalToSizedBuffer m d") auto
  show "starts_nonzero (WsMessage_enc m)" for m
    unfolding WsMessage_enc_def by (intro enc_tagged) simp_all
qed (simp_all add: length_WsMessage_enc WsMessage_written)

interpretation shard_buffer:
  buffer_message PeerShard_Size PeerShard_MarshalToSizedBuffer PeerShard_enc PeerShard_sized
proof unfold_locales
  show "PeerShard_MarshalToSizedBuffer m d = None" if "length d < PeerShard_Size m" for m d
    using that PeerShard_position [of m d] by (cases "PeerShard_MarshalToSizedBuffer m d") auto
  show "starts_nonzero (PeerShard_enc m)" for m
    unfolding PeerShard_enc_def by (intro enc_tagged) simp_all
  show "length (PeerShard_enc m) = PeerShard_Size m" if "PeerShard_sized m" for m
    using PeerShard_sized_field [OF that]
    by (simp add: PeerShard_enc_def PeerShard_Size_def length_enc_bytes_field)
qed (simp_all add: PeerShard_written)

section \<open>Results\<close>

text \<open>
  Writing into a buffer of the caller, whatever it holds: \<^verbatim>\<open>MarshalTo\<close> puts the reference encoding at its start, leaves the
  rest as it was and returns \<^verbatim>\<open>Size\<close>, and panics exactly if the capacity is below \<^verbatim>\<open>Size\<close>. \<^verbatim>\<open>XXX_Marshal\<close> writes at the end
  of the capacity but returns the front of it, so on a fresh slice it gives the encoding exactly if the capacity is
  \<^verbatim>\<open>XXX_Size\<close> (or the message is the zero message, whose encoding is empty).
\<close>

theorem marshal_into_buffer:
  assumes "TopicMessage_sized m" and "WsMessage_sized w" and "PeerShard_sized s"
  shows "(TopicMessage_MarshalTo m b =
      (if TopicMessage_Size m \<le> length (sl_cells b)
       then Some (TopicMessage_enc m @ drop (TopicMessage_Size m) (sl_cells b), TopicMessage_Size m) else None)) \<and>
    (WsMessage_MarshalTo w b =
      (if WsMessage_Size w \<le> length (sl_cells b)
       then Some (WsMessage_enc w @ drop (WsMessage_Size w) (sl_cells b), WsMessage_Size w) else None)) \<and>
    (PeerShard_MarshalTo s b =
      (if PeerShard_Size s \<le> length (sl_cells b)
       then Some (PeerShard_enc s @ drop (PeerShard_Size s) (sl_cells b), PeerShard_Size s) else None)) \<and>
    (TopicMessage_XXX_Marshal m (make_slice c) = Some (TopicMessage_enc m) \<longleftrightarrow>
      c = TopicMessage_XXX_Size m \<or> TopicMessage_enc m = []) \<and>
    (WsMessage_XXX_Marshal w (make_slice c) = Some (WsMessage_enc w) \<longleftrightarrow>
      c = WsMessage_XXX_Size w \<or> WsMessage_enc w = []) \<and>
    (PeerShard_XXX_Marshal s (make_slice c) = Some (PeerShard_enc s) \<longleftrightarrow>
      c = PeerShard_XXX_Size s \<or> PeerShard_enc s = [])"
  unfolding TopicMessage_MarshalTo_def WsMessage_MarshalTo_def PeerShard_MarshalTo_def
    TopicMessage_XXX_Marshal_def WsMessage_XXX_Marshal_def PeerShard_XXX_Marshal_def
    TopicMessage_XXX_Size_def WsMessage_XXX_Size_def PeerShard_XXX_Size_def make_slice_def byte_slice.simps
  using assms
  by (simp_all add: topic_buffer.marshal_to_enc ws_buffer.marshal_to_enc shard_buffer.marshal_to_enc
      topic_buffer.whole_fresh_buffer_iff ws_buffer.whole_fresh_buffer_iff shard_buffer.whole_fresh_buffer_iff)

theorem marshal_into_buffer_witness:
  "TopicMessage_sized topic_example \<and> WsMessage_sized ws_example \<and> PeerShard_sized \<lparr>ps_ShardId = ''1''\<rparr> \<and>
   PeerShard_MarshalTo \<lparr>ps_ShardId = ''1''\<rparr> \<lparr>sl_cells = [5, 6, 7, 8], sl_len = 4\<rparr> = Some ([10, 1, 49, 8], 3) \<and>
   WsMessage_MarshalTo ws_example \<lparr>sl_cells = [5, 6, 7, 8], sl_len = 4\<rparr> = None \<and>
   TopicMessage_XXX_Marshal topic_example (make_slice 13) \<noteq> Some (TopicMessage_enc topic_example)"
proof -
  let ?s = "\<lparr>ps_ShardId = ''1''\<rparr>"
  have s: "PeerShard_enc ?s = [10, 1, 49]" "PeerShard_Size ?s = 3"
    by (simp_all add: PeerShard_enc_def enc_bytes_field_def enc_nat.simps bytes_of_string_def PeerShard_Size_def
        bytes_field_size_def)
  have w: "length (WsMessage_enc ws_example) = 14"
    by (simp add: ws_example_def WsMessage_enc_def enc_varint_field_def enc_bytes_field_def enc_nat.simps bool_word_def
        bytes_of_string_def del: length_enc_varint_field)
  have sized: "TopicMessage_sized topic_example" "WsMessage_sized ws_example" "PeerShard_sized ?s"
    by (simp_all add: topic_example_sized WsMessage_sized_def w PeerShard_sized_def s fits_int_def)
  have n: "TopicMessage_XXX_Size topic_example = 12" "WsMessage_Size ws_example = 14"
    using length_TopicMessage_enc [OF sized(1)] length_WsMessage_enc [OF sized(2)] w
    by (simp_all add: topic_example_enc TopicMessage_XXX_Size_def)
  show ?thesis
    using marshal_into_buffer [OF sized, of "\<lparr>sl_cells = [5, 6, 7, 8], sl_len = 4\<rparr>" 13] sized n s
    by (simp add: topic_example_enc)
qed

text \<open>\<^verbatim>\<open>Equal\<close> decides equality of what the pointer and the interface stand for; a nil interface counts as a nil pointer.\<close>

fun pointed :: "'m interface_value \<Rightarrow> 'm option option" where
  "pointed NilInterface = Some None"
| "pointed (Pointer p) = Some p"
| "pointed (Struct m) = Some (Some m)"
| "pointed OtherType = None"

lemma TopicMessage_fields_eq:
  "a = (b :: TopicMessage) \<longleftrightarrow> tm_Version a = tm_Version b \<and> tm_Payload a = tm_Payload b \<and>
     tm_Timestamp a = tm_Timestamp b \<and> tm_Pk a = tm_Pk b \<and> tm_SignatureOnPid a = tm_SignatureOnPid b"
  by (cases a; cases b) simp

lemma WsMessage_fields_eq:
  "a = (b :: WsMessage) \<longleftrightarrow> wm_WithAcknowledge a = wm_WithAcknowledge b \<and> wm_Counter a = wm_Counter b \<and>
     wm_Type a = wm_Type b \<and> wm_Payload a = wm_Payload b \<and> wm_Topic a = wm_Topic b \<and> wm_Version a = wm_Version b"
  by (cases a; cases b) simp

lemma PeerShard_fields_eq: "a = (b :: PeerShard) \<longleftrightarrow> ps_ShardId a = ps_ShardId b"
  by (cases a; cases b) simp

lemma equal_iff:
  "TopicMessage_Equal this that \<longleftrightarrow> pointed that = Some this"
  "WsMessage_Equal this' that' \<longleftrightarrow> pointed that' = Some this'"
  "PeerShard_Equal this'' that'' \<longleftrightarrow> pointed that'' = Some this''"
proof -
  show "TopicMessage_Equal this that \<longleftrightarrow> pointed that = Some this"
    by (cases that; cases this) (simp_all add: TopicMessage_Equal_def TopicMessage_fields_eq eq_commute split: option.split, blast)
  show "WsMessage_Equal this' that' \<longleftrightarrow> pointed that' = Some this'"
    by (cases that'; cases this') (simp_all add: WsMessage_Equal_def WsMessage_fields_eq eq_commute split: option.split, blast)
  show "PeerShard_Equal this'' that'' \<longleftrightarrow> pointed that'' = Some this''"
    by (cases that''; cases this'') (simp_all add: PeerShard_Equal_def PeerShard_fields_eq eq_commute split: option.split)
qed

end
