(* ===== verification/Eviction_Stable.thy ===== *)
theory Eviction_Stable
  imports Sharding
begin

text \<open>
  What happens to the connections of a node after the lists sharder of \<^verbatim>\<open>networksharding/listsSharder.go\<close> has chosen the peers to evict: when they are gone, a second
  computation evicts nobody, also when more connections have gone meanwhile. So closing connections never causes further
  closings, and evictions come to rest.
\<close>

section \<open>The numbers to keep are a fixed point\<close>

lemma computeUsedAndSpare_mono:
  assumes "computeUsedAndSpare e m = (a, r)" "e' \<le> a" "m \<le> m'"
  shows "computeUsedAndSpare e' m' = (e', m' - e') \<and> r \<le> m' - e'"
  using assms by (auto simp: computeUsedAndSpare_def split: if_splits)

lemma numKept_fixed:
  assumes "\<And>c. e' c \<le> numKept ls e c"
  shows "numKept ls e' = e'"
proof -
  obtain a1 r1 where 1: "computeUsedAndSpare (e intraShardValidators) (maxIntraShardValidators ls) = (a1, r1)"
    by fastforce
  obtain a2 r2 where 2: "computeUsedAndSpare (e crossShardValidators) (maxCrossShardValidators ls + r1) = (a2, r2)"
    by fastforce
  obtain a3 r3 where 3: "computeUsedAndSpare (e intraShardObservers) (maxIntraShardObservers ls + r2) = (a3, r3)"
    by fastforce
  obtain a4 r4 where 4: "computeUsedAndSpare (e crossShardObservers) (maxCrossShardObservers ls + r3) = (a4, r4)"
    by fastforce
  obtain a5 r5 where 5: "computeUsedAndSpare (e seedersList) (maxSeeders ls) = (a5, r5)"
    by fastforce
  obtain a6 r6 where 6: "computeUsedAndSpare (e unknownList) (maxUnknown ls + r4) = (a6, r6)"
    by fastforce
  have k: "numKept ls e = (\<lambda>c. case c of intraShardValidators \<Rightarrow> a1 | crossShardValidators \<Rightarrow> a2
      | intraShardObservers \<Rightarrow> a3 | crossShardObservers \<Rightarrow> a4 | seedersList \<Rightarrow> a5 | unknownList \<Rightarrow> a6)"
    by (simp add: numKept_def 1 2 3 4 5 6)
  have le: "e' intraShardValidators \<le> a1" "e' crossShardValidators \<le> a2" "e' intraShardObservers \<le> a3"
    "e' crossShardObservers \<le> a4" "e' seedersList \<le> a5" "e' unknownList \<le> a6"
    using assms [of intraShardValidators] assms [of crossShardValidators] assms [of intraShardObservers]
      assms [of crossShardObservers] assms [of seedersList] assms [of unknownList] by (simp_all add: k)
  note s1 = computeUsedAndSpare_mono [OF 1 le(1) order_refl]
  note s2 = computeUsedAndSpare_mono [OF 2 le(2), OF add_left_mono [OF conjunct2 [OF s1]]]
  note s3 = computeUsedAndSpare_mono [OF 3 le(3), OF add_left_mono [OF conjunct2 [OF s2]]]
  note s4 = computeUsedAndSpare_mono [OF 4 le(4), OF add_left_mono [OF conjunct2 [OF s3]]]
  note s5 = computeUsedAndSpare_mono [OF 5 le(5) order_refl]
  note s6 = computeUsedAndSpare_mono [OF 6 le(6), OF add_left_mono [OF conjunct2 [OF s4]]]
  show ?thesis
    by (simp add: numKept_def s1 [THEN conjunct1] s2 [THEN conjunct1] s3 [THEN conjunct1] s4 [THEN conjunct1]
        s5 [THEN conjunct1] s6 [THEN conjunct1] fun_eq_iff split: peer_category.split)
qed

section \<open>Evicting twice\<close>

lemma distinct_submset:
  assumes "mset xs \<subseteq># mset ys" "distinct ys"
  shows "distinct xs"
proof -
  have "count (mset xs) x \<le> 1" for x
    using mset_subset_eq_count [OF assms(1), of x] assms(2) by (metis distinct_count_atmost_1 le_trans linear zero_le)
  then show ?thesis
    by (metis One_nat_def count_greater_zero_iff count_mset_0_iff distinct_count_atmost_1 le_0_eq le_SucE not_gr_zero set_mset_mset)
qed

text \<open>More preferred peers only take peers out of the lists.\<close>

lemma members_preferred:
  assumes "\<And>p. pref p \<Longrightarrow> pref' p"
  shows "set (members pretty (ls\<lparr>preferredContains := pref'\<rparr>) c ps) \<subseteq> set (members pretty (ls\<lparr>preferredContains := pref\<rparr>) c ps)"
proof
  fix p
  assume "p \<in> set (members pretty (ls\<lparr>preferredContains := pref'\<rparr>) c ps)"
  then have p: "p \<in> set ps" "categoryOf pretty (ls\<lparr>preferredContains := pref'\<rparr>) (peerShardResolver ls (ls_selfPeerId ls)) p = Some c"
    by (auto simp: members_def cat_def)
  moreover have "IsSeeder pretty (ls\<lparr>preferredContains := f\<rparr>) p = IsSeeder pretty ls p" for f by (simp add: IsSeeder_def)
  ultimately have "categoryOf pretty (ls\<lparr>preferredContains := pref\<rparr>) (peerShardResolver ls (ls_selfPeerId ls)) p = Some c"
    using assms by (auto simp: categoryOf_def Let_def split: if_splits)
  with p(1) show "p \<in> set (members pretty (ls\<lparr>preferredContains := pref\<rparr>) c ps)" by (simp add: members_def cat_def)
qed

lemma length_members_kept:
  assumes "pd_sorter srt" "lists_wf ls" "distinct ps" "distinct qs"
    and "set qs \<subseteq> set ps - set (concat (map (evicted_of srt pretty ls ps) categories))"
    and "\<And>p. preferredContains ls p \<Longrightarrow> pref p"
  shows "int (length (members pretty (ls\<lparr>preferredContains := pref\<rparr>) c qs)) \<le>
    numKept ls (\<lambda>c. int (length (members pretty ls c ps))) c"
proof -
  let ?e = "evicted_of srt pretty ls ps c" and ?m = "members pretty ls c"
  let ?k = "members pretty (ls\<lparr>preferredContains := pref\<rparr>) c qs"
  have sub: "mset ?e \<subseteq># mset (?m ps)" by (rule pd_sorter.evicted_of_subset [OF assms(1)])
  have d: "distinct (?m ps)" using assms(3) by (simp add: members_def)
  have de: "distinct ?e" using sub d by (rule distinct_submset)
  have se: "set ?e \<subseteq> set (?m ps)" using sub set_mset_mono by fastforce
  have "set ?k \<subseteq> set (?m qs)" using members_preferred [of "preferredContains ls" pref pretty ls c qs] assms(6) by simp
  also have "\<dots> \<subseteq> set (?m ps) - set ?e" using assms(5) by (auto simp: members_def)
  finally have "card (set ?k) \<le> card (set (?m ps) - set ?e)" by (intro card_mono) auto
  also have "\<dots> = length (?m ps) - length ?e"
    using de se d by (simp add: card_Diff_subset distinct_card)
  finally have "length ?k \<le> length (?m ps) - length ?e"
    using distinct_card [of ?k] assms(4) by (simp add: members_def)
  moreover have "length ?e \<le> length (?m ps)" using sub by (metis size_mset size_mset_mono)
  ultimately have "int (length ?k) \<le> int (length (?m ps)) - int (length ?e)" by linarith
  then show ?thesis using pd_sorter.evicted_kept [OF assms(1,2), of pretty c ps] by simp
qed

lemma evict_all_kept: "int (length xs) \<le> n \<Longrightarrow> evict srt xs n = []"
  by (simp add: evict_def Let_def)

lemma lists_stable:
  assumes "pd_sorter srt" "lists_wf ls" "distances_total ls" "distinct ps"
    and "ComputeEvictionList srt pretty ls ps = Some ev" "distinct qs" "set qs \<subseteq> set ps - set ev"
    and "\<And>p. preferredContains ls p \<Longrightarrow> pref p"
  shows "ComputeEvictionList srt pretty (ls\<lparr>preferredContains := pref\<rparr>) qs = Some []"
proof -
  let ?ls = "ls\<lparr>preferredContains := pref\<rparr>" and ?n = "\<lambda>ls ps c. int (length (members pretty ls c ps))"
  have tot: "distances_total ?ls" using assms(3) by (simp add: distances_total_def)
  have ev: "ev = concat (map (evicted_of srt pretty ls ps) categories)"
    using ComputeEvictionList_concat [OF assms(3)] assms(5) by simp
  have "numKept ls (?n ?ls qs) = ?n ?ls qs"
    by (rule numKept_fixed) (rule length_members_kept [OF assms(1,2,4,6) assms(7) [unfolded ev] assms(8)])
  moreover have "numKept ?ls = numKept ls" by (simp add: numKept_def fun_eq_iff)
  ultimately have "evicted_of srt pretty ?ls qs c = []" for c
    by (simp add: evicted_of_def evict_all_kept)
  then show ?thesis by (simp add: ComputeEvictionList_concat [OF tot])
qed

text \<open>When nobody has to be evicted, the limits hold.\<close>

lemma lists_limits_rule:
  assumes "pd_sorter srt" "lists_wf ls" "distances_total ls" "ComputeEvictionList srt pretty ls ps = Some []"
  shows "int (length (filter (\<lambda>p. cat pretty ls p \<noteq> None) ps)) \<le> ls_maxPeerCount ls"
    and "int (length (members pretty ls seedersList ps)) \<le> maxSeeders ls"
proof -
  have ev: "concat (map (evicted_of srt pretty ls ps) categories) = []"
    using assms(4) by (simp add: ComputeEvictionList_concat [OF assms(3)])
  show "int (length (filter (\<lambda>p. cat pretty ls p \<noteq> None) ps)) \<le> ls_maxPeerCount ls"
    using pd_sorter.kept_total [OF assms(1,2), of pretty ps] unfolding ev by simp
  have "evicted_of srt pretty ls ps seedersList = []" using ev by simp
  then show "int (length (members pretty ls seedersList ps)) \<le> maxSeeders ls"
    using pd_sorter.evicted_kept [OF assms(1,2), of pretty seedersList ps]
      numKept_bounds(4) [OF assms(2), of "\<lambda>c. int (length (members pretty ls c ps))" seedersList] by simp
qed

section \<open>Every kind of sharder\<close>

definition with_pref :: "(peer_id \<Rightarrow> bool) \<Rightarrow> sharder \<Rightarrow> sharder" where
  "with_pref pref s = (case s of Lists ls \<Rightarrow> Lists (ls\<lparr>preferredContains := pref\<rparr>) | _ \<Rightarrow> s)"

definition sharder_ok :: "sharder \<Rightarrow> bool" where
  "sharder_ok s =
     (case s of Lists ls \<Rightarrow> lists_wf ls \<and> distances_total ls
      | OneList ols \<Rightarrow> (\<forall>p. ols_computeDistance ols p (ols_selfPeerId ols) \<noteq> None)
      | NilList \<Rightarrow> True)"

lemma with_pref_simps [simp]:
  "with_pref pref (Lists ls) = Lists (ls\<lparr>preferredContains := pref\<rparr>)" "with_pref pref (OneList ols) = OneList ols"
  "with_pref pref NilList = NilList" "with_pref pref (with_pref pref' s) = with_pref pref s"
  by (simp_all add: with_pref_def split: sharder.split)

lemma lists_ok_update [simp]:
  "lists_wf (ls\<lparr>preferredContains := pref\<rparr>) = lists_wf ls" "lists_wf (SetSeeders ls addresses) = lists_wf ls"
  "distances_total (ls\<lparr>preferredContains := pref\<rparr>) = distances_total ls"
  "distances_total (SetSeeders ls addresses) = distances_total ls"
proof -
  have m: "ls_max (ls\<lparr>preferredContains := pref\<rparr>) = ls_max ls" "ls_max (SetSeeders ls addresses) = ls_max ls"
    by (simp_all add: ls_max_def SetSeeders_def fun_eq_iff split: peer_category.split)
  show "lists_wf (ls\<lparr>preferredContains := pref\<rparr>) = lists_wf ls" "lists_wf (SetSeeders ls addresses) = lists_wf ls"
    by (simp_all add: lists_wf_def m) (simp add: SetSeeders_def)
qed (simp_all add: distances_total_def SetSeeders_def)

lemma sharder_ok_update [simp]:
  "sharder_ok (with_pref pref s) = sharder_ok s" "sharder_ok (sharder_SetSeeders s addresses) = sharder_ok s"
  by (cases s; simp add: sharder_ok_def sharder_SetSeeders_def)+

lemma map_sum_Inr: "map_sum f g x = Inr y \<longleftrightarrow> (\<exists>z. x = Inr z \<and> y = g z)"
  by (cases x) auto

lemma NewSharder_ok:
  assumes "NewSharder convert arg = Inr s" "\<forall>p. length (convert p) = 32"
  shows "sharder_ok s"
  using assms NewListsSharder_wf(1) NewListsSharder_total
  by (auto simp: NewSharder_def sharder_ok_def NewOneListSharder_def computeDistanceByCountingBits_def countBits_loop_hamming
      map_sum_Inr split: if_splits)

lemma convertList_total:
  assumes "\<forall>p. ols_computeDistance ols p (ols_selfPeerId ols) \<noteq> None"
  shows "convertList ols ps = Some (map (\<lambda>p. \<lparr>pd_ID = p, pd_Distance = the (ols_computeDistance ols p (ols_selfPeerId ols))\<rparr>) ps)"
  by (rule convertList_spec) (use assms in auto)

lemma sharder_total:
  "sharder_ok s \<Longrightarrow> \<exists>ev. sharder_ComputeEvictionList srt pretty s ps = Some ev"
  by (cases s) (auto simp: sharder_ok_def sharder_ComputeEvictionList_def ComputeEvictionList_concat
      OneList_ComputeEvictionList_def convertList_total NilList_ComputeEvictionList_def)

lemma one_list_stable:
  assumes "pd_sorter srt" "\<forall>p. ols_computeDistance ols p (ols_selfPeerId ols) \<noteq> None" "distinct ps"
    and "OneList_ComputeEvictionList srt ols ps = Some ev" "distinct qs" "set qs \<subseteq> set ps - set ev"
  shows "OneList_ComputeEvictionList srt ols qs = Some []"
proof -
  let ?mk = "\<lambda>p. \<lparr>pd_ID = p, pd_Distance = the (ols_computeDistance ols p (ols_selfPeerId ols))\<rparr>" and ?n = "ols_maxPeerCount ols"
  have ev: "ev = evict srt (map ?mk ps) ?n"
    using assms(4) by (simp add: OneList_ComputeEvictionList_def convertList_total [OF assms(2)])
  have sub: "mset ev \<subseteq># mset ps"
    using pd_sorter.evict_mset [OF assms(1), of "map ?mk ps" ?n] by (simp add: ev multiset.map_comp comp_def)
  have len: "length ev = length ps - nat ?n" using pd_sorter.evict_length [OF assms(1)] by (simp add: ev)
  have "length qs \<le> card (set ps - set ev)" using assms(5,6) by (metis card_mono distinct_card finite_Diff finite_set)
  also have "\<dots> = length ps - length ev"
    using distinct_submset [OF sub assms(3)] sub assms(3)
    by (metis card_Diff_subset distinct_card finite_set set_mset_mono set_mset_mset)
  also have "\<dots> \<le> nat ?n" using len by simp
  finally have "evict srt (map ?mk qs) ?n = []" by (cases "0 \<le> ?n") (simp_all add: evict_def Let_def)
  then show ?thesis by (simp add: OneList_ComputeEvictionList_def convertList_total [OF assms(2)])
qed

lemma one_list_limit:
  assumes "pd_sorter srt" "\<forall>p. ols_computeDistance ols p (ols_selfPeerId ols) \<noteq> None" "OneList_ComputeEvictionList srt ols ps = Some []"
  shows "length ps \<le> nat (ols_maxPeerCount ols)"
proof -
  let ?mk = "\<lambda>p. \<lparr>pd_ID = p, pd_Distance = the (ols_computeDistance ols p (ols_selfPeerId ols))\<rparr>"
  have "evict srt (map ?mk ps) (ols_maxPeerCount ols) = []"
    using assms(3) by (simp add: OneList_ComputeEvictionList_def convertList_total [OF assms(2)])
  then show ?thesis using pd_sorter.evict_length [OF assms(1), of "map ?mk ps" "ols_maxPeerCount ols"] by simp
qed

lemma NewSharder_one_list:
  "NewSharder convert arg = Inr (OneList ols) \<Longrightarrow> 3 \<le> ols_maxPeerCount ols"
  by (auto simp: NewSharder_def NewOneListSharder_def map_sum_Inr split: if_splits)

lemma eviction_stable_rule:
  assumes "pd_sorter srt" "sharder_ok s" "distinct ps" "sharder_ComputeEvictionList srt pretty (with_pref pref s) ps = Some ev"
    and "distinct qs" "set qs \<subseteq> set ps - set ev" "{p. pref p} \<subseteq> {p. pref' p}"
  shows "sharder_ComputeEvictionList srt pretty (with_pref pref' s) qs = Some []"
proof (cases s)
  case (Lists ls)
  let ?ls = "ls\<lparr>preferredContains := pref\<rparr>"
  have "lists_wf ?ls" "distances_total ?ls"
    using assms(2) by (simp_all add: Lists sharder_ok_def)
  from lists_stable [OF assms(1) this assms(3) _ assms(5,6), of pretty pref'] show ?thesis
    using assms(4,7) by (auto simp: Lists sharder_ComputeEvictionList_def)
next
  case (OneList ols)
  then show ?thesis using one_list_stable [OF assms(1) _ assms(3) _ assms(5,6)] assms(2,4)
    by (simp add: sharder_ok_def sharder_ComputeEvictionList_def)
qed (simp add: sharder_ComputeEvictionList_def NilList_ComputeEvictionList_def)

text \<open>
  C11. Evictions come to rest: when the peers that the lists sharder evicted are disconnected, and possibly others with them, computing the list again evicts nobody. The spare
  capacity that a list gives to the next ones is thus never taken back from peers that were kept.
\<close>

theorem eviction_stable:
  assumes "pd_sorter srt" "sharder_ok s" "distinct ps" "sharder_ComputeEvictionList srt pretty (with_pref pref s) ps = Some ev"
    and "distinct qs" "set qs \<subseteq> set ps - set ev" "{p. pref p} \<subseteq> {p. pref' p}"
  shows "sharder_ComputeEvictionList srt pretty (with_pref pref' s) qs = Some []"
  by (rule eviction_stable_rule [OF assms])

theorem eviction_stable_witness:
  "sharder_ComputeEvictionList (insertionSort pd_Distance) id (with_pref (\<lambda>p. p = ''d'') (Lists example_sharder))
      [''b'', ''c'', ''d'', ''u'', ''v''] = Some [''b'', ''v''] \<and>
   sharder_ComputeEvictionList (insertionSort pd_Distance) id (with_pref (\<lambda>p. p \<in> {''c'', ''d''}) (Lists example_sharder))
      [''c'', ''u''] = Some []"
proof -
  have ok: "sharder_ok (Lists example_sharder)"
    using NewListsSharder_wf(1) [OF example_new] NewListsSharder_total [OF example_new] by (simp add: sharder_ok_def)
  have "with_pref (\<lambda>p. p = ''d'') (Lists example_sharder) = Lists example_sharder" by (simp add: example_sharder_def)
  then have e: "sharder_ComputeEvictionList (insertionSort pd_Distance) id (with_pref (\<lambda>p. p = ''d'') (Lists example_sharder))
      [''b'', ''c'', ''d'', ''u'', ''v''] = Some [''b'', ''v'']"
    using example_evicts by (simp add: sharder_ComputeEvictionList_def)
  show ?thesis
    using eviction_stable [OF pd_ins.pd_sorter_axioms ok _ e, of "[''c'', ''u'']" "\<lambda>p. p \<in> {''c'', ''d''}"] e by auto
qed

end
