(* ===== verification/Node_Network.thy ===== *)
theory Node_Network
  imports Eviction_Stable Monitor_System Messages_Handler Discovery
begin

text \<open>
  The parts of a messenger that decide who stays connected, working together as \<^verbatim>\<open>addComponentsToNode\<close> in \<^verbatim>\<open>libp2p/netMessenger.go\<close> wires them: connections open and
  close, the connection monitor is notified of them and asks the sharder and the holder of the preferred peers, the messages handler receives
  messages and denies the senders of malformed ones through the evaluator of the monitor, and the sweep of the monitor closes
  denied peers. All of these run beside each other: a connection is open before its notification is handled, other notifications
  and messages come in between, and the calls that close a peer or a connection come one by one after the decision.

  The network of libp2p is the list of its connections. Closing a peer closes all its connections, and every closed connection is notified.
\<close>

section \<open>The node\<close>

record ('ps, 'ev, 'c) node =
  nd_handler :: "('ps, 'ev, 'c) messagesHandler"
  nd_monitor :: connectionMonitor
  nd_conns :: "network_conn list"
  nd_opened :: "network_conn list"
  nd_closing :: "peer_id list"
  nd_dropping :: "network_conn list"
  nd_closed :: "network_conn list"

text \<open>The monitor and the messages handler use the same evaluator, whose state is that of the handler.\<close>

definition shared_monitor :: "('ps, 'ev, 'c) mh_env \<Rightarrow> ('ps, 'ev, 'c) node \<Rightarrow> connectionMonitor" where
  "shared_monitor E s = (nd_monitor s)\<lparr>peerDenialEvaluator := pd_IsDenied (h_denial E) (mh_evaluator (nd_handler s))\<rparr>"

definition denied :: "('ps, 'ev, 'c) mh_env \<Rightarrow> ('ps, 'ev, 'c) node \<Rightarrow> peer_id \<Rightarrow> bool" where
  "denied E s p = pd_IsDenied (h_denial E) (mh_evaluator (nd_handler s)) p"

definition node_init :: "('ps, 'ev, 'c) messagesHandler \<Rightarrow> connectionMonitor \<Rightarrow> ('ps, 'ev, 'c) node" where
  "node_init h lcms = \<lparr>nd_handler = h, nd_monitor = lcms, nd_conns = [], nd_opened = [], nd_closing = [], nd_dropping = [], nd_closed = []\<rparr>"

definition peers_to_close :: "monitor_action list \<Rightarrow> peer_id list" where
  "peers_to_close acts = concat (map (\<lambda>a. case a of ClosePeer p \<Rightarrow> [p] | _ \<Rightarrow> []) acts)"

definition node_sweep :: "('ps, 'ev, 'c) mh_env \<Rightarrow> ('ps, 'ev, 'c) node \<Rightarrow> ('ps, 'ev, 'c) node" where
  "node_sweep E s =
     s\<lparr>nd_closing := nd_closing s @ peers_to_close (checkConnectionsBlocking (shared_monitor E s) (network_Peers (nd_conns s)))\<rparr>"

text \<open>
  What comes from outside: a connection opens or fails, a message arrives, the timer of the sweep fires, the shard of a preferred peer becomes known. \<open>isPeer\<close> tells the ids of
  peers from the ids of connections.
\<close>

inductive node_outside ::
    "('ps, 'ev, 'c) mh_env \<Rightarrow> (peer_id \<Rightarrow> bool) \<Rightarrow> ('ps, 'ev, 'c) node \<Rightarrow> ('ps, 'ev, 'c) node \<Rightarrow> bool"
  for E :: "('ps, 'ev, 'c) mh_env" and isPeer :: "peer_id \<Rightarrow> bool" where
  conn_opens: "isPeer (RemotePeer conn) \<Longrightarrow> \<not> isPeer (conn_ID conn) \<Longrightarrow> conn \<notin> set (nd_conns s) \<Longrightarrow>
    node_outside E isPeer s (s\<lparr>nd_conns := nd_conns s @ [conn], nd_opened := nd_opened s @ [conn]\<rparr>)"
| conn_fails: "conn \<in> set (nd_conns s) \<Longrightarrow>
    node_outside E isPeer s (s\<lparr>nd_conns := remove1 conn (nd_conns s), nd_closed := nd_closed s @ [conn]\<rparr>)"
| message_arrives: "pubsubCallback E topicProcs (nd_handler s) now p (Some pb) = (ok, h) \<Longrightarrow>
    node_outside E isPeer s (s\<lparr>nd_handler := h\<rparr>)"
| sweep_fires: "node_outside E isPeer s (node_sweep E s)"
| shard_known: "node_outside E isPeer s
    (s\<lparr>nd_monitor := (nd_monitor s)\<lparr>preferredPeersHolder := PutShardID (preferredPeersHolder (nd_monitor s)) p shard\<rparr>\<rparr>)"

text \<open>What the node does by itself: it handles notifications and makes the calls that close peers and connections.\<close>

inductive node_inside ::
    "('ps, 'ev, 'c) mh_env \<Rightarrow> (PeerDistance list \<Rightarrow> PeerDistance list) \<Rightarrow> (peer_id \<Rightarrow> string) \<Rightarrow> uint32
     \<Rightarrow> ('ps, 'ev, 'c) node \<Rightarrow> ('ps, 'ev, 'c) node \<Rightarrow> bool"
  for E :: "('ps, 'ev, 'c) mh_env" and srt :: "PeerDistance list \<Rightarrow> PeerDistance list" and pretty :: "peer_id \<Rightarrow> string"
    and allShardId :: uint32 where
  notified_open: "conn \<in> set (nd_opened s) \<Longrightarrow>
    Connected srt pretty allShardId (shared_monitor E s) (network_Peers (nd_conns s)) conn = Some (acts, lcms) \<Longrightarrow>
    node_inside E srt pretty allShardId s
      (s\<lparr>nd_opened := remove1 conn (nd_opened s), nd_monitor := lcms, nd_closing := nd_closing s @ peers_to_close acts,
         nd_dropping := nd_dropping s @ (if ConnClose \<in> set acts then [conn] else [])\<rparr>)"
| peer_closed: "p \<in> set (nd_closing s) \<Longrightarrow>
    node_inside E srt pretty allShardId s
      (s\<lparr>nd_closing := remove1 p (nd_closing s), nd_conns := filter (\<lambda>c. RemotePeer c \<noteq> p) (nd_conns s),
         nd_closed := nd_closed s @ filter (\<lambda>c. RemotePeer c = p) (nd_conns s)\<rparr>)"
| conn_dropped: "conn \<in> set (nd_dropping s) \<Longrightarrow>
    node_inside E srt pretty allShardId s
      (s\<lparr>nd_dropping := remove1 conn (nd_dropping s), nd_conns := filter (\<lambda>c. c \<noteq> conn) (nd_conns s),
         nd_closed := nd_closed s @ filter (\<lambda>c. c = conn) (nd_conns s)\<rparr>)"
| notified_closed: "conn \<in> set (nd_closed s) \<Longrightarrow>
    Disconnected (nd_monitor s) (network_Peers (nd_conns s)) (Some conn) = Some (needed, lcms) \<Longrightarrow>
    node_inside E srt pretty allShardId s (s\<lparr>nd_closed := remove1 conn (nd_closed s), nd_monitor := lcms\<rparr>)"

inductive_cases node_outsideE: "node_outside E isPeer s s'"
inductive_cases node_insideE: "node_inside E srt pretty allShardId s s'"

definition node_step ::
    "('ps, 'ev, 'c) mh_env \<Rightarrow> (PeerDistance list \<Rightarrow> PeerDistance list) \<Rightarrow> (peer_id \<Rightarrow> string) \<Rightarrow> uint32 \<Rightarrow> (peer_id \<Rightarrow> bool)
     \<Rightarrow> ('ps, 'ev, 'c) node \<Rightarrow> ('ps, 'ev, 'c) node \<Rightarrow> bool" where
  "node_step E srt pretty allShardId isPeer s s' \<longleftrightarrow> node_outside E isPeer s s' \<or> node_inside E srt pretty allShardId s s'"

definition at_rest :: "('ps, 'ev, 'c) node \<Rightarrow> bool" where
  "at_rest s \<longleftrightarrow> nd_opened s = [] \<and> nd_closing s = [] \<and> nd_dropping s = [] \<and> nd_closed s = []"

text \<open>The eviction list of the connected peers, as the sharder would compute it now.\<close>

definition evictions_now ::
    "(PeerDistance list \<Rightarrow> PeerDistance list) \<Rightarrow> (peer_id \<Rightarrow> string) \<Rightarrow> ('ps, 'ev, 'c) node \<Rightarrow> peer_id list option" where
  "evictions_now srt pretty s =
     sharder_ComputeEvictionList srt pretty (with_preferred (preferredPeersHolder (nd_monitor s)) (cm_sharder (nd_monitor s)))
       (network_Peers (nd_conns s))"

section \<open>The holder of the preferred peers in the node\<close>

lemma with_preferred_pref: "with_preferred ph s = with_pref (Contains ph) s"
  by (simp add: with_preferred_def with_pref_def)

lemma set_network_Peers [simp]: "set (network_Peers conns) = RemotePeer ` set conns" "distinct (network_Peers conns)"
  by (simp_all add: network_Peers_def)

text \<open>Only ids of peers are in the holder.\<close>

definition holder_peers :: "(peer_id \<Rightarrow> bool) \<Rightarrow> peersHolder \<Rightarrow> bool" where
  "holder_peers isPeer ph \<longleftrightarrow> (\<forall>p. peerIDs ph p \<noteq> None \<or> tempPeerIDsWaitingForShard ph p \<noteq> None \<longrightarrow> isPeer p)"

lemma holder_peers_put:
  assumes "holder_peers isPeer ph"
  shows "isPeer p \<Longrightarrow> holder_peers isPeer (PutConnectionAddress allShardId ph p addr)" "holder_peers isPeer (PutShardID ph p shard)"
  using assms
  by (auto simp: holder_peers_def PutConnectionAddress_def addNewPeerInfoToMaps_def PutShardID_def Let_def split: option.splits if_splits)

lemma Contains_PutShardID: "Contains ph q \<Longrightarrow> Contains (PutShardID ph p shard) q"
  by (auto simp: Contains_def PutShardID_def Let_def split: option.splits)

lemma Disconnected_same:
  assumes "\<not> Contains (preferredPeersHolder lcms) (conn_ID conn)"
  shows "Disconnected lcms peers (Some conn) = Some (doReconnectionIfNeeded lcms peers, lcms)"
  using assms by (simp add: Disconnected_def Remove_def Contains_def)

lemma Connected_cases:
  assumes "Connected srt pretty allShardId lcms peers conn = Some (acts, lcms')"
  obtains (refused) "peerDenialEvaluator lcms (RemotePeer conn)" "acts = [ConnClose]" "lcms' = lcms"
  | (let_in) ev where "\<not> peerDenialEvaluator lcms (RemotePeer conn)"
      "sharder_ComputeEvictionList srt pretty (with_preferred (preferredPeersHolder lcms) (cm_sharder lcms)) peers = Some ev"
      "acts = NewKnownConnection (RemotePeer conn) (RemoteMultiaddr conn) # map ClosePeer ev"
      "lcms' = lcms\<lparr>preferredPeersHolder := PutConnectionAddress allShardId (preferredPeersHolder lcms) (RemotePeer conn) (RemoteMultiaddr conn)\<rparr>"
proof -
  have "with_preferred (PutConnectionAddress allShardId (preferredPeersHolder lcms) p a) (cm_sharder lcms) =
      with_preferred (preferredPeersHolder lcms) (cm_sharder lcms)" for p a
    by (rule with_preferred_cong) (rule Contains_PutConnectionAddress)
  then show thesis using assms that by (auto simp: Connected_def Let_def split: if_splits Option.bind_splits)
qed

lemma peers_to_close_simps [simp]:
  "peers_to_close [ConnClose] = []" "peers_to_close (NewKnownConnection p a # map ClosePeer ps) = ps"
  "peers_to_close (checkConnectionsBlocking lcms ps) = filter (peerDenialEvaluator lcms) ps"
proof -
  have "concat (map (\<lambda>a. case a of ClosePeer p \<Rightarrow> [p] | _ \<Rightarrow> []) (map ClosePeer ps)) = ps" for ps by (induction ps) simp_all
  then show "peers_to_close (NewKnownConnection p a # map ClosePeer ps) = ps" by (simp add: peers_to_close_def)
  show "peers_to_close (checkConnectionsBlocking lcms ps) = filter (peerDenialEvaluator lcms) ps"
    by (induction ps) (simp_all add: peers_to_close_def checkConnectionsBlocking_def)
qed (simp add: peers_to_close_def)


section \<open>Invariants\<close>

definition conn_ok :: "(peer_id \<Rightarrow> bool) \<Rightarrow> network_conn \<Rightarrow> bool" where
  "conn_ok isPeer c \<longleftrightarrow> isPeer (RemotePeer c) \<and> \<not> isPeer (conn_ID c)"

definition ids_ok :: "(peer_id \<Rightarrow> bool) \<Rightarrow> ('ps, 'ev, 'c) node \<Rightarrow> bool" where
  "ids_ok isPeer s \<longleftrightarrow> holder_peers isPeer (preferredPeersHolder (nd_monitor s)) \<and>
     (\<forall>c \<in> set (nd_conns s) \<union> set (nd_opened s) \<union> set (nd_closed s). conn_ok isPeer c)"

text \<open>
  The connections whose notification was handled and that are not being dropped belong to peers that the last eviction list was computed for; those on the list are being closed.
\<close>

definition covered :: "('ps, 'ev, 'c) node \<Rightarrow> peer_id list \<Rightarrow> peer_id list \<Rightarrow> bool" where
  "covered s ps ev \<longleftrightarrow> (\<forall>c \<in> set (nd_conns s). c \<in> set (nd_opened s) \<or> c \<in> set (nd_dropping s) \<or>
     RemotePeer c \<in> set ps \<and> (RemotePeer c \<in> set ev \<longrightarrow> RemotePeer c \<in> set (nd_closing s)))"

definition limited ::
    "(PeerDistance list \<Rightarrow> PeerDistance list) \<Rightarrow> (peer_id \<Rightarrow> string) \<Rightarrow> sharder \<Rightarrow> ('ps, 'ev, 'c) node \<Rightarrow> bool" where
  "limited srt pretty S s \<longleftrightarrow> cm_sharder (nd_monitor s) = S \<and>
     (\<exists>ps ev pref. distinct ps \<and> sharder_ComputeEvictionList srt pretty (with_pref pref S) ps = Some ev \<and>
        (\<forall>p. pref p \<longrightarrow> Contains (preferredPeersHolder (nd_monitor s)) p) \<and> covered s ps ev)"

lemma limitedI:
  assumes "cm_sharder (nd_monitor s) = S" "distinct ps" "sharder_ComputeEvictionList srt pretty (with_pref pref S) ps = Some ev"
    "\<And>p. pref p \<Longrightarrow> Contains (preferredPeersHolder (nd_monitor s)) p" "covered s ps ev"
  shows "limited srt pretty S s"
  using assms unfolding limited_def by blast

lemma shared_monitor_sel [simp]:
  "cm_sharder (shared_monitor E s) = cm_sharder (nd_monitor s)"
  "preferredPeersHolder (shared_monitor E s) = preferredPeersHolder (nd_monitor s)"
  "peerDenialEvaluator (shared_monitor E s) = denied E s"
  by (simp_all add: shared_monitor_def denied_def fun_eq_iff)

lemma ids_ok_outside: "node_outside E isPeer s s' \<Longrightarrow> ids_ok isPeer s \<Longrightarrow> ids_ok isPeer s'"
  by (erule node_outsideE) (auto simp: ids_ok_def conn_ok_def holder_peers_put node_sweep_def dest: notin_set_remove1 set_remove1_subset [THEN subsetD])

lemma closed_not_preferred:
  "ids_ok isPeer s \<Longrightarrow> conn \<in> set (nd_closed s) \<Longrightarrow> \<not> Contains (preferredPeersHolder (nd_monitor s)) (conn_ID conn)"
  by (auto simp: ids_ok_def conn_ok_def holder_peers_def Contains_def)

lemma ids_ok_inside:
  assumes "node_inside E srt pretty allShardId s s'" "ids_ok isPeer s"
  shows "ids_ok isPeer s'"
  using assms(1)
proof cases
  case (notified_open conn acts lcms)
  have "isPeer (RemotePeer conn)" using assms(2) notified_open(2) by (auto simp: ids_ok_def conn_ok_def)
  with notified_open(3) assms(2) have "holder_peers isPeer (preferredPeersHolder lcms)"
    by (cases rule: Connected_cases) (auto simp: ids_ok_def holder_peers_put)
  then show ?thesis using assms(2) notified_open(1) by (auto simp: ids_ok_def dest: notin_set_remove1 set_remove1_subset [THEN subsetD])
next
  case (notified_closed conn needed lcms)
  then show ?thesis using assms(2) Disconnected_same [OF closed_not_preferred [OF assms(2) notified_closed(2)], of "network_Peers (nd_conns s)"]
    by (auto simp: ids_ok_def dest: set_remove1_subset [THEN subsetD])
qed (use assms(2) in \<open>auto simp: ids_ok_def\<close>)

lemma limited_outside:
  assumes "node_outside E isPeer s s'" "limited srt pretty S s"
  shows "limited srt pretty S s'"
proof -
  obtain ps ev pref where l: "cm_sharder (nd_monitor s) = S" "distinct ps" "sharder_ComputeEvictionList srt pretty (with_pref pref S) ps = Some ev"
      "\<And>p. pref p \<Longrightarrow> Contains (preferredPeersHolder (nd_monitor s)) p" "covered s ps ev"
    using assms(2) unfolding limited_def by blast
  show ?thesis
  proof (rule limitedI [OF _ l(2,3)])
    show "cm_sharder (nd_monitor s') = S" using assms(1) l(1) by cases (simp_all add: node_sweep_def)
    show "Contains (preferredPeersHolder (nd_monitor s')) p" if "pref p" for p
      using assms(1) l(4) [OF that] by cases (simp_all add: Contains_PutShardID node_sweep_def)
    show "covered s' ps ev" using assms(1) l(5)
      by cases (auto simp: covered_def node_sweep_def dest: set_remove1_subset [THEN subsetD])
  qed
qed

lemma limited_inside:
  assumes "node_inside E srt pretty allShardId s s'" "ids_ok isPeer s" "limited srt pretty S s"
  shows "limited srt pretty S s'"
proof -
  obtain ps ev pref where l: "cm_sharder (nd_monitor s) = S" "distinct ps" "sharder_ComputeEvictionList srt pretty (with_pref pref S) ps = Some ev"
      "\<And>p. pref p \<Longrightarrow> Contains (preferredPeersHolder (nd_monitor s)) p" "covered s ps ev"
    using assms(3) unfolding limited_def by blast
  note same = limitedI [OF _ l(2,3)]
  show ?thesis using assms(1)
  proof cases
    case (notified_open conn acts lcms)
    from notified_open(3) show ?thesis
    proof (cases rule: Connected_cases)
      case refused
      then show ?thesis using l notified_open(1)
        by (intro same) (auto simp: covered_def)
    next
      case (let_in ev')
      let ?pref = "Contains (preferredPeersHolder (nd_monitor s))"
      show ?thesis
      proof (rule limitedI [of _ _ "network_Peers (nd_conns s)" srt pretty ?pref ev'])
        show "covered s' (network_Peers (nd_conns s)) ev'" using let_in(3) notified_open(1) by (auto simp: covered_def)
        show "Contains (preferredPeersHolder (nd_monitor s')) p" if "?pref p" for p
          using that let_in(4) notified_open(1) by (simp add: Contains_PutConnectionAddress)
      qed (use let_in l(1) notified_open(1) in \<open>simp_all add: with_preferred_pref\<close>)
    qed
  next
    case (notified_closed conn needed lcms)
    then have "lcms = nd_monitor s" using Disconnected_same [OF closed_not_preferred [OF assms(2) notified_closed(2)]] by simp
    then show ?thesis using l notified_closed(1) by (intro same) (auto simp: covered_def)
  next
    case (peer_closed p)
    then show ?thesis using l by (intro same) (auto simp: covered_def)
  next
    case (conn_dropped conn)
    then show ?thesis using l by (intro same) (auto simp: covered_def)
  qed
qed


lemma node_reach:
  assumes "(node_step E srt pretty allShardId isPeer)\<^sup>*\<^sup>* s0 s" "ids_ok isPeer s0" "limited srt pretty S s0"
  shows "ids_ok isPeer s \<and> limited srt pretty S s"
  using assms
proof (induction rule: rtranclp_induct)
  case (step y z)
  then show ?case unfolding node_step_def
    using ids_ok_outside ids_ok_inside limited_outside limited_inside by metis
qed simp

text \<open>A monitor with a sharder of the factory, the seeders set, and a new holder.\<close>

definition fresh_monitor ::
    "(peer_id \<Rightarrow> bytes) \<Rightarrow> ArgsSharderFactory \<Rightarrow> string list \<Rightarrow> (string \<Rightarrow> bool) \<Rightarrow> (string \<Rightarrow> bool) \<Rightarrow> string list \<Rightarrow> connectionMonitor \<Rightarrow> bool" where
  "fresh_monitor convert arg seeders parseIP newPeerID addresses lcms \<longleftrightarrow>
     (\<exists>S. NewSharder convert arg = Inr S \<and> cm_sharder lcms = sharder_SetSeeders S seeders) \<and>
     NewPeersHolder parseIP newPeerID addresses = Inr (preferredPeersHolder lcms)"

lemma NewPeersHolder_loop_empty:
  "NewPeersHolder_loop valid addresses ph = Inr ph' \<Longrightarrow>
   peerIDs ph' = peerIDs ph \<and> tempPeerIDsWaitingForShard ph' = tempPeerIDsWaitingForShard ph"
  by (induction valid addresses ph rule: NewPeersHolder_loop.induct) (auto split: if_splits)

lemma fresh_node:
  assumes "fresh_monitor convert arg seeders parseIP newPeerID addresses lcms" "\<forall>p. length (convert p) = 32"
  shows "sharder_ok (cm_sharder lcms)" "ids_ok isPeer (node_init h lcms)" "limited srt pretty (cm_sharder lcms) (node_init h lcms)"
proof -
  show ok: "sharder_ok (cm_sharder lcms)" using assms NewSharder_ok by (auto simp: fresh_monitor_def)
  have e: "peerIDs (preferredPeersHolder lcms) = Map.empty" "tempPeerIDsWaitingForShard (preferredPeersHolder lcms) = Map.empty"
    using assms(1) NewPeersHolder_loop_empty by (fastforce simp: fresh_monitor_def NewPeersHolder_def)+
  then show "ids_ok isPeer (node_init h lcms)" by (simp add: ids_ok_def node_init_def holder_peers_def)
  obtain ev where "sharder_ComputeEvictionList srt pretty (with_pref (\<lambda>_. False) (cm_sharder lcms)) [] = Some ev"
    using sharder_total [of "with_pref (\<lambda>_. False) (cm_sharder lcms)" srt pretty "[]"] ok by auto
  then show "limited srt pretty (cm_sharder lcms) (node_init h lcms)"
    by (intro limitedI [of _ _ "[]" srt pretty "\<lambda>_. False" ev]) (auto simp: node_init_def covered_def)
qed

lemma at_rest_stable:
  assumes "pd_sorter srt" "sharder_ok S" "limited srt pretty S s" "at_rest s"
  shows "evictions_now srt pretty s = Some []"
proof -
  obtain ps ev pref where l: "cm_sharder (nd_monitor s) = S" "distinct ps" "sharder_ComputeEvictionList srt pretty (with_pref pref S) ps = Some ev"
      "\<And>p. pref p \<Longrightarrow> Contains (preferredPeersHolder (nd_monitor s)) p" "covered s ps ev"
    using assms(3) unfolding limited_def by blast
  have "set (network_Peers (nd_conns s)) \<subseteq> set ps - set ev" using l(5) assms(4) by (auto simp: covered_def at_rest_def)
  then show ?thesis unfolding evictions_now_def with_preferred_pref l(1)
    using eviction_stable_rule [OF assms(1,2) l(2,3) set_network_Peers(2)] l(4) by blast
qed

section \<open>Coming to rest\<close>

definition work_left :: "('ps, 'ev, 'c) node \<Rightarrow> nat \<times> nat \<times> nat" where
  "work_left s = (length (nd_opened s), length (nd_closing s) + length (nd_dropping s), length (nd_closed s))"

lemma length_remove1_less: "x \<in> set xs \<Longrightarrow> length (remove1 x xs) < length xs"
  by (metis length_remove1 One_nat_def Suc_pred length_pos_if_in_set lessI)

lemma inside_decreases:
  "node_inside E srt pretty allShardId s s' \<Longrightarrow> (work_left s', work_left s) \<in> less_than <*lex*> less_than <*lex*> less_than"
  by (erule node_insideE) (simp_all add: work_left_def length_remove1_less)

lemma inside_wf: "wfp (\<lambda>s' s. node_inside E srt pretty allShardId s s')"
proof (rule wfp_subset)
  show "wfp (\<lambda>s' s. (work_left s', work_left s) \<in> less_than <*lex*> less_than <*lex*> less_than)"
    using wf_inv_image [of "less_than <*lex*> less_than <*lex*> less_than" work_left]
    by (simp add: wf_lex_prod wfp_def inv_image_def)
  show "(\<lambda>s' s. node_inside E srt pretty allShardId s s') \<le>
      (\<lambda>s' s. (work_left s', work_left s) \<in> less_than <*lex*> less_than <*lex*> less_than)"
    using inside_decreases by blast
qed

lemma inside_progress:
  assumes "ids_ok isPeer s" "sharder_ok (cm_sharder (nd_monitor s))" "\<not> at_rest s"
  shows "\<exists>s'. node_inside E srt pretty allShardId s s'"
proof -
  consider "nd_opened s \<noteq> []" | "nd_closing s \<noteq> []" | "nd_dropping s \<noteq> []" | "nd_closed s \<noteq> []"
    using assms(3) by (auto simp: at_rest_def)
  then show ?thesis
  proof cases
    case 1
    have "Connected srt pretty allShardId (shared_monitor E s) (network_Peers (nd_conns s)) (hd (nd_opened s)) \<noteq> None"
      using sharder_total [of "with_pref (Contains ph) (cm_sharder (nd_monitor s))" srt pretty "network_Peers (nd_conns s)" for ph] assms(2)
      by (auto simp: Connected_def Let_def with_preferred_pref split: Option.bind_splits) (metis option.distinct(1))
    then show ?thesis using notified_open [OF hd_in_set [OF 1]] by fast
  next
    case 4
    have c: "hd (nd_closed s) \<in> set (nd_closed s)" using 4 by simp
    show ?thesis using notified_closed [OF c Disconnected_same [OF closed_not_preferred [OF assms(1) c]]] by blast
  qed (blast dest: hd_in_set intro: peer_closed conn_dropped)+
qed


section \<open>Results\<close>

lemma rest_reached:
  assumes "pd_sorter srt" "fresh_monitor convert arg seeders parseIP newPeerID addresses lcms" "\<forall>p. length (convert p) = 32"
    and "(node_step E srt pretty allShardId isPeer)\<^sup>*\<^sup>* (node_init h lcms) s"
  shows "wfp (\<lambda>s' s. node_inside E srt pretty allShardId s s') \<and>
    (\<exists>s'. (node_inside E srt pretty allShardId)\<^sup>*\<^sup>* s s' \<and> at_rest s' \<and> evictions_now srt pretty s' = Some [])"
proof (rule conjI [OF inside_wf])
  note fresh = fresh_node [OF assms(2,3)]
  let ?inv = "\<lambda>s. ids_ok isPeer s \<and> limited srt pretty (cm_sharder lcms) s"
  have "?inv s" using node_reach [OF assms(4) fresh(2,3)] .
  then show "\<exists>s'. (node_inside E srt pretty allShardId)\<^sup>*\<^sup>* s s' \<and> at_rest s' \<and> evictions_now srt pretty s' = Some []"
  proof (induction s rule: wfp_induct_rule [OF inside_wf [of E srt pretty allShardId]])
    case (1 s)
    show ?case
    proof (cases "at_rest s")
      case True
      then show ?thesis using at_rest_stable [OF assms(1) fresh(1)] 1(2) by blast
    next
      case False
      then obtain s1 where s1: "node_inside E srt pretty allShardId s s1"
        using inside_progress [of isPeer s] 1(2) fresh(1) unfolding limited_def by metis
      moreover have "?inv s1" using ids_ok_inside [OF s1] limited_inside [OF s1] 1(2) by blast
      ultimately show ?thesis using 1(1) converse_rtranclp_into_rtranclp by metis
    qed
  qed
qed

definition example_factory :: ArgsSharderFactory where
  "example_factory = \<lparr>PeerShardResolver = Some example_info, Pid = ''a'', f_P2pConfig = P2pConfig example_arg,
     f_PreferredPeersHolder = Some (\<lambda>p. p = ''d''), f_hasLogger = True\<rparr>"

definition fresh_example :: connectionMonitor where
  "fresh_example = example_monitor\<lparr>preferredPeersHolder := \<lparr>preferredConnAddresses = [], connAddrToPeersInfo = Map.empty,
     tempPeerIDsWaitingForShard = Map.empty, peerIDsPerShard = Map.empty, peerIDs = Map.empty\<rparr>\<rparr>"

lemma fresh_example_ok: "fresh_monitor pad_key example_factory [] (\<lambda>_. True) (\<lambda>_. True) [] fresh_example"
proof -
  have "NewSharder pad_key example_factory = Inr (Lists example_sharder)"
    using example_new by (simp add: NewSharder_def example_factory_def example_arg_def)
  moreover have "sharder_SetSeeders (Lists example_sharder) [] = Lists example_sharder"
    by (simp add: sharder_SetSeeders_def SetSeeders_def example_sharder_def)
  ultimately show ?thesis by (simp add: fresh_monitor_def fresh_example_def example_monitor_def NewPeersHolder_def)
qed

definition two_conns :: "network_conn list" where
  "two_conns = [\<lparr>RemotePeer = ''b'', RemoteMultiaddr = ''/1'', conn_ID = ''c-1''\<rparr>, \<lparr>RemotePeer = ''c'', RemoteMultiaddr = ''/2'', conn_ID = ''c-2''\<rparr>]"

abbreviation ex_step :: "(string set, peer_id set, peer_id \<rightharpoonup> cache_val) node \<Rightarrow> (string set, peer_id set, peer_id \<rightharpoonup> cache_val) node \<Rightarrow> bool" where
  "ex_step \<equiv> node_step ex_mh_env (insertionSort pd_Distance) id 0 (\<lambda>p. length p = 1)"

abbreviation ex_inside :: "(string set, peer_id set, peer_id \<rightharpoonup> cache_val) node \<Rightarrow> (string set, peer_id set, peer_id \<rightharpoonup> cache_val) node \<Rightarrow> bool" where
  "ex_inside \<equiv> node_inside ex_mh_env (insertionSort pd_Distance) id 0"

lemma two_open:
  "ex_step\<^sup>*\<^sup>* (node_init ex_mh fresh_example) ((node_init ex_mh fresh_example)\<lparr>nd_conns := two_conns, nd_opened := two_conns\<rparr>)"
proof -
  let ?s = "node_init ex_mh fresh_example" and ?c = "hd two_conns" and ?d = "last two_conns"
  have "ex_step ?s (?s\<lparr>nd_conns := [?c], nd_opened := [?c]\<rparr>)"
    using conn_opens [of "\<lambda>p. length p = 1" ?c ?s ex_mh_env] by (simp add: node_step_def node_init_def two_conns_def)
  moreover have "ex_step (?s\<lparr>nd_conns := [?c], nd_opened := [?c]\<rparr>) (?s\<lparr>nd_conns := [?c, ?d], nd_opened := [?c, ?d]\<rparr>)"
    using conn_opens [of "\<lambda>p. length p = 1" ?d "?s\<lparr>nd_conns := [?c], nd_opened := [?c]\<rparr>" ex_mh_env]
    by (simp add: node_step_def node_init_def two_conns_def)
  ultimately show ?thesis by (simp add: two_conns_def)
qed

lemma inside_steps: "ex_inside\<^sup>*\<^sup>* s s' \<Longrightarrow> ex_step\<^sup>*\<^sup>* s s'"
  by (rule rtranclp_mono [THEN predicate2D]) (auto simp: node_step_def)





section \<open>Denied peers\<close>

text \<open>Every connection of a denied peer has its notification to come or is being closed.\<close>

definition cut_off :: "('ps, 'ev, 'c) mh_env \<Rightarrow> peer_id \<Rightarrow> ('ps, 'ev, 'c) node \<Rightarrow> bool" where
  "cut_off E p s \<longleftrightarrow> denied E s p \<and>
     (\<forall>c \<in> set (nd_conns s). RemotePeer c = p \<longrightarrow> c \<in> set (nd_opened s) \<or> c \<in> set (nd_dropping s) \<or> p \<in> set (nd_closing s))"

definition denial_lasts :: "'ev denial_ops \<Rightarrow> bool" where
  "denial_lasts D \<longleftrightarrow> (\<forall>ev q. pd_IsDenied D (pd_UpsertPeerID D ev q) q) \<and>
     (\<forall>ev q r. pd_IsDenied D ev r \<longrightarrow> pd_IsDenied D (pd_UpsertPeerID D ev q) r)"

lemma message_keeps_denied:
  assumes "denial_lasts (h_denial E)" "pubsubCallback E topicProcs h now p (Some pb) = (ok, h')"
    and "pd_IsDenied (h_denial E) (mh_evaluator h) q"
  shows "pd_IsDenied (h_denial E) (mh_evaluator h') q"
proof -
  have "pd_IsDenied (h_denial E) ev q \<Longrightarrow> pd_IsDenied (h_denial E) (blacklistPid (h_denial E) ev r) q" for ev r
    using assms(1) by (auto simp: denial_lasts_def blacklistPid_def)
  then show ?thesis using assms(2,3)
    by (auto simp: pubsubCallback_def transformAndCheckMessage_def Let_def split: sum.splits option.splits if_splits prod.splits)
qed

lemma denied_outside:
  "node_outside E isPeer s s' \<Longrightarrow> denial_lasts (h_denial E) \<Longrightarrow> denied E s p \<Longrightarrow> denied E s' p"
  by (erule node_outsideE) (auto simp: denied_def node_sweep_def dest: message_keeps_denied)

lemma denied_inside: "node_inside E srt pretty allShardId s s' \<Longrightarrow> denied E s' = denied E s"
  by (erule node_insideE) (simp_all add: denied_def fun_eq_iff)

lemma cut_off_outside:
  assumes "node_outside E isPeer s s'" "denial_lasts (h_denial E)" "cut_off E p s"
  shows "cut_off E p s'"
proof -
  have "denied E s' p" using denied_outside [OF assms(1,2)] assms(3) by (simp add: cut_off_def)
  then show ?thesis using assms(1,3)
    by (elim node_outsideE) (auto simp: cut_off_def node_sweep_def dest: set_remove1_subset [THEN subsetD])
qed

lemma in_remove1_or: "x \<in> set xs \<Longrightarrow> x = y \<or> x \<in> set (remove1 y xs)"
  by (cases "x = y") (simp_all add: in_set_remove1)

lemma cut_off_inside:
  assumes "node_inside E srt pretty allShardId s s'" "cut_off E p s"
  shows "cut_off E p s'"
proof -
  have d: "denied E s' p" "denied E s p" using denied_inside [OF assms(1)] assms(2) by (simp_all add: cut_off_def)
  from assms(1) show ?thesis
  proof cases
    case (notified_open conn acts lcms)
    from notified_open(3) show ?thesis
      by (cases rule: Connected_cases) (use assms(2) d notified_open(1) in \<open>auto simp: cut_off_def dest: in_remove1_or [of _ _ conn]\<close>)
  qed (use assms(2) d in \<open>auto simp: cut_off_def\<close>)
qed


lemma cut_off_run:
  "(node_step E srt pretty allShardId isPeer)\<^sup>*\<^sup>* s s' \<Longrightarrow> denial_lasts (h_denial E) \<Longrightarrow> cut_off E p s \<Longrightarrow> cut_off E p s'"
  by (induction rule: rtranclp_induct) (auto simp: node_step_def intro: cut_off_outside cut_off_inside)

lemma denied_run:
  "(node_step E srt pretty allShardId isPeer)\<^sup>*\<^sup>* s s' \<Longrightarrow> denial_lasts (h_denial E) \<Longrightarrow> denied E s p \<Longrightarrow> denied E s' p"
  by (induction rule: rtranclp_induct) (auto simp: node_step_def denied_inside intro: denied_outside)

lemma sweep_cuts_off: "denied E s p \<Longrightarrow> cut_off E p (node_sweep E s)"
  by (auto simp: cut_off_def node_sweep_def denied_def)


definition swept_example :: "(string set, peer_id set, peer_id \<rightharpoonup> cache_val) node" where
  "swept_example = (node_init (ex_mh\<lparr>mh_evaluator := {''b'', string_of_bytes [65]}\<rparr>) fresh_example)\<lparr>nd_conns := [last two_conns]\<rparr>"


end
