(* ===== verification/Rating_Table.thy ===== *)
theory Rating_Table
  imports Peers_Rating
begin

text \<open>
  What the rating handler of \<^verbatim>\<open>p2p/rating/peersRatingHandler.go\<close> promises, without the two caches: one table from peers to ratings. Over a cache that evicts nothing, the handler
  refines the table: every sequence of calls gives the same answers and the same ratings. (What an evicting cache forgets is in \<open>Peers_Rating\<close>.)
\<close>

section \<open>The table\<close>

type_synonym rating_table = "peer_id \<rightharpoonup> int"

datatype rating_call = Increase peer_id | Decrease peer_id | TopRated "peer_id list" int

definition well_rated :: "rating_table \<Rightarrow> peer_id \<Rightarrow> bool" where
  "well_rated T p = (case T p of None \<Rightarrow> True | Some r \<Rightarrow> 0 \<le> r)"

fun table_call :: "rating_call \<Rightarrow> rating_table \<Rightarrow> peer_id list \<times> rating_table" where
  "table_call (Increase p) T = ([], T(p \<mapsto> next_rating (T p) 2))"
| "table_call (Decrease p) T = ([], T(p \<mapsto> next_rating (T p) (-1)))"
| "table_call (TopRated ps n) T =
     (if n < 1 then ([], T)
      else let good = filter (well_rated T) ps in
        (if int (length good) < n then good @ filter (\<lambda>p. \<not> well_rated T p) ps else good,
         \<lambda>p. if p \<in> set ps \<and> T p = None then Some 0 else T p))"

fun table_run :: "rating_call list \<Rightarrow> rating_table \<Rightarrow> peer_id list list \<times> rating_table" where
  "table_run [] T = ([], T)"
| "table_run (c # cs) T = (let (r, T1) = table_call c T; (rs, T2) = table_run cs T1 in (r # rs, T2))"

section \<open>The handler\<close>

fun handler_call :: "'c cacher_ops \<Rightarrow> bool \<Rightarrow> rating_call \<Rightarrow> 'c peersRatingHandler \<Rightarrow> peer_id list \<times> 'c peersRatingHandler" where
  "handler_call C trace (Increase p) s = ([], IncreaseRating C s p)"
| "handler_call C trace (Decrease p) s = ([], DecreaseRating C s p)"
| "handler_call C trace (TopRated ps n) s = GetTopRatedPeersFromList C trace s ps n"

fun handler_run :: "'c cacher_ops \<Rightarrow> bool \<Rightarrow> rating_call list \<Rightarrow> 'c peersRatingHandler \<Rightarrow> peer_id list list \<times> 'c peersRatingHandler" where
  "handler_run C trace [] s = ([], s)"
| "handler_run C trace (c # cs) s =
     (let (r, s1) = handler_call C trace c s; (rs, s2) = handler_run C trace cs s1 in (r # rs, s2))"

section \<open>Refinement\<close>

locale keeping_cacher = cacher +
  assumes Put_keeps: "j \<noteq> k \<Longrightarrow> c_Peek C (c_Put C c k v) j = c_Peek C c j"
begin

lemma put_rating_keeps:
  assumes "q \<noteq> p"
  shows "rating_of C (put_top C s p r) q = rating_of C s q" "rating_of C (put_bad C s p r) q = rating_of C s q"
  using assms by (simp_all add: rating_of_def put_top_def put_bad_def Put_keeps split: option.split)

lemma updateRating_keeps:
  assumes "q \<noteq> p"
  shows "rating_of C (updateRating C s p f) q = rating_of C s q"
proof -
  obtain s' where get: "getOldRating C s p = ((case rating_of C s p of None \<Rightarrow> (0, False) | Some r \<Rightarrow> (r, True)), s')"
    and eq: "c_Peek C (topRatedCache s') = c_Peek C (topRatedCache s)" "c_Peek C (badRatedCache s') = c_Peek C (badRatedCache s)"
    by (rule getOldRating_obtain)
  note same = peer_ok_cong(2) [OF eq]
  have "rating_of C (updateRatingCacher C s' p r r') q = rating_of C s' q" for r r'
    using remove_rating_other [OF assms, of s'] put_rating_keeps [OF assms]
    by (simp add: updateRatingCacher_def movePeerToNewTier_def Let_def)
  then show ?thesis using get put_rating_keeps(1) [OF assms, of s' defaultRating] same
    by (simp add: updateRating_def Let_def split: option.splits)
qed

lemma updateRating_table:
  assumes "ratings_ok C s" "-100 \<le> f" "f \<le> 100"
  shows "rating_of C (updateRating C s p f) = (rating_of C s)(p \<mapsto> next_rating (rating_of C s p) f)"
  using updateRating_ok(2) [OF assms, of p] updateRating_keeps [of _ p s f] by (auto simp: fun_eq_iff)

lemma well_rated_iff: "ratings_ok C s \<Longrightarrow> well_rated (rating_of C s) p \<longleftrightarrow> \<not> bad_rated C s p"
  using tier_of_rating(2,3) [of s p "the (rating_of C s p)"] no_rating [of s p]
  by (cases "rating_of C s p") (force simp: well_rated_def bad_rated_def)+

lemma splitPeersByTiers_table:
  assumes "ratings_ok C s"
  shows "rating_of C (snd (splitPeersByTiers C ps ts bs s)) =
    (\<lambda>p. if p \<in> set ps \<and> rating_of C s p = None then Some 0 else rating_of C s p)"
  using assms
proof (induction ps arbitrary: ts bs s)
  case (Cons p ps)
  show ?case
  proof (cases "rating_of C s p = None")
    case True
    then have new: "c_Peek C (topRatedCache s) p = None" "c_Peek C (badRatedCache s) p = None"
      by (simp_all add: no_rating)
    let ?s = "put_top C s p defaultRating"
    have ok: "ratings_ok C ?s" using put_top_ok [OF Cons.prems new(2)] by (simp add: defaultRating_def)
    have r: "rating_of C ?s = (rating_of C s)(p \<mapsto> 0)"
      using put_rating_keeps(1) [of _ p s defaultRating]
      by (auto simp: fun_eq_iff) (simp add: rating_of_def put_top_def assert_int32_def defaultRating_def)
    show ?thesis using Cons.IH [OF ok, of "ts @ [p]" bs] new True r by (auto simp: Has_iff fun_eq_iff)
  next
    case False
    then show ?thesis using Cons.IH [OF Cons.prems] by (auto simp: Has_iff no_rating Let_def fun_eq_iff)
  qed
qed (simp add: fun_eq_iff)

lemma top_rated_table:
  assumes "ratings_ok C s"
  shows "fst (GetTopRatedPeersFromList C trace s ps n) = fst (table_call (TopRated ps n) (rating_of C s))"
    and "rating_of C (snd (GetTopRatedPeersFromList C trace s ps n)) = snd (table_call (TopRated ps n) (rating_of C s))"
proof -
  have w: "well_rated (rating_of C s) = (\<lambda>p. \<not> bad_rated C s p)" by (simp add: fun_eq_iff well_rated_iff [OF assms])
  show "fst (GetTopRatedPeersFromList C trace s ps n) = fst (table_call (TopRated ps n) (rating_of C s))"
    using GetTopRatedPeersFromList_spec(1) [OF assms, of trace ps n] by (simp add: w Let_def)
  have d: "rating_of C (snd (displayPeersRating C qs s')) = rating_of C s'" for qs s'
    by (rule peer_ok_cong(2)) (simp_all add: displayPeersRating_keeps)
  show "rating_of C (snd (GetTopRatedPeersFromList C trace s ps n)) = snd (table_call (TopRated ps n) (rating_of C s))"
    using splitPeersByTiers_table [OF assms, of ps "[]" "[]"] d
    by (auto simp: GetTopRatedPeersFromList_def Let_def split: prod.splits)
qed

lemma call_refines:
  assumes "ratings_ok C s"
  shows "map_prod id (rating_of C) (handler_call C trace c s) = table_call c (rating_of C s) \<and>
    ratings_ok C (snd (handler_call C trace c s))"
proof (cases c)
  case (TopRated ps n)
  then show ?thesis using top_rated_table [OF assms, of trace ps n] GetTopRatedPeersFromList_spec(2) [OF assms, of trace ps n]
    by (metis handler_call.simps(3) map_prod_simp prod.collapse id_apply)
qed (use updateRating_table [OF assms] updateRating_ok(1) [OF assms] in
    \<open>simp_all add: IncreaseRating_def DecreaseRating_def increaseFactor_def decreaseFactor_def\<close>)

lemma run_refines:
  "ratings_ok C s \<Longrightarrow> map_prod id (rating_of C) (handler_run C trace cs s) = table_run cs (rating_of C s)"
proof (induction cs arbitrary: s)
  case (Cons c cs)
  obtain r s1 where c: "handler_call C trace c s = (r, s1)" by fastforce
  then have "table_call c (rating_of C s) = (r, rating_of C s1)" "ratings_ok C s1"
    using call_refines [OF Cons.prems, of trace c] by simp_all
  with Cons.IH [of s1] c show ?case by (simp add: split_beta Let_def prod_eq_iff)
qed simp

end

interpretation mock_keeps: keeping_cacher cacherMock
  by unfold_locales (simp add: cacherMock_def)

text \<open>
  C13. The rating handler refines one table of ratings: over a cache that satisfies the laws and evicts nothing, as the map of \<^verbatim>\<open>cacherMock.go\<close>, every sequence of increases, decreases and questions for
  the top rated peers returns the answers that the table gives and leaves the ratings that the table has. The two tiers, the moves between them and the order of look-ups cannot be
  seen from outside.
\<close>

theorem ratings_refine_table:
  assumes "keeping_cacher C" "ratings_ok C s"
  shows "map_prod id (rating_of C) (handler_run C trace cs s) = table_run cs (rating_of C s)"
  by (rule keeping_cacher.run_refines [OF assms])

theorem ratings_refine_table_witness:
  "fst (handler_run cacherMock False
      [Decrease ''a'', Decrease ''a'', Increase ''b'', TopRated [''a'', ''b'', ''c''] 2, TopRated [''a'', ''b''] 2] empty_ratings) =
    [[], [], [], [''b'', ''c''], [''b'', ''a'']]"
proof -
  have "rating_of cacherMock empty_ratings = Map.empty" by (simp add: rating_of_def empty_ratings_def cacherMock_def fun_eq_iff)
  then show ?thesis
    using ratings_refine_table [OF mock_keeps.keeping_cacher_axioms empty_ratings_ok, of False
        "[Decrease ''a'', Decrease ''a'', Increase ''b'', TopRated [''a'', ''b'', ''c''] 2, TopRated [''a'', ''b''] 2]"]
    by (simp add: prod_eq_iff next_rating_def well_rated_def)
qed

end
