(* ===== verification/Direct_Delivery.thy ===== *)
theory Direct_Delivery
  imports Messages_Handler
begin

text \<open>
  Direct messages from one handler to another: \<^verbatim>\<open>SendToConnectedPeer\<close> of \<^verbatim>\<open>libp2p/messagesHandler.go\<close> wraps the buffer in an envelope and gives it to the direct sender
  (\<^verbatim>\<open>libp2p/directSender.go\<close>), which signs, numbers and writes it; on the other side the direct sender checks it and gives it to \<^verbatim>\<open>ProcessReceivedMessage\<close> of the
  receiving handler, which calls the processors and rates the sender.
\<close>

text \<open>The call of the direct sender that the handler makes; the connections are those of the addressed peer.\<close>

definition send_direct ::
    "('sk, 'pk, 'tc) ds_env \<Rightarrow> 'tc directSender \<Rightarrow> (peer_id \<Rightarrow> ('conn \<times> nat) list) \<Rightarrow> ('conn \<Rightarrow> 'st stream_info list)
     \<Rightarrow> ('conn \<Rightarrow> string + 'st) \<Rightarrow> ('conn \<Rightarrow> peer_id) \<Rightarrow> ('st \<Rightarrow> pubsubMessage \<Rightarrow> string option)
     \<Rightarrow> string \<Rightarrow> bytes \<Rightarrow> peer_id \<Rightarrow> p2p_error option \<times> 'tc directSender" where
  "send_direct E ds conns streamsOf newStream localPeer write topic buff p =
     (case Send E ds topic buff (conns p) streamsOf newStream localPeer write of
        (Inl e, ds1) \<Rightarrow> (Some e, ds1) | (Inr _, ds1) \<Rightarrow> (None, ds1))"

text \<open>The receiver derives the public key of the sender from its id, and signatures verify with it.\<close>

definition knows_peer :: "('sk, 'pk, 'tc) ds_env \<Rightarrow> peer_id \<Rightarrow> 'pk \<Rightarrow> bool" where
  "knows_peer E self pk \<longleftrightarrow> cr_ConvertPeerIDToPublicKey (e_crypto E) self = Inr pk \<and>
     (\<forall>h s. cr_Sign (e_crypto E) (e_privateKey E) h = Inr s \<longrightarrow> cr_Verify (e_crypto E) pk h s = None) \<and>
     e_idFromBytes E (bytes_of_string self) = Inr self"

definition envelope_of :: "bytes \<Rightarrow> int64 \<Rightarrow> TopicMessage" where
  "envelope_of buff now = \<lparr>tm_Version = 1, tm_Payload = buff, tm_Timestamp = now, tm_Pk = [], tm_SignatureOnPid = []\<rparr>"

definition next_id :: "'tc directSender \<Rightarrow> peer_id \<Rightarrow> string" where
  "next_id ds self = string_of_bytes (bytes_of_string self) @ string_of_bytes (PutUint64 (counter ds + 1))"

lemma sent_message_id:
  assumes "Send E ds topic buff conns streamsOf newStream localPeer write = (Inr (st, pb), ds1)" "\<forall>conn. localPeer conn = self"
  shows "messageId pb = next_id ds self"
proof -
  from Send_created [OF assms(1)] assms(2) have "createMessage E ds topic buff self = (Inr pb, ds1)" by auto
  from createMessage_fields [OF this] show ?thesis by (simp add: messageId_def next_id_def)
qed

lemma received_is_direct:
  "processReceivedDirectMessage E dr (Some pb) p = (Inr m, dr') \<Longrightarrow> BroadcastMethodField m = Direct"
  by (auto simp: processReceivedDirectMessage_def NewMessage_def Let_def split: if_splits prod.splits option.splits sum.splits bool.splits)

lemma SendToConnectedPeer_sent:
  assumes "SendToConnectedPeer E h ds (send_direct D ds conns streamsOf newStream localPeer write) now topic buff p = ((None, h'), ds1)"
    and "p \<noteq> h_peerID E" "m_Marshal (h_marshaller E) (envelope_of buff now) = Inr d" "d \<noteq> []"
  shows "h' = h \<and> (\<exists>st pb. Send D ds topic d (conns p) streamsOf newStream localPeer write = (Inr (st, pb), ds1))"
  using assms
  by (auto simp: SendToConnectedPeer_def createMessageBytes_def envelope_of_def currentTopicMessageVersion_def send_direct_def Let_def
      split: option.splits prod.splits sum.splits)

lemma ProcessReceivedMessage_direct:
  assumes "clock_ok now" "sint now - 600 \<le> sint (TimestampField m)" "sint (TimestampField m) \<le> sint now + 20"
    and "topicProcs_at h (TopicField m) = Some tp" "BroadcastMethodField m = Direct"
  shows "ProcessReceivedMessage E h now (Some m) p True =
    (None, if (\<forall>e \<in> set tp. snd e m p = None) \<and> \<not> str_contains (TopicField m) (h_TopicRequestSuffix E)
           then h\<lparr>mh_ratings := IncreaseRating (h_cacher E) (mh_ratings h) p\<rparr> else h)"
  using assms validate_window [OF assms(1), of m]
  by (simp add: ProcessReceivedMessage_def increaseRatingIfNeeded_def runProcessors_all GetList_def Let_def)



end
