(* ===== verification/Spec2Isabelle.thy ===== *)
theory Spec2Isabelle
  imports Topic_Message Peers_Rating Sharding Peers_Holder Connection_Monitor Channel_Balancer Message
    Direct_Sender Messages_Handler Ws_Transceiver Ws_Host Connections_Handler Connections_Watcher Discovery Ports
    Channel_Queues Direct_Stream Keys Net_Messenger Ws_Handlers Bootstrap_Loop Rating_Monitor
    Outgoing Wire_Types Ws_Listening Monitor_System Connections_Status Conn_String Messenger_Tools Proto_Values
    Eviction_Stable Node_Network Rating_Table Direct_Delivery
begin

text \<open>
  A model of the communication library: a peer-to-peer messenger on top of libp2p (\<^verbatim>\<open>src/p2p\<close>) and a websocket host
  (\<^verbatim>\<open>src/websocket\<close>).

  \<^bold>\<open>How the parts interact.\<close> A broadcast enters the messages handler (\<^verbatim>\<open>libp2p/messagesHandler.go\<close>), which puts it on a
  channel of the outgoing load balancer (\<^verbatim>\<open>libp2p/outgoingChannelLoadBalancer.go\<close>); the handler's loop takes the
  collected items, wraps the payload in a topic message (\<^verbatim>\<open>data/topicMessage.pb.go\<close>) and gives it to pubsub. On
  the other side the validator of the topic turns the pubsub message into a message again (\<^verbatim>\<open>libp2p/message.go\<close>),
  checks it and calls the processors. Direct messages go through the direct sender (\<^verbatim>\<open>libp2p/directSender.go\<close>), which
  signs, numbers and verifies them, and reach the handler, which rates their senders
  (\<^verbatim>\<open>rating/peersRatingHandler.go\<close>). The connection monitor (\<^verbatim>\<open>libp2p/connectionMonitor\<close>) reacts to connections: it
  closes denied peers, records preferred peers (\<^verbatim>\<open>peersHolder\<close>), asks the sharder (\<^verbatim>\<open>libp2p/networksharding\<close>) which
  peers to evict, and reconnects, through the discoverers (\<^verbatim>\<open>libp2p/discovery\<close>). The network messenger (\<^verbatim>\<open>libp2p/netMessenger.go\<close>)
  creates and wires all of these. The websocket host (\<^verbatim>\<open>websocket/client\<close>, \<^verbatim>\<open>websocket/server\<close>) exchanges messages with
  acknowledges through a transceiver (\<^verbatim>\<open>websocket/transceiver\<close>) and its own codec (\<^verbatim>\<open>websocket/data/wsMessage.pb.go\<close>).

  \<^bold>\<open>Theories.\<close>

  \<^item> \<open>Prelude\<close>: bytes, strings, errors, machine integers and list lemmas that the components share.
  \<^item> \<open>Proto_Wire\<close>: the helpers that the protobuf compiler generates: variable-length integers, writing backwards into a
    sized buffer, reading tags and fields, skipping unknown fields. The locale \<open>proto_message\<close> derives what a
    decoding loop does on an encoding from the laws of one turn of it.
  \<^item> \<open>Topic_Message\<close>, \<open>Ws_Message\<close>: \<^verbatim>\<open>Size\<close>, \<^verbatim>\<open>Marshal\<close> and \<^verbatim>\<open>Unmarshal\<close> of \<^verbatim>\<open>TopicMessage\<close>, \<^verbatim>\<open>PeerShard\<close> and \<^verbatim>\<open>WsMessage\<close>.
    Shown: marshalling never indexes out of range and gives the reference encoding, unmarshalling inverts it,
    unknown fields are ignored.
  \<^item> \<open>Wire_Types\<close>, \<open>Proto_Values\<close>: a grammar of the wire format with a schema of each message; the getters, \<^verbatim>\<open>Equal\<close>, \<^verbatim>\<open>MarshalTo\<close> and \<^verbatim>\<open>XXX_Marshal\<close>, with the locale
    \<open>buffer_message\<close> for writing into a buffer of any contents. Shown: \<^verbatim>\<open>Unmarshal\<close> succeeds exactly on the well-typed byte strings and gives every field its last
    value; into which buffers a message can be written, and what the caller then finds there.
  \<^item> \<open>Peers_Rating\<close>, \<open>Rating_Table\<close>, \<open>Rating_Monitor\<close>: the rating handler over two caches; a cache is a record of operations with the locale
    \<open>cacher\<close>, interpreted on the repository's in-memory cache. Shown: the ranges and the tiers are invariant, what
    each update does, which peers are returned as top rated, what is reported of the connected peers; that over a cache which
    evicts nothing (the locale \<open>keeping_cacher\<close>) any sequence of calls is one of a single table of ratings.
  \<^item> \<open>Kad_Distance\<close>, \<open>Sharding\<close>, \<open>Eviction_Stable\<close>: the distances between peers and the sharders that choose the connections to close.
    \<^verbatim>\<open>sort.Sort\<close> is a parameter with the laws of the locale \<open>sorter\<close>. Shown: the distance is a metric, the limits on the
    connections that are kept, that the farthest peers of a list are evicted, what the constructors guarantee, that nobody else is evicted once the
    evicted peers are gone.
  \<^item> \<open>Peers_Holder\<close>: the tables of the preferred peers; a slice expression out of range is \<^const>\<open>None\<close>. Shown: the
    consistency of the tables and where \<^verbatim>\<open>Remove\<close> breaks it.
  \<^item> \<open>Conn_String\<close>: the validator of the preferred addresses, with Go's \<^verbatim>\<open>net.ParseIP\<close>. Shown: exactly which texts are addresses of version 4, and that comparing
    them as parts of a text takes other peers for preferred ones.
  \<^item> \<open>Connection_Monitor\<close>, \<open>Monitor_System\<close>: the notifications of the network as state transformers, the reconnecting loop as the step
    relation \<open>processLoop\<close>; the loop beside the notifications of a network whose connections come and go as \<open>monitor_step\<close>, which simulates the loop alone.
    Shown: the rate limit of reconnects in every execution, when a lost connection is followed by an attempt and when never, which connections are closed.
  \<^item> \<open>Node_Network\<close>: the monitor, the sharder, the preferred peers and the messages handler on one network, with \<open>node_outside\<close> for what happens to the node (connections open and fail, messages
    arrive, the timer of the sweep fires) and \<open>node_inside\<close> for what it does (notifications are handled; peers and connections are closed, one call at a time). The reading of the peers, the
    recording and the eviction list of one notification are one step. Shown: the node always comes to rest, and is then within the limits of its sharder; the sender of a malformed message stays cut off.
  \<^item> \<open>Channel_Balancer\<close>, \<open>Channel_Queues\<close>: the channels and their names; the forwarding goroutines as the step relation \<open>forward\<close>; an abstract
    specification of named queues. Shown: consistency, look up, and that the balancer with its goroutines refines the queues
    while channels come and go (an instance of the locale \<open>simulation\<close>), so that nothing is lost, duplicated or reordered.
  \<^item> \<open>Outgoing\<close>: the broadcasting goroutines, the forwarders and the publishing loop together, as the step relation \<open>out_step\<close>. Shown: what is published on a channel is what was broadcast
    on it, in order; a waiting broadcast can complete unless the handler is closed; how closing strands it.
  \<^item> \<open>Message\<close>, \<open>Keys\<close>, \<open>Direct_Sender\<close>, \<open>Direct_Stream\<close>, \<open>Messages_Handler\<close>, \<open>Direct_Delivery\<close>: the envelope, its verifier and the signer; keys, identities and
    their conversion; direct messages with sequence numbers, signatures and a cache of seen messages, the goroutines that read the
    streams, the mutexes of the peers; topics, processors and broadcasts. Shown: what is accepted and what is delivered, end to end for
    broadcasts and for direct messages (from \<^verbatim>\<open>SendToConnectedPeer\<close> to the rating at the receiver), at most once; that identities sign for their peer id; the time window; the effect on denied peers
    and ratings.
  \<^item> \<open>Peers_On_Channel\<close>, \<open>Connections_Handler\<close>, \<open>Connections_Watcher\<close>, \<open>Connections_Status\<close>: the cache of the peers of a topic with its refreshing goroutine as the step relation
    \<open>poc_step\<close>; the connections handler with its overview of the connected peers; the metrics and the watchers of connections; the goroutines
    that print the status (\<open>printLogs\<close>) and sweep the watcher (\<open>doSweep\<close>). Shown: how old an answer of the cache may be, that the overview counts every peer exactly
    once and where, that every notification is printed exactly once.
  \<^item> \<open>Discovery\<close>, \<open>Bootstrap_Loop\<close>: the host that asks the sharder before it connects, the continuous and the optimized discoverer, their factory. The process loop of the
    optimized discoverer and its callers are the step relation \<open>od_step\<close>, the goroutine of the continuous one is \<open>cd_step\<close>. Shown: a host never connects to a peer that the monitor would
    evict at once, at most one \<^verbatim>\<open>Bootstrap\<close> succeeds, connecting to the seeders ends when one can be reached (the loop is
    a partial function, so that this is a claim).
  \<^item> \<open>Ports\<close>, \<open>Net_Messenger\<close>, \<open>Messenger_Tools\<close>: the choice of the port, transports and resource limits; the construction of a messenger from all the components, with the
    retries after bind errors and the resources that a failure leaves open; closing; the records of the debugger, the components that do nothing, the messengers
    for tests. Shown: which ports are chosen, how often the
    construction is tried, which hosts stay open, that the components of a new messenger share what they have to share, and that the
    messenger for tests is wired in the same way.
  \<^item> \<open>Ws_Transceiver\<close>, \<open>Ws_Host\<close>, \<open>Ws_Handlers\<close>, \<open>Ws_Listening\<close>: acknowledges with any interleaving of sends, acknowledges, timeouts and closing as the
    step relation \<open>ack_step\<close>, the connection wrapper, the client's goroutines as \<open>client_step\<close>, the server with its
    clients, the factory, the payload handlers, the listening goroutines of the client and of the server down to the retries of an
    acknowledge as \<open>listen_step\<close>, \<open>client_run_step\<close> and \<open>serve_step\<close>. Shown: a message and its acknowledge end to end, no success without an
    acknowledge, no panic, a failing client does not keep the server from the others, exactly when a
    client whose connection breaks can reconnect, that closing the server ends.

  \<^bold>\<open>Correspondence.\<close> A struct is a record whose fields keep their names, prefixed where two structs share them; a
  method is a function from the state to its results and the new state; an error is a value (\<open>p2p_error\<close>,
  \<open>ws_error\<close>, in a sum or an option); a panic is \<^const>\<open>None\<close>. Integers whose width matters are words or wrapped explicitly
  (\<open>wrap32\<close> for the \<^verbatim>\<open>int32\<close> ratings); other \<^verbatim>\<open>int\<close>s are integers. Loops are recursive functions; the decoding loops end because
  the position in the buffer grows, so no fuel is used. Mutexes are not modelled: an operation that
  holds its mutex throughout is one step, and where goroutines interleave there is a step relation.

  \<^bold>\<open>Parameters.\<close> libp2p, pubsub, the caches, cryptography, clocks and connections are not in the repository. They are
  arguments, and the theorems name what they rely on: that a codec inverts itself, that a signature made with a
  key verifies, that a cache returns what was put, that an evaluator denies who was denied.

  \<^bold>\<open>Not modelled.\<close> Logging, but for what the status printers and the watcher compute; the texts of \<^verbatim>\<open>String\<close> and \<^verbatim>\<open>GoString\<close> and the descriptors of the generated code; timers
  as clock values (only their firing is an event); the http server and the websocket library, the libp2p host, its network and peer store, pubsub and the Kademlia table, which are
  arguments; interfaces, but for those whose operations are parameters; mocks and stubs of tests (but the in-memory cache and the messengers for tests), the helpers of the integration tests, the examples, and the program that
  reproduces an issue of pubsub (\<^verbatim>\<open>p2p/issues\<close>), none of which is part of the library.
\<close>

end
